(* ===== verification/GoPrelude.thy ===== *)
theory GoPrelude
  imports Main "HOL-Library.Multiset"
begin

text \<open>
  The prelude of the development: how the results, errors and panics of Go functions and
  the effects of the outside world are represented, and the generic lemmas the components
  share.

  A Go string is a sequence of bytes, as \<open>string\<close> is here. A Go \<open>error\<close> is observed by
  this program through its text only (\<open>err.Error()\<close>, \<open>%v\<close>, \<open>%w\<close>), so an error is its
  text. A function that returns \<open>(T, error)\<close> returns a \<open>res\<close>: \<open>Ok v\<close> is a nil
  error, \<open>Err e\<close> a non-nil one, and \<open>Panic p\<close> says that the call does not return at
  all because the goroutine panics or the process exits.
\<close>

datatype panic =
    NilDereference          \<comment> \<open>invalid memory address or nil pointer dereference\<close>
  | IndexOutOfRange         \<comment> \<open>runtime error: index out of range\<close>
  | CloseOfClosedChannel    \<comment> \<open>close of a closed channel\<close>
  | FatalExit string        \<comment> \<open>\<open>log.Fatal\<close>: the process exits with status 1\<close>

datatype 'a res = Ok 'a | Err string | Panic panic

text \<open>
  An action runs in a world of type \<open>'w\<close>: the Redis server, the registry, the Clair
  server, the clock, everything a call of the program can read or change. The type stays
  a variable, since none of that is code of this repository.
\<close>

type_synonym ('w, 'a) act = "'w \<Rightarrow> 'a res \<times> 'w"

named_theorems go_simps "equations of results and actions that unfold a call"

definition ret :: "'a \<Rightarrow> ('w, 'a) act" where
  [go_simps]: "ret x w = (Ok x, w)"

definition throw :: "string \<Rightarrow> ('w, 'a) act" where
  [go_simps]: "throw e w = (Err e, w)"

definition panicking :: "panic \<Rightarrow> ('w, 'a) act" where
  [go_simps]: "panicking p w = (Panic p, w)"

text \<open>\<open>if err != nil { return err }\<close> after a call: an error and a panic both leave.\<close>

definition bind_act :: "('w, 'a) act \<Rightarrow> ('a \<Rightarrow> ('w, 'b) act) \<Rightarrow> ('w, 'b) act" where
  "bind_act m k w =
     (case m w of
        (Ok x, w') \<Rightarrow> k x w'
      | (Err e, w') \<Rightarrow> (Err e, w')
      | (Panic p, w') \<Rightarrow> (Panic p, w'))"

text \<open>\<open>fmt.Errorf("...: %v", err)\<close> around a call: the error text gets a prefix.\<close>

fun wrap_err :: "string \<Rightarrow> 'a res \<Rightarrow> 'a res" where
  "wrap_err pre (Ok x) = Ok x"
| "wrap_err pre (Err e) = Err (pre @ e)"
| "wrap_err pre (Panic p) = Panic p"

definition wrap_act :: "string \<Rightarrow> ('w, 'a) act \<Rightarrow> ('w, 'a) act" where
  "wrap_act pre m w = (wrap_err pre (fst (m w)), snd (m w))"

fun map_res :: "('a \<Rightarrow> 'b) \<Rightarrow> 'a res \<Rightarrow> 'b res" where
  "map_res f (Ok x) = Ok (f x)"
| "map_res f (Err e) = Err e"
| "map_res f (Panic p) = Panic p"

fun is_Panic :: "'a res \<Rightarrow> bool" where
  "is_Panic (Panic p) = True"
| "is_Panic _ = False"

fun is_Ok :: "'a res \<Rightarrow> bool" where
  "is_Ok (Ok x) = True"
| "is_Ok _ = False"

fun of_option :: "string \<Rightarrow> 'a option \<Rightarrow> 'a res" where
  "of_option e None = Err e"
| "of_option e (Some x) = Ok x"

text \<open>
  A call of a library outside this repository: it returns a value or an error, and may
  change the world. It is always an argument of the definitions that use it.
\<close>

type_synonym ('w, 'a) lib_call = "'w \<Rightarrow> (string + 'a) \<times> 'w"

fun of_sum :: "string + 'a \<Rightarrow> 'a res" where
  "of_sum (Inl e) = Err e"
| "of_sum (Inr x) = Ok x"

definition lib_act :: "('w, 'a) lib_call \<Rightarrow> ('w, 'a) act" where
  "lib_act f w = (of_sum (fst (f w)), snd (f w))"

definition lift_res :: "'a res \<Rightarrow> ('w, 'a) act" where
  "lift_res r w = (r, w)"

text \<open>An action that always returns: no panic and no exit, whatever the world.\<close>

definition returns :: "('w, 'a) act \<Rightarrow> bool" where
  "returns m \<longleftrightarrow> (\<forall>w. \<not> is_Panic (fst (m w)))"

named_theorems returns_intros "rules that an action always returns"

subsection \<open>How a bound action can end\<close>

lemma bind_act_ok [go_simps]: "m w = (Ok x, w') \<Longrightarrow> bind_act m k w = k x w'"
  by (simp add: bind_act_def)

lemma bind_act_err [go_simps]: "m w = (Err e, w') \<Longrightarrow> bind_act m k w = (Err e, w')"
  by (simp add: bind_act_def)

lemma bind_act_panic [go_simps]: "m w = (Panic p, w') \<Longrightarrow> bind_act m k w = (Panic p, w')"
  by (simp add: bind_act_def)

lemma bind_act_cases:
  assumes "bind_act m k w = (r, w')"
  obtains (ok) x w1 where "m w = (Ok x, w1)" and "k x w1 = (r, w')"
  | (err) e where "m w = (Err e, w')" and "r = Err e"
  | (panic) p where "m w = (Panic p, w')" and "r = Panic p"
  using assms by (auto simp: bind_act_def split: prod.splits res.splits)

lemma bind_act_OkE:
  assumes "bind_act m k w = (Ok y, w')"
  obtains x w1 where "m w = (Ok x, w1)" and "k x w1 = (Ok y, w')"
  using assms by (auto elim: bind_act_cases)

lemma bind_act_Ok_iff:
  "bind_act m k w = (Ok y, w') \<longleftrightarrow> (\<exists>x w1. m w = (Ok x, w1) \<and> k x w1 = (Ok y, w'))"
  by (auto simp: bind_act_def split: prod.splits res.splits)

lemma bind_act_Err_iff:
  "bind_act m k w = (Err e, w') \<longleftrightarrow>
     m w = (Err e, w') \<or> (\<exists>x w1. m w = (Ok x, w1) \<and> k x w1 = (Err e, w'))"
  by (auto simp: bind_act_def split: prod.splits res.splits)

lemma bind_act_Panic_iff:
  "bind_act m k w = (Panic p, w') \<longleftrightarrow>
     m w = (Panic p, w') \<or> (\<exists>x w1. m w = (Ok x, w1) \<and> k x w1 = (Panic p, w'))"
  by (auto simp: bind_act_def split: prod.splits res.splits)

lemma bind_act_ret [simp]: "bind_act m ret = m"
  by (rule ext) (auto simp: bind_act_def ret_def split: prod.splits res.splits)

lemma bind_act_assoc: "bind_act (bind_act m k) h = bind_act m (\<lambda>x. bind_act (k x) h)"
  by (rule ext) (auto simp: bind_act_def split: prod.splits res.splits)

lemma wrap_err_eq_Ok [simp]: "wrap_err pre r = Ok x \<longleftrightarrow> r = Ok x"
  by (cases r) auto

lemma wrap_err_eq_Panic [simp]: "wrap_err pre r = Panic p \<longleftrightarrow> r = Panic p"
  by (cases r) auto

lemma wrap_err_eq_Err: "wrap_err pre r = Err e \<longleftrightarrow> (\<exists>e'. r = Err e' \<and> e = pre @ e')"
  by (cases r) auto

lemma wrap_act_iff:
  "wrap_act pre m w = (Ok x, w') \<longleftrightarrow> m w = (Ok x, w')"
  "wrap_act pre m w = (Panic p, w') \<longleftrightarrow> m w = (Panic p, w')"
  "wrap_act pre m w = (Err e, w') \<longleftrightarrow> (\<exists>e'. m w = (Err e', w') \<and> e = pre @ e')"
  by (cases "m w"; auto simp: wrap_act_def wrap_err_eq_Err)+

lemma wrap_act_eq [go_simps]: "m w = (r, w') \<Longrightarrow> wrap_act pre m w = (wrap_err pre r, w')"
  by (simp add: wrap_act_def)

lemma map_res_eq [simp]:
  "map_res f r = Ok y \<longleftrightarrow> (\<exists>x. r = Ok x \<and> y = f x)"
  "map_res f r = Err e \<longleftrightarrow> r = Err e" "map_res f r = Panic p \<longleftrightarrow> r = Panic p"
  by (cases r; auto)+

lemma of_option_eq_Ok [simp]: "of_option e x = Ok y \<longleftrightarrow> x = Some y"
  by (cases x) auto

lemma of_option_not_Panic [simp]: "of_option e x \<noteq> Panic p"
  by (cases x) auto

lemma of_sum_not_Panic [simp]: "of_sum s \<noteq> Panic p" "\<not> is_Panic (of_sum s)"
  by (cases s; simp)+

lemma is_Panic_iff: "is_Panic r \<longleftrightarrow> (\<exists>p. r = Panic p)"
  by (cases r) auto

lemma is_Panic_wrap_err [simp]: "is_Panic (wrap_err pre r) \<longleftrightarrow> is_Panic r"
  by (cases r) auto

lemma lib_act_cases:
  assumes "lib_act f w = (r, w')"
  obtains (ok) x where "f w = (Inr x, w')" and "r = Ok x"
  | (err) e where "f w = (Inl e, w')" and "r = Err e"
  using assms by (cases "f w"; cases "fst (f w)") (auto simp: lib_act_def)

lemma lib_act_Ok_iff: "lib_act f w = (Ok x, w') \<longleftrightarrow> f w = (Inr x, w')"
  by (cases "f w"; cases "fst (f w)") (auto simp: lib_act_def)

lemma ret_throw_not_Panic [simp]: "ret x w \<noteq> (Panic p, w')" "throw e w \<noteq> (Panic p, w')"
  by (simp_all add: ret_def throw_def)

lemma lib_act_not_Panic [simp]: "lib_act f w \<noteq> (Panic p, w')"
  by (cases "f w"; cases "fst (f w)") (auto simp: lib_act_def)

lemma returns_act [returns_intros]:
  "returns (ret x)" "returns (throw e)" "returns (lib_act f)"
  "returns (lift_res r) \<longleftrightarrow> \<not> is_Panic r"
  by (simp_all add: returns_def ret_def throw_def lib_act_def lift_res_def)

lemma returns_bind [returns_intros]:
  "returns m \<Longrightarrow> (\<And>x. returns (k x)) \<Longrightarrow> returns (bind_act m k)"
  by (simp add: returns_def bind_act_def split: prod.split res.split) (metis fst_conv is_Panic.simps(1))

lemma returns_wrap [returns_intros]: "returns m \<Longrightarrow> returns (wrap_act pre m)"
  by (simp add: returns_def wrap_act_def)

lemma returnsD: "returns m \<Longrightarrow> m w \<noteq> (Panic p, w')"
  by (metis returns_def fst_conv is_Panic.simps(1))

text \<open>
  An action that takes a world to a related one only, for a relation that is reflexive and
  transitive: what it leaves unchanged, and what it only lets grow.
\<close>

definition keeps :: "('w \<Rightarrow> 'w \<Rightarrow> bool) \<Rightarrow> ('w, 'a) act \<Rightarrow> bool" where
  "keeps R m \<longleftrightarrow> (\<forall>w. R w (snd (m w)))"

definition preorder_rel :: "('w \<Rightarrow> 'w \<Rightarrow> bool) \<Rightarrow> bool" where
  "preorder_rel R \<longleftrightarrow> (\<forall>w. R w w) \<and> (\<forall>u v w. R u v \<longrightarrow> R v w \<longrightarrow> R u w)"

lemma keepsD: "keeps R m \<Longrightarrow> m w = (r, w') \<Longrightarrow> R w w'"
  by (metis keeps_def snd_conv)

lemma keeps_snd: "keeps R m \<Longrightarrow> R w (snd (m w))"
  by (simp add: keeps_def)

lemma keeps_act:
  assumes "preorder_rel R"
  shows "keeps R (ret x)" "keeps R (throw e)" "keeps R (lift_res r)" "keeps R (panicking p)"
  using assms by (simp_all add: keeps_def preorder_rel_def ret_def throw_def lift_res_def panicking_def)

lemma keeps_lib: "keeps R (lib_act f) \<longleftrightarrow> (\<forall>w. R w (snd (f w)))"
  by (simp add: keeps_def lib_act_def)

lemma keeps_bind:
  assumes "preorder_rel R" and "keeps R m" and "\<And>x. keeps R (k x)"
  shows "keeps R (bind_act m k)"
  unfolding keeps_def
proof
  fix w
  obtain r w1 where m: "m w = (r, w1)" by fastforce
  have 1: "R w w1" by (rule keepsD [OF assms(2) m])
  have "R w1 (snd (k x w1))" for x using assms(3) by (simp add: keeps_def)
  with 1 assms(1) have 2: "R w (snd (k x w1))" for x unfolding preorder_rel_def by blast
  show "R w (snd (bind_act m k w))"
    using m 1 2 by (cases r) (simp_all add: bind_act_def)
qed

lemma keeps_wrap: "keeps R m \<Longrightarrow> keeps R (wrap_act pre m)"
  by (simp add: keeps_def wrap_act_def)

subsection \<open>Lists\<close>

text \<open>
  Two strictly ordered lists with the same elements are equal: what makes the outcome of
  an unstable sort over a map with unspecified iteration order well determined.
\<close>

lemma sorted_wrt_strict_unique:
  assumes "sorted_wrt R xs" and "sorted_wrt R ys" and "mset xs = mset ys"
    and irrefl: "\<And>x. \<not> R x x" and trans: "\<And>x y z. R x y \<Longrightarrow> R y z \<Longrightarrow> R x z"
  shows "xs = ys"
  using assms(1-3)
proof (induction xs arbitrary: ys)
  case Nil
  then show ?case by simp
next
  case (Cons x xs)
  then obtain y ys' where ys: "ys = y # ys'" by (cases ys) auto
  have "x = y"
  proof (rule ccontr)
    assume ne: "x \<noteq> y"
    have "x \<in> set ys" and "y \<in> set (x # xs)"
      using Cons.prems(3) ys by (metis list.set_intros(1) set_mset_mset)+
    with ne ys Cons.prems have "R y x" and "R x y" by auto
    with irrefl trans show False by blast
  qed
  with Cons ys show ?case by auto
qed

lemma sorted_wrt_strict_distinct: "sorted_wrt R xs \<Longrightarrow> (\<And>x. \<not> R x x) \<Longrightarrow> distinct xs"
  by (induction xs) auto

text \<open>Insertion sort by a comparison, the reference result for \<open>sort.Slice\<close>.\<close>

fun insert_by :: "('a \<Rightarrow> 'a \<Rightarrow> bool) \<Rightarrow> 'a \<Rightarrow> 'a list \<Rightarrow> 'a list" where
  "insert_by lt x [] = [x]"
| "insert_by lt x (y # ys) = (if lt y x then y # insert_by lt x ys else x # y # ys)"

fun sort_by :: "('a \<Rightarrow> 'a \<Rightarrow> bool) \<Rightarrow> 'a list \<Rightarrow> 'a list" where
  "sort_by lt [] = []"
| "sort_by lt (x # xs) = insert_by lt x (sort_by lt xs)"

lemma mset_insert_by [simp]: "mset (insert_by lt x xs) = add_mset x (mset xs)"
  by (induction xs) auto

lemma mset_sort_by [simp]: "mset (sort_by lt xs) = mset xs"
  by (induction xs) auto

lemma set_sort_by [simp]: "set (sort_by lt xs) = set xs"
  by (metis mset_sort_by set_mset_mset)

lemma length_sort_by [simp]: "length (sort_by lt xs) = length xs"
  by (metis mset_sort_by size_mset)

lemma set_insert_by [simp]: "set (insert_by lt x xs) = insert x (set xs)"
  by (induction xs) auto

lemma sorted_wrt_insert_by:
  assumes "sorted_wrt lt xs"
    and "\<And>y. y \<in> set xs \<Longrightarrow> lt x y \<or> lt y x"
    and trans: "\<And>a b c. lt a b \<Longrightarrow> lt b c \<Longrightarrow> lt a c"
  shows "sorted_wrt lt (insert_by lt x xs)"
  using assms(1,2)
proof (induction xs)
  case Nil
  then show ?case by simp
next
  case (Cons y ys)
  then show ?case using trans [of x y] by auto
qed

lemma sorted_wrt_sort_by:
  assumes "distinct xs"
    and total: "\<And>a b. a \<in> set xs \<Longrightarrow> b \<in> set xs \<Longrightarrow> a \<noteq> b \<Longrightarrow> lt a b \<or> lt b a"
    and trans: "\<And>a b c. lt a b \<Longrightarrow> lt b c \<Longrightarrow> lt a c"
  shows "sorted_wrt lt (sort_by lt xs)"
  using assms(1,2)
proof (induction xs)
  case Nil
  then show ?case by simp
next
  case (Cons x xs)
  have "sorted_wrt lt (sort_by lt xs)" by (rule Cons.IH) (use Cons.prems in auto)
  moreover have "lt x y \<or> lt y x" if "y \<in> set (sort_by lt xs)" for y
    using Cons.prems that by auto
  ultimately have "sorted_wrt lt (insert_by lt x (sort_by lt xs))"
    by (rule sorted_wrt_insert_by) (assumption, erule (1) trans)
  then show ?case by simp
qed

subsection \<open>Maps as lists of their entries\<close>

text \<open>\<open>m[k] = v\<close>: a key that is there keeps its place, a new one goes last.\<close>

fun map_set :: "'k \<Rightarrow> 'v \<Rightarrow> ('k \<times> 'v) list \<Rightarrow> ('k \<times> 'v) list" where
  "map_set k v [] = [(k, v)]"
| "map_set k v ((k', v') # m) = (if k' = k then (k, v) # m else (k', v') # map_set k v m)"

lemma map_of_map_set [simp]: "map_of (map_set k v m) = (map_of m)(k \<mapsto> v)"
  by (induction m) auto

lemma keys_map_set:
  "map fst (map_set k v m) = (if k \<in> set (map fst m) then map fst m else map fst m @ [k])"
proof (induction m)
  case (Cons e m)
  then show ?case by (cases e) simp
qed simp

lemma set_keys_map_set: "set (map fst (map_set k v m)) = insert k (set (map fst m))"
  by (simp only: keys_map_set) auto

lemma set_map_set: "distinct (map fst m) \<Longrightarrow> e \<in> set (map_set k v m) \<Longrightarrow> e = (k, v) \<or> e \<in> set m"
  by (induction m) (auto split: if_splits)

end
