(* ===== verification/GoUtf8.thy ===== *)
theory GoUtf8
  imports GoPrelude
begin

text \<open>
  Runes and UTF-8 as Go's \<open>unicode/utf8\<close> has them: \<open>decode_rune\<close> reads one rune and its
  width from the front of a byte string, an invalid byte being \<open>U+FFFD\<close> of width 1, and
  \<open>encode_rune\<close> writes one, an invalid rune being written as \<open>U+FFFD\<close>. \<open>decode_runes\<close>
  is the conversion \<open>[]rune(s)\<close> and \<open>encode_runes\<close> the conversion back. The lemmas show
  that decoding inverts encoding, and that \<open>sanitise\<close> (decode, then encode) is
  idempotent: its fixed points are the valid UTF-8 strings.
\<close>

abbreviation byte :: "char \<Rightarrow> nat" where
  "byte c \<equiv> of_char c"

abbreviation rune_error :: nat where
  "rune_error \<equiv> 65533"

definition cont_byte :: "nat \<Rightarrow> bool" where
  "cont_byte b \<longleftrightarrow> 128 \<le> b \<and> b \<le> 191"

text \<open>
  The ranges a second byte may have after each first byte exclude the overlong forms, the
  surrogates and everything above \<open>U+10FFFF\<close>.
\<close>

definition second_ok :: "nat \<Rightarrow> nat \<Rightarrow> bool" where
  "second_ok b0 b1 \<longleftrightarrow>
     (if b0 = 224 then 160 \<le> b1 \<and> b1 \<le> 191
      else if b0 = 237 then 128 \<le> b1 \<and> b1 \<le> 159
      else if b0 = 240 then 144 \<le> b1 \<and> b1 \<le> 191
      else if b0 = 244 then 128 \<le> b1 \<and> b1 \<le> 143
      else cont_byte b1)"

definition rune2 :: "nat \<Rightarrow> nat \<Rightarrow> nat" where
  "rune2 b0 b1 = (b0 - 192) * 64 + (b1 - 128)"

definition rune3 :: "nat \<Rightarrow> nat \<Rightarrow> nat \<Rightarrow> nat" where
  "rune3 b0 b1 b2 = (b0 - 224) * 4096 + (b1 - 128) * 64 + (b2 - 128)"

definition rune4 :: "nat \<Rightarrow> nat \<Rightarrow> nat \<Rightarrow> nat \<Rightarrow> nat" where
  "rune4 b0 b1 b2 b3 =
     (b0 - 240) * 262144 + (b1 - 128) * 4096 + (b2 - 128) * 64 + (b3 - 128)"

definition ok2 :: "nat \<Rightarrow> nat \<Rightarrow> bool" where
  "ok2 b0 b1 \<longleftrightarrow> 194 \<le> b0 \<and> b0 \<le> 223 \<and> cont_byte b1"

definition ok3 :: "nat \<Rightarrow> nat \<Rightarrow> nat \<Rightarrow> bool" where
  "ok3 b0 b1 b2 \<longleftrightarrow> 224 \<le> b0 \<and> b0 \<le> 239 \<and> second_ok b0 b1 \<and> cont_byte b2"

definition ok4 :: "nat \<Rightarrow> nat \<Rightarrow> nat \<Rightarrow> nat \<Rightarrow> bool" where
  "ok4 b0 b1 b2 b3 \<longleftrightarrow>
     240 \<le> b0 \<and> b0 \<le> 244 \<and> second_ok b0 b1 \<and> cont_byte b2 \<and> cont_byte b3"

definition decode_tail :: "nat \<Rightarrow> string \<Rightarrow> nat \<times> nat" where
  "decode_tail b0 cs =
     (case cs of
        [] \<Rightarrow> (rune_error, 1)
      | c1 # cs1 \<Rightarrow>
          if ok2 b0 (byte c1) then (rune2 b0 (byte c1), 2)
          else (case cs1 of
             [] \<Rightarrow> (rune_error, 1)
           | c2 # cs2 \<Rightarrow>
               if ok3 b0 (byte c1) (byte c2) then (rune3 b0 (byte c1) (byte c2), 3)
               else (case cs2 of
                  [] \<Rightarrow> (rune_error, 1)
                | c3 # _ \<Rightarrow>
                    if ok4 b0 (byte c1) (byte c2) (byte c3)
                    then (rune4 b0 (byte c1) (byte c2) (byte c3), 4)
                    else (rune_error, 1))))"

fun decode_rune :: "string \<Rightarrow> nat \<times> nat" where
  "decode_rune [] = (rune_error, 0)"
| "decode_rune (c # cs) = (if byte c < 128 then (byte c, 1) else decode_tail (byte c) cs)"

definition valid_rune :: "nat \<Rightarrow> bool" where
  "valid_rune r \<longleftrightarrow> r < 55296 \<or> 57344 \<le> r \<and> r \<le> 1114111"

definition encode_rune :: "nat \<Rightarrow> string" where
  "encode_rune r0 =
     (let r = (if valid_rune r0 then r0 else rune_error) in
      if r < 128 then [char_of r]
      else if r < 2048 then [char_of (192 + r div 64), char_of (128 + r mod 64)]
      else if r < 65536
      then [char_of (224 + r div 4096), char_of (128 + r div 64 mod 64), char_of (128 + r mod 64)]
      else [char_of (240 + r div 262144), char_of (128 + r div 4096 mod 64),
            char_of (128 + r div 64 mod 64), char_of (128 + r mod 64)])"

lemma decode_tail_width: "0 < snd (decode_tail b cs)" "snd (decode_tail b cs) \<le> Suc (length cs)"
  by (auto simp: decode_tail_def split: list.split)

lemma decode_rune_width [simp]:
  "0 < snd (decode_rune (c # cs))" "snd (decode_rune s) \<le> length s"
  by (simp add: decode_tail_width) (cases s; simp add: decode_tail_width)

lemma decode_rune_width_pos:
  assumes "decode_rune s = (r, w)" and "s \<noteq> []"
  shows "0 < w \<and> w \<le> length s"
proof -
  from assms(2) obtain c cs where "s = c # cs" by (cases s) auto
  with assms(1) decode_rune_width(1) [of c cs] decode_rune_width(2) [of s]
  show ?thesis by (simp del: decode_rune.simps)
qed

function decode_runes :: "string \<Rightarrow> nat list" where
  "decode_runes s =
     (if s = [] then []
      else case decode_rune s of (r, w) \<Rightarrow> r # decode_runes (drop w s))"
  by pat_completeness auto
termination
  by (relation "measure length") (auto dest: decode_rune_width_pos [OF sym])

declare decode_runes.simps [simp del]

definition encode_runes :: "nat list \<Rightarrow> string" where
  "encode_runes rs = concat (map encode_rune rs)"

definition sanitise :: "string \<Rightarrow> string" where
  "sanitise s = encode_runes (decode_runes s)"

definition valid_utf8 :: "string \<Rightarrow> bool" where
  "valid_utf8 s \<longleftrightarrow> sanitise s = s"

lemma decode_runes_Nil [simp]: "decode_runes [] = []"
  by (simp add: decode_runes.simps)

lemma decode_runes_step:
  "s \<noteq> [] \<Longrightarrow> decode_rune s = (r, w) \<Longrightarrow> decode_runes s = r # decode_runes (drop w s)"
  by (simp add: decode_runes.simps)

lemma encode_runes_simps [simp]:
  "encode_runes [] = []" "encode_runes (r # rs) = encode_rune r @ encode_runes rs"
  by (simp_all add: encode_runes_def)

lemma encode_runes_append [simp]: "encode_runes (rs @ ts) = encode_runes rs @ encode_runes ts"
  by (simp add: encode_runes_def)

subsection \<open>Decoded runes are valid\<close>

lemma ok3_shape:
  assumes "ok3 b0 b1 b2"
  obtains a x y where "b0 = 224 + a" "b1 = 128 + x" "b2 = 128 + y" "a < 16" "x < 64" "y < 64"
    "a = 0 \<longrightarrow> 32 \<le> x" "a = 13 \<longrightarrow> x < 32"
proof -
  from assms have "224 \<le> b0" "128 \<le> b1" "128 \<le> b2" "b0 < 240" "b1 < 192" "b2 < 192"
    "b0 = 224 \<longrightarrow> 160 \<le> b1" "b0 = 237 \<longrightarrow> b1 < 160"
    by (auto simp: ok3_def second_ok_def cont_byte_def split: if_splits)
  then show thesis by (intro that [of "b0 - 224" "b1 - 128" "b2 - 128"]) auto
qed

lemma ok4_shape:
  assumes "ok4 b0 b1 b2 b3"
  obtains a x y z where "b0 = 240 + a" "b1 = 128 + x" "b2 = 128 + y" "b3 = 128 + z"
    "a < 5" "x < 64" "y < 64" "z < 64" "a = 0 \<longrightarrow> 16 \<le> x" "a = 4 \<longrightarrow> x < 16"
proof -
  from assms have "240 \<le> b0" "128 \<le> b1" "128 \<le> b2" "128 \<le> b3" "b0 < 245" "b1 < 192"
    "b2 < 192" "b3 < 192" "b0 = 240 \<longrightarrow> 144 \<le> b1" "b0 = 244 \<longrightarrow> b1 < 144"
    by (auto simp: ok4_def second_ok_def cont_byte_def split: if_splits)
  then show thesis by (intro that [of "b0 - 240" "b1 - 128" "b2 - 128" "b3 - 128"]) auto
qed

lemma ok2_shape:
  assumes "ok2 b0 b1"
  obtains a x where "b0 = 192 + a" "b1 = 128 + x" "2 \<le> a" "a < 32" "x < 64"
proof -
  from assms have "194 \<le> b0" "128 \<le> b1" "b0 < 224" "b1 < 192"
    by (auto simp: ok2_def cont_byte_def)
  then show thesis by (intro that [of "b0 - 192" "b1 - 128"]) auto
qed

lemma rune2_range: "ok2 b0 b1 \<Longrightarrow> 128 \<le> rune2 b0 b1 \<and> rune2 b0 b1 < 2048"
  by (elim ok2_shape) (simp add: rune2_def)

lemma rune3_range:
  assumes "ok3 b0 b1 b2"
  shows "2048 \<le> rune3 b0 b1 b2 \<and> rune3 b0 b1 b2 < 65536 \<and> valid_rune (rune3 b0 b1 b2)"
proof -
  from assms obtain a x y where b: "b0 = 224 + a" "b1 = 128 + x" "b2 = 128 + y"
    and l: "a < 16" "x < 64" "y < 64" and a0: "a = 0 \<longrightarrow> 32 \<le> x" and a13: "a = 13 \<longrightarrow> x < 32"
    by (rule ok3_shape)
  have r: "rune3 b0 b1 b2 = a * 4096 + x * 64 + y" by (simp add: b rune3_def)
  have "2048 \<le> a * 4096 + x * 64 + y" using a0 by (cases "a = 0") linarith+
  moreover have "a * 4096 + x * 64 + y < 65536" using l by linarith
  moreover have "a * 4096 + x * 64 + y < 55296 \<or> 57344 \<le> a * 4096 + x * 64 + y"
    using l a13 by (cases "a < 13"; cases "a = 13") linarith+
  ultimately show ?thesis unfolding r valid_rune_def by linarith
qed

lemma rune4_range:
  assumes "ok4 b0 b1 b2 b3"
  shows "65536 \<le> rune4 b0 b1 b2 b3 \<and> rune4 b0 b1 b2 b3 \<le> 1114111"
proof -
  from assms obtain a x y z where b: "b0 = 240 + a" "b1 = 128 + x" "b2 = 128 + y" "b3 = 128 + z"
    and l: "a < 5" "x < 64" "y < 64" "z < 64" and a0: "a = 0 \<longrightarrow> 16 \<le> x" and a4: "a = 4 \<longrightarrow> x < 16"
    by (rule ok4_shape)
  have r: "rune4 b0 b1 b2 b3 = a * 262144 + x * 4096 + y * 64 + z"
    by (simp add: b rune4_def)
  have "65536 \<le> a * 262144 + x * 4096 + y * 64 + z" using a0 by (cases "a = 0") linarith+
  moreover have "a * 262144 + x * 4096 + y * 64 + z \<le> 1114111"
    using l a4 by (cases "a = 4") linarith+
  ultimately show ?thesis unfolding r by linarith
qed

lemma rune_valid [simp]:
  "ok2 b0 b1 \<Longrightarrow> valid_rune (rune2 b0 b1)"
  "ok3 b0 b1 b2 \<Longrightarrow> valid_rune (rune3 b0 b1 b2)"
  "ok4 b0 b1 b2 b3 \<Longrightarrow> valid_rune (rune4 b0 b1 b2 b3)"
  using rune2_range [of b0 b1] rune3_range [of b0 b1 b2] rune4_range [of b0 b1 b2 b3]
  by (auto simp: valid_rune_def)

lemma rune_error_valid [simp]: "valid_rune rune_error"
  by (simp add: valid_rune_def)

lemma decode_tail_valid: "valid_rune (fst (decode_tail b cs))"
  by (auto simp: decode_tail_def split: list.split)

lemma decode_rune_valid: "valid_rune (fst (decode_rune s))"
  by (cases s) (auto simp: decode_tail_valid, simp add: valid_rune_def)

lemma decode_runes_valid: "r \<in> set (decode_runes s) \<Longrightarrow> valid_rune r"
proof (induction s rule: decode_runes.induct)
  case (1 s)
  then show ?case
    using decode_rune_valid [of s]
    by (cases "s = []"; cases "decode_rune s") (auto simp: decode_runes.simps [of s])
qed

subsection \<open>Decoding inverts encoding\<close>

lemma decode_rune_encode:
  assumes "valid_rune r"
  shows "decode_rune (encode_rune r @ s) = (r, length (encode_rune r))"
proof -
  consider (one) "r < 128" | (two) "128 \<le> r" "r < 2048"
    | (three) "2048 \<le> r" "r < 65536" | (four) "65536 \<le> r" "r \<le> 1114111"
    using assms by (fastforce simp: valid_rune_def)
  then show ?thesis
  proof cases
    case one
    with assms show ?thesis by (simp add: encode_rune_def)
  next
    case two
    define x y where "x = r div 64" and "y = r mod 64"
    have r: "r = 64 * x + y" "y < 64" by (simp_all add: x_def y_def)
    with two have "2 \<le> x" "x < 32" by auto
    with r have "ok2 (192 + x) (128 + y)" "rune2 (192 + x) (128 + y) = r"
      by (simp_all add: ok2_def rune2_def cont_byte_def)
    then show ?thesis using two assms \<open>x < 32\<close> r(2)
      by (simp add: encode_rune_def decode_tail_def flip: x_def y_def)
  next
    case three
    define x y z where "x = r div 4096" and "y = r div 64 mod 64" and "z = r mod 64"
    have d: "r div 64 div 64 = r div 4096" by (simp flip: div_mult2_eq)
    have 1: "r div 64 * 64 + z = r" and 2: "x * 64 + y = r div 64"
      using div_mult_mod_eq [of r 64] div_mult_mod_eq [of "r div 64" 64]
      unfolding d by (simp_all only: x_def y_def z_def)
    have "(x * 64 + y) * 64 + z = r" by (simp only: 1 2)
    then have r: "r = 4096 * x + 64 * y + z" by (simp add: algebra_simps)
    have "y < 64" "z < 64" by (simp_all add: y_def z_def)
    note r = r this
    with three have x: "x < 16" by linarith
    have "x = 0 \<longrightarrow> 32 \<le> y" "x = 13 \<longrightarrow> y < 32"
      using r three assms unfolding valid_rune_def by linarith+
    with r x have ok: "ok3 (224 + x) (128 + y) (128 + z)"
      unfolding ok3_def second_ok_def cont_byte_def by auto
    have eq: "rune3 (224 + x) (128 + y) (128 + z) = r" by (simp add: rune3_def r(1))
    have enc: "encode_rune r = [char_of (224 + x), char_of (128 + y), char_of (128 + z)]"
      using three assms by (simp add: encode_rune_def x_def y_def z_def)
    have "\<not> ok2 (224 + x) b" for b by (simp add: ok2_def)
    then show ?thesis using ok eq x r(2,3) by (simp add: enc decode_tail_def)
  next
    case four
    define x y z u where "x = r div 262144" and "y = r div 4096 mod 64"
      and "z = r div 64 mod 64" and "u = r mod 64"
    have d: "r div 64 div 64 = r div 4096" "r div 4096 div 64 = r div 262144"
      by (simp_all flip: div_mult2_eq)
    have 1: "r div 64 * 64 + u = r" and 2: "r div 4096 * 64 + z = r div 64"
      and 3: "x * 64 + y = r div 4096"
      using div_mult_mod_eq [of r 64] div_mult_mod_eq [of "r div 64" 64]
        div_mult_mod_eq [of "r div 4096" 64]
      unfolding d by (simp_all only: x_def y_def z_def u_def)
    have "((x * 64 + y) * 64 + z) * 64 + u = r" by (simp only: 1 2 3)
    then have r: "r = 262144 * x + 4096 * y + 64 * z + u" by (simp add: algebra_simps)
    have "y < 64" "z < 64" "u < 64" by (simp_all add: y_def z_def u_def)
    note r = r this
    with four have x: "x < 5" by linarith
    have "x = 0 \<longrightarrow> 16 \<le> y" "x = 4 \<longrightarrow> y < 16"
      using r four by linarith+
    with r x have ok: "ok4 (240 + x) (128 + y) (128 + z) (128 + u)"
      unfolding ok4_def second_ok_def cont_byte_def by auto
    have eq: "rune4 (240 + x) (128 + y) (128 + z) (128 + u) = r" by (simp add: rune4_def r(1))
    have enc: "encode_rune r =
        [char_of (240 + x), char_of (128 + y), char_of (128 + z), char_of (128 + u)]"
      using four assms by (simp add: encode_rune_def x_def y_def z_def u_def)
    have "\<not> ok2 (240 + x) b" "\<not> ok3 (240 + x) b c" for b c
      by (simp_all add: ok2_def ok3_def)
    then show ?thesis using ok eq x r(2,3,4) by (simp add: enc decode_tail_def)
  qed
qed

subsection \<open>Encoding inverts decoding, except on invalid bytes\<close>

lemma encode_rune2:
  assumes "ok2 b0 b1"
  shows "encode_rune (rune2 b0 b1) = [char_of b0, char_of b1]"
proof -
  from assms obtain a x where b: "b0 = 192 + a" "b1 = 128 + x" "2 \<le> a" "a < 32" "x < 64"
    by (rule ok2_shape)
  have r: "rune2 b0 b1 = a * 64 + x" by (simp add: b rune2_def)
  have "(a * 64 + x) div 64 = a" "(a * 64 + x) mod 64 = x" using b by simp_all
  then show ?thesis
    using rune2_range [OF assms] assms b by (simp add: encode_rune_def r [symmetric])
qed

lemma encode_rune3:
  assumes "ok3 b0 b1 b2"
  shows "encode_rune (rune3 b0 b1 b2) = [char_of b0, char_of b1, char_of b2]"
proof -
  from assms obtain a x y where b: "b0 = 224 + a" "b1 = 128 + x" "b2 = 128 + y"
    and l: "a < 16" "x < 64" "y < 64" by (rule ok3_shape)
  have r: "rune3 b0 b1 b2 = a * 4096 + x * 64 + y" by (simp add: b rune3_def)
  have "rune3 b0 b1 b2 div 4096 = a"
    unfolding r by (rule div_nat_eqI) (use l in simp_all)
  moreover have "rune3 b0 b1 b2 div 64 = a * 64 + x"
    unfolding r by (rule div_nat_eqI) (use l in simp_all)
  moreover have "rune3 b0 b1 b2 mod 64 = y"
    unfolding r using l by (simp add: mod_add_eq [of _ 64 y, symmetric])
  ultimately show ?thesis
    using rune3_range [OF assms] l by (simp add: encode_rune_def b)
qed

lemma encode_rune4:
  assumes "ok4 b0 b1 b2 b3"
  shows "encode_rune (rune4 b0 b1 b2 b3) = [char_of b0, char_of b1, char_of b2, char_of b3]"
proof -
  from assms obtain a x y z where b: "b0 = 240 + a" "b1 = 128 + x" "b2 = 128 + y" "b3 = 128 + z"
    and l: "a < 5" "x < 64" "y < 64" "z < 64" by (rule ok4_shape)
  have r: "rune4 b0 b1 b2 b3 = a * 262144 + x * 4096 + y * 64 + z"
    by (simp add: b rune4_def)
  have "rune4 b0 b1 b2 b3 div 262144 = a"
    unfolding r by (rule div_nat_eqI) (use l in simp_all)
  moreover have "rune4 b0 b1 b2 b3 div 4096 = a * 64 + x"
    unfolding r by (rule div_nat_eqI) (use l in simp_all)
  moreover have "rune4 b0 b1 b2 b3 div 64 = (a * 64 + x) * 64 + y"
    unfolding r by (rule div_nat_eqI) (use l in simp_all)
  moreover have "rune4 b0 b1 b2 b3 mod 64 = z"
    unfolding r using l by (simp add: mod_add_eq [of _ 64 z, symmetric])
  moreover have "(4096 * a + x * 64 + y) mod 64 = y"
    using l mod_mult_self2 [of y 64 "64 * a + x"] by (simp add: algebra_simps)
  moreover have "valid_rune (rune4 b0 b1 b2 b3)" "65536 \<le> rune4 b0 b1 b2 b3"
    using assms rune4_range [OF assms] by auto
  ultimately show ?thesis using l by (simp add: encode_rune_def b)
qed

lemma decode_rune_cases:
  assumes "decode_rune s = (r, w)" and "s \<noteq> []"
  obtains (ascii) c cs where "s = c # cs" and "byte c < 128" and "r = byte c" and "w = 1"
  | (multi) "128 \<le> r" and "encode_rune r = take w s" and "128 \<le> byte (hd s)"
  | (invalid) "r = rune_error" and "w = 1" and "128 \<le> byte (hd s)"
proof -
  obtain c cs where s: "s = c # cs" using assms(2) by (cases s) auto
  have "byte c < 128 \<or> r = rune_error \<and> w = 1 \<or> 128 \<le> r \<and> encode_rune r = take w s"
    using assms(1) unfolding s
    by (auto simp: decode_tail_def encode_rune2 encode_rune3 encode_rune4
        dest: rune2_range rune3_range rune4_range split: if_splits list.splits)
  then show thesis
    using assms(1) that unfolding s by (cases "byte c < 128") auto
qed

lemma encode_rune_not_Nil [simp]: "encode_rune r \<noteq> []"
  by (simp add: encode_rune_def Let_def)

lemma decode_encode_runes_append:
  "\<forall>r \<in> set rs. valid_rune r \<Longrightarrow> decode_runes (encode_runes rs @ s) = rs @ decode_runes s"
proof (induction rs)
  case Nil
  then show ?case by simp
next
  case (Cons r rs)
  then show ?case
    using decode_rune_encode [of r "encode_runes rs @ s"]
    by (subst decode_runes_step [where r = r and w = "length (encode_rune r)"]) simp_all
qed

lemma decode_encode_runes: "\<forall>r \<in> set rs. valid_rune r \<Longrightarrow> decode_runes (encode_runes rs) = rs"
  using decode_encode_runes_append [of rs "[]"] by simp

lemma sanitise_idem [simp]: "sanitise (sanitise s) = sanitise s"
  by (simp add: sanitise_def decode_encode_runes decode_runes_valid)

lemma valid_utf8_sanitise [simp]: "valid_utf8 (sanitise s)"
  by (simp add: valid_utf8_def)

lemma valid_utf8_encode_runes: "\<forall>r \<in> set rs. valid_rune r \<Longrightarrow> valid_utf8 (encode_runes rs)"
  by (simp add: valid_utf8_def sanitise_def decode_encode_runes)

subsection \<open>ASCII strings\<close>

definition ascii :: "string \<Rightarrow> bool" where
  "ascii s \<longleftrightarrow> list_all (\<lambda>c. byte c < 128) s"

lemma ascii_simps [simp]: "ascii []" "ascii (c # s) \<longleftrightarrow> byte c < 128 \<and> ascii s"
  "ascii (s @ t) \<longleftrightarrow> ascii s \<and> ascii t"
  by (simp_all add: ascii_def)

lemma decode_runes_ascii_Cons [simp]:
  "byte c < 128 \<Longrightarrow> decode_runes (c # s) = byte c # decode_runes s"
  by (subst decode_runes_step [where r = "byte c" and w = 1]) simp_all

lemma encode_rune_ascii [simp]: "r < 128 \<Longrightarrow> encode_rune r = [char_of r]"
  by (simp add: encode_rune_def valid_rune_def)

lemma decode_runes_ascii: "ascii s \<Longrightarrow> decode_runes s = map byte s"
  by (induction s) auto

lemma valid_utf8_ascii: "ascii s \<Longrightarrow> valid_utf8 s"
  by (induction s) (auto simp: valid_utf8_def sanitise_def)

lemma sanitise_ascii [simp]: "ascii s \<Longrightarrow> sanitise s = s"
  using valid_utf8_ascii by (simp add: valid_utf8_def)

lemma sanitise_eq_Nil [simp]: "sanitise s = [] \<longleftrightarrow> s = []"
proof (cases s)
  case (Cons c cs)
  obtain r n where "decode_rune s = (r, n)" by fastforce
  then have "decode_runes s = r # decode_runes (drop n s)"
    using Cons by (intro decode_runes_step) auto
  then show ?thesis by (simp add: sanitise_def Cons)
qed (simp add: sanitise_def)

lemma valid_utf8_append:
  assumes "valid_utf8 s" and "valid_utf8 t"
  shows "valid_utf8 (s @ t)"
proof -
  have "s @ t = encode_runes (decode_runes s @ decode_runes t)"
    using assms by (simp add: valid_utf8_def sanitise_def)
  then show ?thesis
    by (metis UnE decode_runes_valid set_append valid_utf8_encode_runes)
qed

end
