(* ===== verification/GoStrings.thy ===== *)
theory GoStrings
  imports GoUtf8
begin

text \<open>
  What the program uses of Go's \<open>strings\<close> and \<open>strconv\<close>: splitting and joining,
  trimming, replacing, lower case, byte-wise order, decimal printing and integer parsing
  at 64 bits. The lemmas give the round trips (join after split, split after join, parse
  after print) and the shape of what the whitespace functions return.
\<close>

subsection \<open>Splitting and joining\<close>

text \<open>\<open>strings.Split(s, sep)\<close> for a separator of one byte.\<close>

fun split_on :: "char \<Rightarrow> string \<Rightarrow> string list" where
  "split_on c [] = [[]]"
| "split_on c (x # xs) =
     (if x = c then [] # split_on c xs
      else (case split_on c xs of [] \<Rightarrow> [[x]] | y # ys \<Rightarrow> (x # y) # ys))"

text \<open>\<open>strings.Join(xs, sep)\<close>.\<close>

fun join :: "string \<Rightarrow> string list \<Rightarrow> string" where
  "join sep [] = []"
| "join sep [x] = x"
| "join sep (x # y # ys) = x @ sep @ join sep (y # ys)"

lemma split_on_not_Nil [simp]: "split_on c s \<noteq> []"
  by (induction s) (auto split: list.splits)

lemma join_Cons: "xs \<noteq> [] \<Longrightarrow> join sep (x # xs) = x @ sep @ join sep xs"
  by (cases xs) auto

lemma join_split: "join [c] (split_on c s) = s"
proof (induction s)
  case Nil
  then show ?case by simp
next
  case (Cons x s)
  obtain y ys where "split_on c s = y # ys" by (cases "split_on c s") auto
  with Cons show ?case by (cases ys) auto
qed

lemma split_on_clean: "c \<notin> set s \<Longrightarrow> split_on c s = [s]"
  by (induction s) auto

lemma split_on_append: "c \<notin> set s \<Longrightarrow> split_on c (s @ c # t) = s # split_on c t"
  by (induction s) auto

lemma split_join:
  "xs \<noteq> [] \<Longrightarrow> \<forall>x \<in> set xs. c \<notin> set x \<Longrightarrow> split_on c (join [c] xs) = xs"
  by (induction "[c]" xs rule: join.induct) (auto simp: split_on_clean split_on_append)

lemma split_on_no_sep: "x \<in> set (split_on c s) \<Longrightarrow> c \<notin> set x"
  by (induction s arbitrary: x) (auto split: list.splits if_splits)

lemma length_split_on: "length (split_on c s) = Suc (count_list s c)"
  by (induction s) (auto split: list.splits)

text \<open>\<open>strings.TrimSuffix\<close>.\<close>

definition trim_suffix :: "string \<Rightarrow> string \<Rightarrow> string" where
  "trim_suffix suf s =
     (if length suf \<le> length s \<and> drop (length s - length suf) s = suf
      then take (length s - length suf) s else s)"

lemma trim_suffix_append [simp]: "trim_suffix suf (s @ suf) = s"
  by (simp add: trim_suffix_def)

text \<open>\<open>strings.ReplaceAll\<close> for a pattern of one byte.\<close>

definition replace_char :: "char \<Rightarrow> string \<Rightarrow> string \<Rightarrow> string" where
  "replace_char c new s = concat (map (\<lambda>x. if x = c then new else [x]) s)"

lemma replace_char_simps [simp]:
  "replace_char c new [] = []"
  "replace_char c new (x # s) = (if x = c then new else [x]) @ replace_char c new s"
  by (simp_all add: replace_char_def)

lemma replace_char_id: "c \<notin> set s \<Longrightarrow> replace_char c new s = s"
  by (induction s) auto

lemma set_replace_char:
  "set (replace_char c new s) = (set s - {c}) \<union> (if c \<in> set s then set new else {})"
  by (induction s) auto

text \<open>The part after the last \<open>c\<close>, if there is one: \<open>strings.LastIndex\<close> and the slice.\<close>

definition after_last :: "char \<Rightarrow> string \<Rightarrow> string" where
  "after_last c s = last (split_on c s)"

lemma after_last_clean: "c \<notin> set (after_last c s)"
  using split_on_no_sep [of "last (split_on c s)" c s] by (simp add: after_last_def)

lemma split_on_sep: "split_on c (s @ c # t) \<noteq> [x]"
proof
  assume "split_on c (s @ c # t) = [x]"
  then have "length (split_on c (s @ c # t)) = 1" by simp
  then show False by (simp add: length_split_on)
qed

lemma after_last_append: "c \<notin> set t \<Longrightarrow> after_last c (s @ c # t) = t"
  by (induction s) (auto simp: after_last_def split_on_clean split_on_sep split: list.splits)

subsection \<open>Byte order\<close>

text \<open>\<open><\<close> on strings.\<close>

fun str_less :: "string \<Rightarrow> string \<Rightarrow> bool" where
  "str_less xs [] = False"
| "str_less [] (y # ys) = True"
| "str_less (x # xs) (y # ys) = (byte x < byte y \<or> x = y \<and> str_less xs ys)"

lemma str_less_irrefl [simp]: "\<not> str_less s s"
  by (induction s) auto

lemma str_less_trans: "str_less a b \<Longrightarrow> str_less b c \<Longrightarrow> str_less a c"
proof (induction a b arbitrary: c rule: str_less.induct)
  case (3 x xs y ys)
  then show ?case by (cases c) auto
qed (auto elim: str_less.elims)

lemma str_less_total: "a \<noteq> b \<Longrightarrow> str_less a b \<or> str_less b a"
proof (induction a b rule: str_less.induct)
  case (1 xs)
  then show ?case by (cases xs) auto
next
  case (3 x xs y ys)
  then show ?case by (cases "byte x < byte y"; cases "byte y < byte x") auto
qed auto

subsection \<open>White space\<close>

definition is_space :: "nat \<Rightarrow> bool" where
  "is_space r \<longleftrightarrow>
     9 \<le> r \<and> r \<le> 13 \<or> r = 32 \<or> r = 133 \<or> r = 160 \<or> r = 5760 \<or> 8192 \<le> r \<and> r \<le> 8202
     \<or> r = 8232 \<or> r = 8233 \<or> r = 8239 \<or> r = 8287 \<or> r = 12288"

text \<open>The runes of a string, each with its bytes: what a \<open>range\<close> over a string walks.\<close>

function segments :: "string \<Rightarrow> (nat \<times> string) list" where
  "segments s =
     (if s = [] then []
      else case decode_rune s of (r, w) \<Rightarrow> (r, take w s) # segments (drop w s))"
  by pat_completeness auto
termination
  by (relation "measure length") (auto dest: decode_rune_width_pos [OF sym])

declare segments.simps [simp del]

lemma segments_Nil [simp]: "segments [] = []"
  by (simp add: segments.simps)

lemma segments_ascii_Cons [simp]: "byte c < 128 \<Longrightarrow> segments (c # s) = (byte c, [c]) # segments s"
  by (subst segments.simps) simp

lemma segments_step:
  "s \<noteq> [] \<Longrightarrow> decode_rune s = (r, w) \<Longrightarrow> segments s = (r, take w s) # segments (drop w s)"
  by (simp add: segments.simps)

lemma string_rune_induct [case_names Nil step]:
  assumes "P []"
    and step: "\<And>s r w. s \<noteq> [] \<Longrightarrow> decode_rune s = (r, w) \<Longrightarrow> 0 < w \<Longrightarrow> w \<le> length s \<Longrightarrow>
      P (drop w s) \<Longrightarrow> P s"
  shows "P s"
proof (induction s rule: length_induct)
  case (1 s)
  show ?case
  proof (cases "s = []")
    case True
    then show ?thesis using assms(1) by simp
  next
    case False
    obtain r w where d: "decode_rune s = (r, w)" by (cases "decode_rune s")
    with False have w: "0 < w" "w \<le> length s" using decode_rune_width_pos by blast+
    with 1 False have "P (drop w s)" by simp
    with False d w show ?thesis by (rule step)
  qed
qed

lemma concat_segments: "concat (map snd (segments s)) = s"
  by (induction s rule: string_rune_induct) (simp_all add: segments_step)

lemma segments_runes: "map fst (segments s) = decode_runes s"
  by (induction s rule: string_rune_induct) (simp_all add: segments_step decode_runes_step)

lemma segments_nonempty: "(r, b) \<in> set (segments s) \<Longrightarrow> b \<noteq> []"
  by (induction s rule: string_rune_induct) (auto simp: segments_step)

text \<open>\<open>strings.Fields\<close> and \<open>strings.TrimSpace\<close>.\<close>

fun fields_segs :: "string \<Rightarrow> (nat \<times> string) list \<Rightarrow> string list" where
  "fields_segs acc [] = (if acc = [] then [] else [acc])"
| "fields_segs acc ((r, b) # ss) =
     (if is_space r
      then (if acc = [] then fields_segs [] ss else acc # fields_segs [] ss)
      else fields_segs (acc @ b) ss)"

definition fields :: "string \<Rightarrow> string list" where
  "fields s = fields_segs [] (segments s)"

definition trim_space :: "string \<Rightarrow> string" where
  "trim_space s =
     concat (map snd (rev (dropWhile (is_space \<circ> fst)
        (rev (dropWhile (is_space \<circ> fst) (segments s))))))"

lemma fields_segs_nonempty: "x \<in> set (fields_segs acc ss) \<Longrightarrow> x \<noteq> []"
  by (induction acc ss rule: fields_segs.induct) (auto split: if_splits)

lemma fields_nonempty: "x \<in> set (fields s) \<Longrightarrow> x \<noteq> []"
  by (simp add: fields_def fields_segs_nonempty)

lemma fields_space_free:
  assumes "ascii s"
  shows "x \<in> set (fields s) \<Longrightarrow> c \<in> set x \<Longrightarrow> \<not> is_space (byte c)"
proof -
  have "x \<in> set (fields_segs acc (segments s)) \<Longrightarrow> c \<in> set x \<Longrightarrow>
      \<forall>d \<in> set acc. \<not> is_space (byte d) \<Longrightarrow> \<not> is_space (byte c)" for acc
    using assms by (induction s arbitrary: acc) (fastforce split: if_splits)+
  then show "x \<in> set (fields s) \<Longrightarrow> c \<in> set x \<Longrightarrow> \<not> is_space (byte c)"
    by (simp add: fields_def)
qed

lemma trim_space_clean:
  assumes "ascii s" and "\<forall>c \<in> set s. \<not> is_space (byte c)"
  shows "trim_space s = s"
proof -
  have seg: "segments s = map (\<lambda>c. (byte c, [c])) s"
    using assms(1) by (induction s) auto
  have "dropWhile (is_space \<circ> fst) xs = xs" if "set xs \<subseteq> set (segments s)" for xs
    using that assms(2) by (cases xs) (auto simp: seg)
  then show ?thesis by (simp add: trim_space_def concat_segments)
qed

subsection \<open>Lower case\<close>

text \<open>
  \<open>strings.ToLower\<close>, as far as a comparison with an ASCII string can see. \<open>U+0130\<close> and
  \<open>U+212A\<close> are the only code points above 127 whose lower case is ASCII; every other one
  is lowered to a code point above 127, which the model leaves as it is.
\<close>

definition rune_to_lower :: "nat \<Rightarrow> nat" where
  "rune_to_lower r =
     (if 65 \<le> r \<and> r \<le> 90 then r + 32 else if r = 304 then 105 else if r = 8490 then 107 else r)"

definition to_lower :: "string \<Rightarrow> string" where
  "to_lower s = encode_runes (map rune_to_lower (decode_runes s))"

lemma rune_to_lower_valid: "valid_rune r \<Longrightarrow> valid_rune (rune_to_lower r)"
  by (auto simp: rune_to_lower_def valid_rune_def)

lemma rune_to_lower_idem [simp]: "rune_to_lower (rune_to_lower r) = rune_to_lower r"
  by (simp add: rune_to_lower_def)

lemma to_lower_idem: "to_lower (to_lower s) = to_lower s"
  by (simp add: to_lower_def decode_encode_runes decode_runes_valid rune_to_lower_valid comp_def)

lemma to_lower_ascii_Cons [simp]:
  "byte c < 128 \<Longrightarrow> to_lower (c # s) = char_of (rune_to_lower (byte c)) # to_lower s"
  by (simp add: to_lower_def rune_to_lower_def)

lemma to_lower_Nil [simp]: "to_lower [] = []"
  by (simp add: to_lower_def)

subsection \<open>Decimal integers\<close>

text \<open>\<open>%d\<close>, and \<open>strconv.Itoa\<close>.\<close>

fun dec_nat :: "nat \<Rightarrow> string" where
  "dec_nat n = (if n < 10 then [char_of (48 + n)] else dec_nat (n div 10) @ [char_of (48 + n mod 10)])"

declare dec_nat.simps [simp del]

definition itoa :: "int \<Rightarrow> string" where
  "itoa i = (if i < 0 then CHR ''-'' # dec_nat (nat (- i)) else dec_nat (nat i))"

datatype num_error = ErrSyntax | ErrRange

text \<open>
  \<open>byte_lower\<close> is \<open>lower(c) = c | 0x20\<close> of \<open>strconv\<close> on the letters, which is all it is
  compared with.
\<close>

definition byte_lower :: "nat \<Rightarrow> nat" where
  "byte_lower b = (if 65 \<le> b \<and> b \<le> 90 then b + 32 else b)"

definition digit_val :: "nat \<Rightarrow> nat option" where
  "digit_val b =
     (if 48 \<le> b \<and> b \<le> 57 then Some (b - 48)
      else if 97 \<le> byte_lower b \<and> byte_lower b \<le> 122 then Some (byte_lower b - 87)
      else None)"

text \<open>The digit loop of \<open>ParseUint\<close>; \<open>us\<close> says that underscores are skipped (base 0).\<close>

fun parse_digits :: "nat \<Rightarrow> bool \<Rightarrow> string \<Rightarrow> nat \<Rightarrow> num_error + nat" where
  "parse_digits base us [] n = Inr n"
| "parse_digits base us (c # cs) n =
     (if c = CHR ''_'' \<and> us then parse_digits base us cs n
      else (case digit_val (byte c) of
         None \<Rightarrow> Inl ErrSyntax
       | Some d \<Rightarrow>
           if base \<le> d then Inl ErrSyntax
           else if 2 ^ 64 \<le> n * base + d then Inl ErrRange
           else parse_digits base us cs (n * base + d)))"

text \<open>\<open>underscoreOK\<close>: the state is the last thing seen, \<open>1\<close> a digit, \<open>2\<close> an underscore.\<close>

fun underscore_loop :: "bool \<Rightarrow> nat \<Rightarrow> string \<Rightarrow> bool" where
  "underscore_loop hex i [] \<longleftrightarrow> i \<noteq> 2"
| "underscore_loop hex i (c # cs) \<longleftrightarrow>
     (if 48 \<le> byte c \<and> byte c \<le> 57
         \<or> hex \<and> 97 \<le> byte_lower (byte c) \<and> byte_lower (byte c) \<le> 102
      then underscore_loop hex 1 cs
      else if c = CHR ''_'' then i = 1 \<and> underscore_loop hex 2 cs
      else i \<noteq> 2 \<and> underscore_loop hex 0 cs)"

definition base_prefix :: "string \<Rightarrow> nat option" where
  "base_prefix s =
     (case s of
        c0 # c1 # _ \<Rightarrow>
          if c0 \<noteq> CHR ''0'' then None
          else if byte_lower (byte c1) = 98 then Some 2
          else if byte_lower (byte c1) = 111 then Some 8
          else if byte_lower (byte c1) = 120 then Some 16
          else None
      | _ \<Rightarrow> None)"

definition drop_sign :: "string \<Rightarrow> string" where
  "drop_sign s = (case s of c # cs \<Rightarrow> if c = CHR ''-'' \<or> c = CHR ''+'' then cs else s | [] \<Rightarrow> [])"

definition underscore_ok :: "string \<Rightarrow> bool" where
  "underscore_ok s0 =
     (let s = drop_sign s0 in
      case base_prefix s of
        None \<Rightarrow> underscore_loop False 0 s
      | Some b \<Rightarrow> underscore_loop (b = 16) 1 (drop 2 s))"

definition parse_uint :: "nat \<Rightarrow> string \<Rightarrow> num_error + nat" where
  "parse_uint base0 s =
     (if s = [] then Inl ErrSyntax
      else
        let (base, ds) =
          (if base0 \<noteq> 0 then (base0, s)
           else if hd s = CHR ''0''
           then (case base_prefix s of
                   Some b \<Rightarrow> if 3 \<le> length s then (b, drop 2 s) else (8, tl s)
                 | None \<Rightarrow> (8, tl s))
           else (10, s))
        in case parse_digits base (base0 = 0) ds 0 of
             Inl e \<Rightarrow> Inl e
           | Inr n \<Rightarrow>
               if base0 = 0 \<and> CHR ''_'' \<in> set ds \<and> \<not> underscore_ok s then Inl ErrSyntax
               else Inr n)"

definition parse_int :: "nat \<Rightarrow> string \<Rightarrow> num_error + int" where
  "parse_int base s =
     (if s = [] then Inl ErrSyntax
      else
        let neg = (hd s = CHR ''-'') in
        case parse_uint base (drop_sign s) of
          Inl e \<Rightarrow> Inl e
        | Inr un \<Rightarrow>
            if \<not> neg \<and> 2 ^ 63 \<le> un then Inl ErrRange
            else if neg \<and> 2 ^ 63 < un then Inl ErrRange
            else Inr (if neg then - int un else int un))"

text \<open>\<open>strconv.Atoi\<close> on a 64-bit platform.\<close>

definition atoi :: "string \<Rightarrow> num_error + int" where
  "atoi s = parse_int 10 s"

subsection \<open>Parsing inverts printing\<close>

lemma dec_nat_not_Nil [simp]: "dec_nat n \<noteq> []"
  by (subst dec_nat.simps) simp

lemma dec_nat_digits: "c \<in> set (dec_nat n) \<Longrightarrow> 48 \<le> byte c \<and> byte c \<le> 57"
proof (induction n rule: dec_nat.induct)
  case (1 n)
  then show ?case by (auto simp: dec_nat.simps [of n] split: if_splits)
qed

lemma hd_dec_nat: "48 \<le> byte (hd (dec_nat n)) \<and> byte (hd (dec_nat n)) \<le> 57"
  using dec_nat_digits [of "hd (dec_nat n)" n] by simp

lemma ascii_dec_nat [simp]: "ascii (dec_nat n)"
  by (auto simp: ascii_def list_all_iff dest: dec_nat_digits)

lemma ascii_itoa [simp]: "ascii (itoa i)"
  by (simp add: itoa_def)

lemma digit_val_digit [simp]: "d < 10 \<Longrightarrow> digit_val (48 + d) = Some d"
  by (simp add: digit_val_def)

lemma parse_digits_dec:
  "n < 2 ^ 64 \<Longrightarrow> parse_digits 10 us (dec_nat n @ cs) 0 = parse_digits 10 us cs n"
proof (induction n arbitrary: cs rule: dec_nat.induct)
  case (1 n)
  have us: "char_of (48 + d) \<noteq> CHR ''_''" if "d < 10" for d :: nat
    using that by (auto dest: arg_cong [of _ _ byte])
  show ?case
  proof (cases "n < 10")
    case True
    with us show ?thesis by (simp add: dec_nat.simps [of n])
  next
    case False
    with "1.prems" have "n div 10 < 2 ^ 64" by simp
    with False have "parse_digits 10 us (dec_nat n @ cs) 0 =
        parse_digits 10 us (char_of (48 + n mod 10) # cs) (n div 10)"
      by (simp add: dec_nat.simps [of n] "1.IH")
    moreover have "\<not> 10 \<le> n mod 10" by (simp add: not_le)
    ultimately show ?thesis using us [of "n mod 10"] "1.prems" by simp
  qed
qed

lemma parse_uint_dec: "n < 2 ^ 64 \<Longrightarrow> parse_uint 10 (dec_nat n) = Inr n"
  using parse_digits_dec [of n False "[]"] by (simp add: parse_uint_def)

lemma hd_dec_nat_no_sign: "hd (dec_nat n) \<noteq> CHR ''-''" "hd (dec_nat n) \<noteq> CHR ''+''"
  using hd_dec_nat [of n] by auto

lemma drop_sign_dec: "drop_sign (dec_nat n) = dec_nat n"
  using hd_dec_nat_no_sign [of n] by (cases "dec_nat n") (auto simp: drop_sign_def)

theorem atoi_itoa:
  assumes "- (2 ^ 63) \<le> i" and "i < 2 ^ 63"
  shows "atoi (itoa i) = Inr i"
proof (cases "i < 0")
  case True
  with assms have "nat (- i) < 2 ^ 64" "nat (- i) \<le> 2 ^ 63" by auto
  with True show ?thesis
    by (simp add: atoi_def itoa_def parse_int_def drop_sign_def parse_uint_dec)
next
  case False
  with assms have "nat i < 2 ^ 64" "nat i < 2 ^ 63" by auto
  with False show ?thesis
    by (simp add: atoi_def itoa_def parse_int_def drop_sign_dec parse_uint_dec hd_dec_nat_no_sign)
qed

lemma dec_nat_inject: "dec_nat n = dec_nat m \<Longrightarrow> n = m"
proof (induction n arbitrary: m rule: dec_nat.induct)
  case (1 n)
  have one: "length (dec_nat k) = 1 \<longleftrightarrow> k < 10" for k
    by (subst dec_nat.simps) simp
  show ?case
  proof (cases "n < 10")
    case True
    with one [of n] one [of m] 1(2) have "m < 10" by simp
    with True 1(2) show ?thesis by (simp add: dec_nat.simps [of n] dec_nat.simps [of m])
  next
    case False
    with one [of n] one [of m] 1(2) have "\<not> m < 10" by simp
    with False 1 have "n div 10 = m div 10" "n mod 10 = m mod 10"
      by (simp_all add: dec_nat.simps [of n] dec_nat.simps [of m])
    then show ?thesis by (metis div_mult_mod_eq)
  qed
qed

lemma itoa_inject [simp]: "itoa i = itoa j \<longleftrightarrow> i = j"
proof
  assume e: "itoa i = itoa j"
  have "hd (dec_nat n) \<noteq> CHR ''-''" for n by (rule hd_dec_nat_no_sign)
  then have "dec_nat n \<noteq> CHR ''-'' # s" for n s by (metis list.sel(1))
  with e dec_nat_inject [of "nat (- i)" "nat (- j)"] dec_nat_inject [of "nat i" "nat j"]
  show "i = j" by (auto simp: itoa_def split: if_splits) (metis)+
qed simp

lemma parse_int_range: "parse_int base s = Inr i \<Longrightarrow> - (2 ^ 63) \<le> i \<and> i < 2 ^ 63"
  by (auto simp: parse_int_def Let_def split: if_splits sum.splits)

end
