(* ===== verification/GoJson.thy ===== *)
theory GoJson
  imports GoStrings
begin

text \<open>
  What the program uses of Go's \<open>encoding/json\<close>: JSON values, the compact printer with its
  HTML-safe string escapes (\<open>json.Marshal\<close>, \<open>Encoder.Encode\<close>), the parser, and the
  rules by which a value is decoded into Go data (\<open>json.Unmarshal\<close>, \<open>Decoder.Decode\<close>):
  \<open>null\<close> leaves a field as it is, unknown keys are skipped, keys match up to case, the last
  duplicate wins. A number is kept as its literal. The parser recurses under fuel, and
  \<open>parse_value_fuel\<close> shows that the fuel given is enough for every input.
\<close>

datatype json =
    JNull
  | JBool bool
  | JNum string
  | JStr string
  | JArr "json list"
  | JObj "(string \<times> json) list"

subsection \<open>Printing\<close>

definition hex_digit :: "nat \<Rightarrow> char" where
  "hex_digit n = (if n < 10 then char_of (48 + n) else char_of (87 + n))"

text \<open>The bytes one rune of a string is written as.\<close>

definition esc_rune :: "nat \<times> string \<Rightarrow> string" where
  "esc_rune x =
     (case x of (r, b) \<Rightarrow>
        if r = 34 then [CHR 0x5C, CHR 0x22]
        else if r = 92 then [CHR 0x5C, CHR 0x5C]
        else if r = 8 then [CHR 0x5C, CHR ''b'']
        else if r = 12 then [CHR 0x5C, CHR ''f'']
        else if r = 10 then [CHR 0x5C, CHR ''n'']
        else if r = 13 then [CHR 0x5C, CHR ''r'']
        else if r = 9 then [CHR 0x5C, CHR ''t'']
        else if r < 32 \<or> r = 60 \<or> r = 62 \<or> r = 38
        then [CHR 0x5C, CHR ''u'', CHR ''0'', CHR ''0'', hex_digit (r div 16), hex_digit (r mod 16)]
        else if r = rune_error \<and> length b = 1 then CHR 0x5C # ''ufffd''
        else if r = 8232 then CHR 0x5C # ''u2028''
        else if r = 8233 then CHR 0x5C # ''u2029''
        else b)"

definition esc_body :: "string \<Rightarrow> string" where
  "esc_body s = concat (map esc_rune (segments s))"

definition print_string :: "string \<Rightarrow> string" where
  "print_string s = CHR 0x22 # esc_body s @ [CHR 0x22]"

fun print_json :: "json \<Rightarrow> string"
  and print_elems :: "json list \<Rightarrow> string"
  and print_members :: "(string \<times> json) list \<Rightarrow> string"
where
  "print_json JNull = ''null''"
| "print_json (JBool b) = (if b then ''true'' else ''false'')"
| "print_json (JNum l) = l"
| "print_json (JStr s) = print_string s"
| "print_json (JArr js) = CHR ''['' # print_elems js @ '']''"
| "print_json (JObj kvs) = CHR ''{'' # print_members kvs @ ''}''"
| "print_elems [] = []"
| "print_elems (j # js) = print_json j @ (if js = [] then [] else CHR '','' # print_elems js)"
| "print_members [] = []"
| "print_members ((k, v) # kvs) =
     print_string k @ CHR '':'' # print_json v @ (if kvs = [] then [] else CHR '','' # print_members kvs)"

subsection \<open>Parsing strings\<close>

definition hex_val :: "char \<Rightarrow> nat option" where
  "hex_val c =
     (if 48 \<le> byte c \<and> byte c \<le> 57 then Some (byte c - 48)
      else if 97 \<le> byte c \<and> byte c \<le> 102 then Some (byte c - 87)
      else if 65 \<le> byte c \<and> byte c \<le> 70 then Some (byte c - 55)
      else None)"

text \<open>The four hexadecimal digits after \<open>\u\<close>.\<close>

fun hex4 :: "string \<Rightarrow> (nat \<times> string) option" where
  "hex4 (a # b # c # d # s) =
     (case (hex_val a, hex_val b, hex_val c, hex_val d) of
        (Some a, Some b, Some c, Some d) \<Rightarrow> Some (a * 4096 + b * 256 + c * 16 + d, s)
      | _ \<Rightarrow> None)"
| "hex4 _ = None"

lemma hex4_shorter: "hex4 s = Some (r, s') \<Longrightarrow> length s = length s' + 4"
  by (cases s rule: hex4.cases) (auto split: option.splits)

text \<open>The rune of a \<open>\u\<close> escape, a surrogate pair being one rune, and what follows it.\<close>

definition unescape_u :: "string \<Rightarrow> (nat \<times> string) option" where
  "unescape_u s =
     (case hex4 s of
        None \<Rightarrow> None
      | Some (r, s1) \<Rightarrow>
          if 55296 \<le> r \<and> r < 57344
          then (case s1 of
             c0 # c1 # s2 \<Rightarrow>
               (case (if c0 = CHR 0x5C \<and> c1 = CHR ''u'' then hex4 s2 else None) of
                  Some (r2, s3) \<Rightarrow>
                    if r < 56320 \<and> 56320 \<le> r2 \<and> r2 < 57344
                    then Some ((r - 55296) * 1024 + (r2 - 56320) + 65536, s3)
                    else Some (rune_error, s1)
                | None \<Rightarrow> Some (rune_error, s1))
           | _ \<Rightarrow> Some (rune_error, s1))
          else Some (r, s1))"

lemma unescape_u_shorter: "unescape_u s = Some (r, s') \<Longrightarrow> length s' < length s"
  by (auto simp: unescape_u_def split: option.splits list.splits if_splits dest!: hex4_shorter)

definition simple_escape :: "char \<Rightarrow> char option" where
  "simple_escape e =
     (if e = CHR 0x22 \<or> e = CHR 0x5C \<or> e = CHR ''/'' then Some e
      else if e = CHR ''b'' then Some (CHR 0x08)
      else if e = CHR ''f'' then Some (CHR 0x0C)
      else if e = CHR ''n'' then Some (CHR 0x0A)
      else if e = CHR ''r'' then Some (CHR 0x0D)
      else if e = CHR ''t'' then Some (CHR 0x09)
      else None)"

text \<open>The rest of a string after its opening quote: its decoded bytes and what follows.\<close>

function parse_str :: "string \<Rightarrow> (string \<times> string) option" where
  "parse_str s =
     (case s of
        [] \<Rightarrow> None
      | c # cs \<Rightarrow>
          if c = CHR 0x22 then Some ([], cs)
          else if byte c < 32 then None
          else if c = CHR 0x5C
          then (case cs of
             [] \<Rightarrow> None
           | e # es \<Rightarrow>
               if e = CHR ''u''
               then (case unescape_u es of
                       None \<Rightarrow> None
                     | Some (r, s') \<Rightarrow> map_option (apfst ((@) (encode_rune r))) (parse_str s'))
               else (case simple_escape e of
                       None \<Rightarrow> None
                     | Some d \<Rightarrow> map_option (apfst ((#) d)) (parse_str es)))
          else if byte c < 128 then map_option (apfst ((#) c)) (parse_str cs)
          else (case decode_rune s of
                  (r, w) \<Rightarrow> map_option (apfst ((@) (encode_rune r))) (parse_str (drop w s))))"
  by pat_completeness auto
termination
  by (relation "measure length")
     (auto dest: unescape_u_shorter decode_rune_width_pos [OF sym] simp del: decode_rune.simps)

declare parse_str.simps [simp del]

lemma parse_str_Cons:
  "parse_str (c # cs) =
     (if c = CHR 0x22 then Some ([], cs)
      else if byte c < 32 then None
      else if c = CHR 0x5C
      then (case cs of
         [] \<Rightarrow> None
       | e # es \<Rightarrow>
           if e = CHR ''u''
           then (case unescape_u es of
                   None \<Rightarrow> None
                 | Some (r, s') \<Rightarrow> map_option (apfst ((@) (encode_rune r))) (parse_str s'))
           else (case simple_escape e of
                   None \<Rightarrow> None
                 | Some d \<Rightarrow> map_option (apfst ((#) d)) (parse_str es)))
      else if byte c < 128 then map_option (apfst ((#) c)) (parse_str cs)
      else (case decode_rune (c # cs) of
              (r, w) \<Rightarrow> map_option (apfst ((@) (encode_rune r))) (parse_str (drop w (c # cs)))))"
  by (subst parse_str.simps) simp

lemma parse_str_Nil [simp]: "parse_str [] = None"
  by (simp add: parse_str.simps)

lemma parse_str_step:
  assumes "parse_str s = Some (t, s')"
  shows "s = CHR 0x22 # s' \<or> (\<exists>u t'. length u < length s \<and> parse_str u = Some (t', s'))"
proof (cases s)
  case Nil
  with assms show ?thesis by simp
next
  case (Cons c cs)
  have "length (drop w (c # cs)) < length (c # cs)" if "decode_rune (c # cs) = (r, w)" for r w
    using decode_rune_width_pos [OF that] by simp
  then show ?thesis
    using assms unfolding Cons parse_str_Cons
    by (fastforce split: if_splits list.splits option.splits prod.splits
        simp del: decode_rune.simps dest: unescape_u_shorter)
qed

lemma parse_str_shorter: "parse_str s = Some (t, s') \<Longrightarrow> length s' < length s"
proof (induction s arbitrary: t rule: length_induct)
  case (1 s)
  from parse_str_step [OF "1.prems"] show ?case
    by (elim disjE exE conjE) (use "1.IH" in \<open>auto intro: less_trans\<close>)
qed

lemma hex_val_digit [simp]: "n < 16 \<Longrightarrow> hex_val (hex_digit n) = Some n"
  by (simp add: hex_val_def hex_digit_def)

lemma char_of_eqD: "char_of n = c \<Longrightarrow> n < 256 \<Longrightarrow> n = byte c"
  by (auto dest: arg_cong [of _ _ byte])

lemma parse_str_u:
  assumes "unescape_u es = Some (r, t)" and "parse_str t = Some (u, rest)"
  shows "parse_str (CHR 0x5C # CHR ''u'' # es) = Some (encode_rune r @ u, rest)"
  using assms by (simp add: parse_str_Cons)

lemma unescape_u_ascii:
  "n < 128 \<Longrightarrow>
     unescape_u (CHR ''0'' # CHR ''0'' # hex_digit (n div 16) # hex_digit (n mod 16) # t) = Some (n, t)"
  by (simp add: unescape_u_def hex_val_def [of "CHR ''0''"])

lemma byte_control:
  "byte c = 8 \<longleftrightarrow> c = CHR 0x08" "byte c = 9 \<longleftrightarrow> c = CHR 0x09" "byte c = 10 \<longleftrightarrow> c = CHR 0x0A"
  "byte c = 12 \<longleftrightarrow> c = CHR 0x0C" "byte c = 13 \<longleftrightarrow> c = CHR 0x0D" "byte c = 34 \<longleftrightarrow> c = CHR 0x22"
  "byte c = 92 \<longleftrightarrow> c = CHR 0x5C"
  using of_char_eq_iff [of c "CHR 0x08"] of_char_eq_iff [of c "CHR 0x09"]
    of_char_eq_iff [of c "CHR 0x0A"] of_char_eq_iff [of c "CHR 0x0C"]
    of_char_eq_iff [of c "CHR 0x0D"] of_char_eq_iff [of c "CHR 0x22"]
    of_char_eq_iff [of c "CHR 0x5C"]
  by simp_all

lemma esc_rune_multi:
  "128 \<le> r \<Longrightarrow> esc_rune (r, b) =
     (if r = rune_error \<and> length b = 1 then CHR 0x5C # ''ufffd''
      else if r = 8232 then CHR 0x5C # ''u2028''
      else if r = 8233 then CHR 0x5C # ''u2029''
      else b)"
  by (simp add: esc_rune_def)

lemma parse_str_esc_rune:
  assumes "decode_rune s = (r, w)" and "s \<noteq> []" and "parse_str t = Some (u, rest)"
  shows "parse_str (esc_rune (r, take w s) @ t) = Some (encode_rune r @ u, rest)"
  using assms(1,2)
proof (cases rule: decode_rune_cases)
  case (ascii c cs)
  then show ?thesis
    using assms(3)
    by (auto simp: esc_rune_def parse_str_Cons simple_escape_def unescape_u_ascii byte_control)
next
  case multi
  have eq: "take w s @ t = hd s # tl (take w s) @ t"
    using assms(1,2) decode_rune_width_pos [OF assms(1,2)] by (cases s; cases w) auto
  have v: "valid_rune r" using decode_rune_valid [of s] assms(1) by simp
  have "decode_rune (take w s @ t) = (r, w)"
    using decode_rune_encode [OF v, of t] multi decode_rune_width_pos [OF assms(1,2)] by simp
  then have plain: "parse_str (take w s @ t) = Some (encode_rune r @ u, rest)"
    using multi(3) assms(3) decode_rune_width_pos [OF assms(1,2)] unfolding eq parse_str_Cons
    by (auto simp del: decode_rune.simps simp flip: eq)
  have esc: "parse_str (CHR 0x5C # CHR ''u'' # es @ t) = Some (encode_rune r @ u, rest)"
    if "unescape_u (es @ t) = Some (r, t)" for es
    using that assms(3) by (simp add: parse_str_Cons)
  show ?thesis
    using plain esc [of "''fffd''"] esc [of "''2028''"] esc [of "''2029''"] multi(1)
    by (auto simp: esc_rune_multi unescape_u_def hex_val_def)
next
  case invalid
  then have "length (take w s) = 1" using assms(2) by (cases s) auto
  with invalid show ?thesis
    using assms(3) by (simp add: esc_rune_multi parse_str_Cons unescape_u_def hex_val_def)
qed

text \<open>Parsing what the printer wrote gives the string with its invalid bytes replaced.\<close>

lemma parse_str_esc_body:
  "parse_str (esc_body s @ CHR 0x22 # rest) = Some (sanitise s, rest)"
proof (induction s rule: string_rune_induct)
  case Nil
  then show ?case by (simp add: esc_body_def parse_str_Cons sanitise_def)
next
  case (step s r w)
  let ?rest = "esc_body (drop w s) @ CHR 0x22 # rest"
  have body: "esc_body s = esc_rune (r, take w s) @ esc_body (drop w s)"
    using step by (simp add: esc_body_def segments_step)
  have san: "sanitise s = encode_rune r @ sanitise (drop w s)"
    using step by (simp add: sanitise_def decode_runes_step)
  have "parse_str (esc_rune (r, take w s) @ ?rest) = Some (encode_rune r @ sanitise (drop w s), rest)"
    using step by (intro parse_str_esc_rune) auto
  then show ?case by (simp add: body san)
qed

subsection \<open>Parsing values\<close>

definition is_digit :: "char \<Rightarrow> bool" where
  "is_digit c \<longleftrightarrow> 48 \<le> byte c \<and> byte c \<le> 57"

definition json_ws :: "char \<Rightarrow> bool" where
  "json_ws c \<longleftrightarrow> c = CHR '' '' \<or> c = CHR 0x09 \<or> c = CHR 0x0A \<or> c = CHR 0x0D"

definition skip_ws :: "string \<Rightarrow> string" where
  "skip_ws s = dropWhile json_ws s"

text \<open>One or more digits.\<close>

definition digits1 :: "string \<Rightarrow> (string \<times> string) option" where
  "digits1 s = (if takeWhile is_digit s = [] then None
                else Some (takeWhile is_digit s, dropWhile is_digit s))"

text \<open>The three parts of a number after its sign: integer, fraction, exponent.\<close>

definition num_int :: "string \<Rightarrow> (string \<times> string) option" where
  "num_int s =
     (case s of
        c # cs \<Rightarrow> if c = CHR ''0'' then Some ([c], cs) else digits1 s
      | [] \<Rightarrow> None)"

definition num_frac :: "string \<Rightarrow> (string \<times> string) option" where
  "num_frac s =
     (case s of
        c # cs \<Rightarrow> if c = CHR ''.'' then map_option (apfst ((#) c)) (digits1 cs) else Some ([], s)
      | [] \<Rightarrow> Some ([], []))"

definition num_exp :: "string \<Rightarrow> (string \<times> string) option" where
  "num_exp s =
     (case s of
        c # cs \<Rightarrow>
          if c = CHR ''e'' \<or> c = CHR ''E''
          then (case cs of
             d # ds \<Rightarrow>
               if d = CHR ''+'' \<or> d = CHR ''-''
               then map_option (apfst (\<lambda>x. c # d # x)) (digits1 ds)
               else map_option (apfst ((#) c)) (digits1 cs)
           | [] \<Rightarrow> None)
          else Some ([], s)
      | [] \<Rightarrow> Some ([], []))"

definition parse_num :: "string \<Rightarrow> (string \<times> string) option" where
  "parse_num s =
     (let (sign, s0) = (case s of c # cs \<Rightarrow> if c = CHR ''-'' then ([c], cs) else ([], s) | [] \<Rightarrow> ([], []))
      in case num_int s0 of
           None \<Rightarrow> None
         | Some (i, s1) \<Rightarrow>
             (case num_frac s1 of
                None \<Rightarrow> None
              | Some (f, s2) \<Rightarrow>
                  (case num_exp s2 of
                     None \<Rightarrow> None
                   | Some (e, s3) \<Rightarrow> Some (sign @ i @ f @ e, s3))))"

definition strip :: "string \<Rightarrow> string \<Rightarrow> string option" where
  "strip pre s = (if take (length pre) s = pre then Some (drop (length pre) s) else None)"

text \<open>
  The value at the front of a string and what follows it. The second argument is the
  nesting still allowed: Go's scanner refuses more than 10000 open brackets.
\<close>

fun parse_value :: "nat \<Rightarrow> nat \<Rightarrow> string \<Rightarrow> (json \<times> string) option"
  and parse_elems :: "nat \<Rightarrow> nat \<Rightarrow> string \<Rightarrow> (json list \<times> string) option"
  and parse_members :: "nat \<Rightarrow> nat \<Rightarrow> string \<Rightarrow> ((string \<times> json) list \<times> string) option"
where
  "parse_value 0 d s = None"
| "parse_value (Suc n) d s =
     (case skip_ws s of
        [] \<Rightarrow> None
      | c # cs \<Rightarrow>
          if c = CHR ''{''
          then (case d of
             0 \<Rightarrow> None
           | Suc d' \<Rightarrow>
               (case strip ''}'' (skip_ws cs) of
                  Some s' \<Rightarrow> Some (JObj [], s')
                | None \<Rightarrow> map_option (apfst JObj) (parse_members n d' cs)))
          else if c = CHR ''[''
          then (case d of
             0 \<Rightarrow> None
           | Suc d' \<Rightarrow>
               (case strip '']'' (skip_ws cs) of
                  Some s' \<Rightarrow> Some (JArr [], s')
                | None \<Rightarrow> map_option (apfst JArr) (parse_elems n d' cs)))
          else if c = CHR 0x22 then map_option (apfst JStr) (parse_str cs)
          else if c = CHR ''n'' then map_option (\<lambda>s'. (JNull, s')) (strip ''ull'' cs)
          else if c = CHR ''t'' then map_option (\<lambda>s'. (JBool True, s')) (strip ''rue'' cs)
          else if c = CHR ''f'' then map_option (\<lambda>s'. (JBool False, s')) (strip ''alse'' cs)
          else map_option (apfst JNum) (parse_num (c # cs)))"
| "parse_elems 0 d s = None"
| "parse_elems (Suc n) d s =
     (case parse_value n d s of
        None \<Rightarrow> None
      | Some (j, s1) \<Rightarrow>
          (case skip_ws s1 of
             [] \<Rightarrow> None
           | c # s2 \<Rightarrow>
               if c = CHR '','' then map_option (apfst ((#) j)) (parse_elems n d s2)
               else if c = CHR '']'' then Some ([j], s2)
               else None))"
| "parse_members 0 d s = None"
| "parse_members (Suc n) d s =
     (case strip [CHR 0x22] (skip_ws s) of
        None \<Rightarrow> None
      | Some s0 \<Rightarrow>
          (case parse_str s0 of
             None \<Rightarrow> None
           | Some (k, s1) \<Rightarrow>
               (case strip '':'' (skip_ws s1) of
                  None \<Rightarrow> None
                | Some s2 \<Rightarrow>
                    (case parse_value n d s2 of
                       None \<Rightarrow> None
                     | Some (v, s3) \<Rightarrow>
                         (case skip_ws s3 of
                            [] \<Rightarrow> None
                          | c # s4 \<Rightarrow>
                              if c = CHR '','' then map_option (apfst ((#) (k, v))) (parse_members n d s4)
                              else if c = CHR ''}'' then Some ([(k, v)], s4)
                              else None)))))"

definition max_depth :: nat where
  "max_depth = 10000"

text \<open>The first value of a text (\<open>Decoder.Decode\<close>), and a text that is one value (\<open>Unmarshal\<close>).\<close>

definition parse_first :: "string \<Rightarrow> (json \<times> string) option" where
  "parse_first s = parse_value (Suc (2 * length s)) max_depth s"

definition parse_json :: "string \<Rightarrow> json option" where
  "parse_json s =
     (case parse_first s of
        Some (j, rest) \<Rightarrow> if skip_ws rest = [] then Some j else None
      | None \<Rightarrow> None)"

subsection \<open>The parser shortens its input, and its fuel is enough\<close>

lemma skip_ws_shorter: "length (skip_ws s) \<le> length s"
  by (simp add: skip_ws_def length_dropWhile_le)

lemma skip_ws_ConsD: "skip_ws s = c # cs \<Longrightarrow> length cs < length s"
  using skip_ws_shorter [of s] by simp

lemma strip_shorter: "strip pre s = Some s' \<Longrightarrow> length s' \<le> length s"
  by (auto simp: strip_def split: if_splits)

lemma strip_ws_shorter:
  assumes "strip pre (skip_ws s) = Some s'" and "pre \<noteq> []"
  shows "length s' < length s"
proof -
  have "length s' < length (skip_ws s) \<or> skip_ws s = []"
    using assms by (cases pre; cases "skip_ws s") (auto simp: strip_def split: if_splits)
  with assms skip_ws_shorter [of s] show ?thesis by (auto simp: strip_def split: if_splits)
qed

lemma digits1_shorter: "digits1 s = Some (t, s') \<Longrightarrow> length s' < length s"
proof -
  assume "digits1 s = Some (t, s')"
  then have "takeWhile is_digit s \<noteq> []" "s' = dropWhile is_digit s"
    by (auto simp: digits1_def split: if_splits)
  then show ?thesis
    using arg_cong [OF takeWhile_dropWhile_id [of is_digit s], of length]
    by (cases "takeWhile is_digit s") auto
qed

lemma num_int_shorter: "num_int s = Some (t, s') \<Longrightarrow> length s' < length s"
  by (auto simp: num_int_def split: list.splits if_splits dest: digits1_shorter)

lemma num_frac_shorter: "num_frac s = Some (t, s') \<Longrightarrow> length s' \<le> length s"
  by (auto simp: num_frac_def split: list.splits if_splits dest!: digits1_shorter)

lemma num_exp_shorter: "num_exp s = Some (t, s') \<Longrightarrow> length s' \<le> length s"
  by (auto simp: num_exp_def split: list.splits if_splits dest!: digits1_shorter)

lemma parse_num_shorter: "parse_num s = Some (t, s') \<Longrightarrow> length s' < length s"
  by (auto simp: parse_num_def split: list.splits if_splits option.splits prod.splits
      dest!: num_int_shorter num_frac_shorter num_exp_shorter)

lemma parse_shorter_all:
  "(\<forall>d s j s'. parse_value n d s = Some (j, s') \<longrightarrow> length s' < length s) \<and>
   (\<forall>d s js s'. parse_elems n d s = Some (js, s') \<longrightarrow> length s' < length s) \<and>
   (\<forall>d s kvs s'. parse_members n d s = Some (kvs, s') \<longrightarrow> length s' < length s)"
proof (induction n)
  case 0
  then show ?case by simp
next
  case (Suc n)
  then have V: "\<And>d s j s'. parse_value n d s = Some (j, s') \<Longrightarrow> length s' < length s"
    and E: "\<And>d s js s'. parse_elems n d s = Some (js, s') \<Longrightarrow> length s' < length s"
    and M: "\<And>d s kvs s'. parse_members n d s = Some (kvs, s') \<Longrightarrow> length s' < length s"
    by blast+
  note short = V E M parse_str_shorter parse_num_shorter strip_shorter skip_ws_ConsD
    strip_ws_shorter [OF _ list.distinct(2)]
  have "length s' < length s" if p: "parse_value (Suc n) d s = Some (j, s')" for d s j s'
  proof -
    obtain c cs where c: "skip_ws s = c # cs" using p by (cases "skip_ws s") auto
    have "length s' < length (c # cs)"
      using p by (auto simp: c split: if_splits nat.splits option.splits dest!: short)
    with skip_ws_ConsD [OF c] show ?thesis by simp
  qed
  moreover have "length s' < length s" if "parse_elems (Suc n) d s = Some (js, s')" for d s js s'
    using that by (auto split: if_splits option.splits list.splits dest!: short)
  moreover have "length s' < length s" if "parse_members (Suc n) d s = Some (kvs, s')" for d s kvs s'
    using that by (auto split: if_splits option.splits list.splits dest!: short)
  ultimately show ?case by blast
qed

lemma parse_shorter:
  "parse_value n d s = Some (j, s') \<Longrightarrow> length s' < length s"
  "parse_elems n d s = Some (js, s') \<Longrightarrow> length s' < length s"
  "parse_members n d s = Some (kvs, s') \<Longrightarrow> length s' < length s"
  using parse_shorter_all by blast+

declare parse_value.simps [simp del] parse_elems.simps [simp del] parse_members.simps [simp del]

text \<open>With fuel above twice the length, one more unit changes nothing.\<close>

lemma parse_fuel_all:
  "(\<forall>d s. 2 * length s < n \<longrightarrow> parse_value (Suc n) d s = parse_value n d s) \<and>
   (\<forall>d s. Suc (2 * length s) < n \<longrightarrow> parse_elems (Suc n) d s = parse_elems n d s) \<and>
   (\<forall>d s. Suc (2 * length s) < n \<longrightarrow> parse_members (Suc n) d s = parse_members n d s)"
proof (induction n)
  case 0
  then show ?case by simp
next
  case (Suc n)
  then have V: "\<And>d s. 2 * length s < n \<Longrightarrow> parse_value (Suc n) d s = parse_value n d s"
    and E: "\<And>d s. Suc (2 * length s) < n \<Longrightarrow> parse_elems (Suc n) d s = parse_elems n d s"
    and M: "\<And>d s. Suc (2 * length s) < n \<Longrightarrow> parse_members (Suc n) d s = parse_members n d s"
    by blast+
  have "parse_value (Suc (Suc n)) d s = parse_value (Suc n) d s" if l: "2 * length s < Suc n" for d s
  proof (cases "skip_ws s")
    case (Cons c cs)
    with l have "Suc (2 * length cs) < n" using skip_ws_ConsD [OF Cons] by simp
    then have "parse_elems (Suc n) d' cs = parse_elems n d' cs"
      "parse_members (Suc n) d' cs = parse_members n d' cs" for d' by (simp_all only: E M)
    with Cons show ?thesis
      by (simp add: parse_value.simps(2) [of "Suc n"] parse_value.simps(2) [of n] split: nat.split option.split)
  qed (simp add: parse_value.simps)
  moreover have "parse_elems (Suc (Suc n)) d s = parse_elems (Suc n) d s"
    if l: "Suc (2 * length s) < Suc n" for d s
  proof -
    have v: "parse_value (Suc n) d s = parse_value n d s" by (rule V) (use l in simp)
    have ee: "parse_elems (Suc n) d s2 = parse_elems n d s2"
      if "parse_value n d s = Some (j, s1)" and "skip_ws s1 = c # s2" for j s1 c s2
      using parse_shorter(1) [OF that(1)] skip_ws_ConsD [OF that(2)] l by (intro E) simp
    show ?thesis
      unfolding parse_elems.simps(2) [of "Suc n" d s] parse_elems.simps(2) [of n d s] v
      using ee by (auto split: option.split list.split)
  qed
  moreover have "parse_members (Suc (Suc n)) d s = parse_members (Suc n) d s"
    if l: "Suc (2 * length s) < Suc n" for d s
  proof -
    have s2: "2 * length s2 < n"
      if "strip [CHR 0x22] (skip_ws s) = Some s0" and "parse_str s0 = Some (k, s1)"
        and "strip '':'' (skip_ws s1) = Some s2" for s0 k s1 s2
      using strip_ws_shorter [OF that(1)] strip_ws_shorter [OF that(3)]
        parse_str_shorter [OF that(2)] l by simp
    have mm: "parse_members (Suc n) d s4 = parse_members n d s4"
      if "2 * length s2 < n" and "parse_value n d s2 = Some (v, s3)" and "skip_ws s3 = c # s4"
      for s2 v s3 c s4
      using parse_shorter(1) [OF that(2)] skip_ws_ConsD [OF that(3)] that(1) by (intro M) simp
    show ?thesis
      unfolding parse_members.simps(2) [of "Suc n" d s] parse_members.simps(2) [of n d s]
      using s2 V mm by (fastforce split: option.split list.split)
  qed
  ultimately show ?case by blast
qed

theorem parse_value_fuel:
  "2 * length s < n \<Longrightarrow> parse_value n d s = parse_value (Suc (2 * length s)) d s"
proof (induction "n - Suc (2 * length s)" arbitrary: n)
  case 0
  then have "n = Suc (2 * length s)" by simp
  then show ?case by simp
next
  case (Suc m)
  then obtain n' where n: "n = Suc n'" and "2 * length s < n'" by (cases n) auto
  with Suc show ?case using parse_fuel_all [of n'] by auto
qed

subsection \<open>Parsing inverts printing\<close>

text \<open>An integer literal as \<open>strconv\<close> prints it.\<close>

definition int_literal :: "string \<Rightarrow> bool" where
  "int_literal l \<longleftrightarrow> (case parse_int 10 l of Inr i \<Rightarrow> l = itoa i | Inl _ \<Rightarrow> False)"

fun wf_json :: "json \<Rightarrow> bool" where
  "wf_json (JNum l) = int_literal l"
| "wf_json (JArr js) = (\<forall>j \<in> set js. wf_json j)"
| "wf_json (JObj kvs) = (\<forall>kv \<in> set kvs. wf_json (snd kv))"
| "wf_json _ = True"

fun json_depth :: "json \<Rightarrow> nat" where
  "json_depth (JArr js) = Suc (Max (insert 0 (set (map json_depth js))))"
| "json_depth (JObj kvs) = Suc (Max (insert 0 (set (map (json_depth \<circ> snd) kvs))))"
| "json_depth _ = 0"

text \<open>What a printed value comes back as: its strings with invalid bytes replaced.\<close>

fun san_json :: "json \<Rightarrow> json" where
  "san_json (JStr s) = JStr (sanitise s)"
| "san_json (JArr js) = JArr (map san_json js)"
| "san_json (JObj kvs) = JObj (map (\<lambda>(k, v). (sanitise k, san_json v)) kvs)"
| "san_json j = j"

definition stops_num :: "string \<Rightarrow> bool" where
  "stops_num s \<longleftrightarrow>
     (case s of [] \<Rightarrow> True
      | c # _ \<Rightarrow> \<not> is_digit c \<and> c \<noteq> CHR ''.'' \<and> c \<noteq> CHR ''e'' \<and> c \<noteq> CHR ''E'')"

lemma takeWhile_digits:
  "stops_num rest \<Longrightarrow> takeWhile is_digit (dec_nat n @ rest) = dec_nat n"
  "stops_num rest \<Longrightarrow> dropWhile is_digit (dec_nat n @ rest) = rest"
  using dec_nat_digits [of _ n]
  by (auto simp: takeWhile_append dropWhile_append is_digit_def stops_num_def split: list.splits)

lemma dec_nat_zero [simp]: "dec_nat 0 = ''0''"
  by (simp add: dec_nat.simps char_of_eq_iff)

lemma hd_dec_nat_pos: "0 < n \<Longrightarrow> hd (dec_nat n) \<noteq> CHR ''0''"
proof (induction n rule: dec_nat.induct)
  case (1 n)
  show ?case
  proof (cases "n < 10")
    case True
    with "1.prems" show ?thesis
      by (auto simp: dec_nat.simps [of n] dest: arg_cong [of _ _ byte])
  next
    case False
    with "1.IH" show ?thesis by (simp add: dec_nat.simps [of n])
  qed
qed

lemma num_int_dec:
  assumes "stops_num rest"
  shows "num_int (dec_nat n @ rest) = Some (dec_nat n, rest)"
proof (cases "n = 0")
  case True
  then show ?thesis by (simp add: num_int_def)
next
  case False
  then obtain c cs where "dec_nat n = c # cs" "c \<noteq> CHR ''0''"
    using hd_dec_nat_pos [of n] by (cases "dec_nat n") auto
  with takeWhile_digits [OF assms, of n] show ?thesis
    by (simp add: num_int_def digits1_def)
qed

lemma num_rest_stops:
  assumes "stops_num rest"
  shows "num_frac rest = Some ([], rest)" and "num_exp rest = Some ([], rest)"
  using assms by (auto simp: num_frac_def num_exp_def stops_num_def split: list.splits)

lemma parse_num_itoa:
  assumes "stops_num rest"
  shows "parse_num (itoa i @ rest) = Some (itoa i, rest)"
proof (cases "i < 0")
  case True
  with assms show ?thesis
    by (simp add: itoa_def parse_num_def num_int_dec num_rest_stops)
next
  case False
  obtain c cs where c: "dec_nat (nat i) = c # cs" "c \<noteq> CHR ''-''"
    using hd_dec_nat_no_sign(1) [of "nat i"] by (cases "dec_nat (nat i)") auto
  with False num_int_dec [OF assms, of "nat i"] show ?thesis
    by (simp add: itoa_def parse_num_def num_rest_stops assms)
qed

lemma fst_itoa_char: "\<exists>c cs. itoa i = c # cs \<and> (c = CHR ''-'' \<or> is_digit c)"
proof (cases "i < 0")
  case True
  then show ?thesis by (simp add: itoa_def)
next
  case False
  then show ?thesis using hd_dec_nat [of "nat i"]
    by (cases "dec_nat (nat i)") (auto simp: itoa_def is_digit_def)
qed

text \<open>How a printed value begins: never with white space or a closing bracket.\<close>

lemma print_json_first:
  assumes "wf_json j"
  shows "\<exists>c cs. print_json j = c # cs \<and> \<not> json_ws c \<and> c \<noteq> CHR '']''"
proof (cases j)
  case (JNum l)
  with assms obtain i where "l = itoa i"
    by (auto simp: int_literal_def split: sum.splits)
  moreover obtain c cs where "itoa i = c # cs" "c = CHR ''-'' \<or> is_digit c"
    using fst_itoa_char by blast
  ultimately show ?thesis using JNum by (auto simp: is_digit_def json_ws_def)
qed (simp_all add: json_ws_def print_string_def)

lemma skip_ws_first: "\<not> json_ws c \<Longrightarrow> skip_ws (c # s) = c # s"
  by (simp add: skip_ws_def)

lemma skip_ws_print: "wf_json j \<Longrightarrow> skip_ws (print_json j @ s) = print_json j @ s"
  using print_json_first [of j] by (auto simp: skip_ws_first)

lemma strip_print: "wf_json j \<Longrightarrow> strip '']'' (skip_ws (print_json j @ s)) = None"
  using print_json_first [of j] by (auto simp: skip_ws_first strip_def)

lemma parse_print_string:
  "parse_str (esc_body s @ CHR 0x22 # rest) = Some (sanitise s, rest)"
  by (rule parse_str_esc_body)

text \<open>The fuel a value needs; no more than the length of its text.\<close>

fun need :: "json \<Rightarrow> nat"
  and need_elems :: "json list \<Rightarrow> nat"
  and need_members :: "(string \<times> json) list \<Rightarrow> nat"
where
  "need (JArr js) = Suc (need_elems js)"
| "need (JObj kvs) = Suc (need_members kvs)"
| "need _ = 1"
| "need_elems [] = 0"
| "need_elems (j # js) = Suc (max (need j) (need_elems js))"
| "need_members [] = 0"
| "need_members ((k, v) # kvs) = Suc (max (need v) (need_members kvs))"

lemma need_bound:
  "wf_json j \<Longrightarrow> need j \<le> length (print_json j)"
  "\<forall>j \<in> set js. wf_json j \<Longrightarrow> need_elems js \<le> Suc (length (print_elems js))"
  "\<forall>kv \<in> set kvs. wf_json (snd kv) \<Longrightarrow> need_members kvs \<le> Suc (length (print_members kvs))"
proof (induction j and js and kvs rule: print_json_print_elems_print_members.induct)
  case (3 l)
  then show ?case using print_json_first [of "JNum l"] by auto
qed (auto simp: print_string_def)

lemma json_depth_Arr: "json_depth (JArr js) \<le> Suc d \<longleftrightarrow> (\<forall>j \<in> set js. json_depth j \<le> d)"
  by auto

lemma json_depth_Obj: "json_depth (JObj kvs) \<le> Suc d \<longleftrightarrow> (\<forall>kv \<in> set kvs. json_depth (snd kv) \<le> d)"
  by auto

declare json_depth.simps(1,2) [simp del]

lemma parse_print_all:
  "wf_json j \<Longrightarrow> json_depth j \<le> d \<Longrightarrow> need j \<le> n \<Longrightarrow> stops_num rest \<Longrightarrow>
     parse_value n d (print_json j @ rest) = Some (san_json j, rest)"
  "\<forall>j \<in> set js. wf_json j \<and> json_depth j \<le> d \<Longrightarrow> js \<noteq> [] \<Longrightarrow> need_elems js \<le> n \<Longrightarrow>
     parse_elems n d (print_elems js @ CHR '']'' # rest) = Some (map san_json js, rest)"
  "\<forall>kv \<in> set kvs. wf_json (snd kv) \<and> json_depth (snd kv) \<le> d \<Longrightarrow> kvs \<noteq> [] \<Longrightarrow>
     need_members kvs \<le> n \<Longrightarrow>
     parse_members n d (print_members kvs @ CHR ''}'' # rest)
       = Some (map (\<lambda>(k, v). (sanitise k, san_json v)) kvs, rest)"
proof (induction j and js and kvs arbitrary: n d rest and n d rest and n d rest
    rule: print_json_print_elems_print_members.induct)
  case 1
  then show ?case by (cases n) (auto simp: parse_value.simps skip_ws_first json_ws_def strip_def)
next
  case (2 b)
  then show ?case by (cases n) (auto simp: parse_value.simps skip_ws_first json_ws_def strip_def)
next
  case (3 l)
  then obtain i where l: "l = itoa i" by (auto simp: int_literal_def split: sum.splits)
  obtain c cs where c: "itoa i = c # cs" "c = CHR ''-'' \<or> is_digit c"
    using fst_itoa_char by blast
  obtain m where n: "n = Suc m" using 3 by (cases n) auto
  have "\<not> json_ws c" using c by (auto simp: is_digit_def json_ws_def)
  then have "skip_ws (itoa i @ rest) = c # cs @ rest"
    using c by (simp add: skip_ws_first)
  moreover have "parse_num (c # cs @ rest) = Some (itoa i, rest)"
    using parse_num_itoa [of rest i] 3 c by simp
  moreover have "c \<noteq> CHR ''{''" "c \<noteq> CHR ''[''" "c \<noteq> CHR 0x22" "c \<noteq> CHR ''n''" "c \<noteq> CHR ''t''"
    "c \<noteq> CHR ''f''" using c(2) by (auto simp: is_digit_def)
  ultimately show ?case by (simp add: l n parse_value.simps(2))
next
  case (4 s)
  then show ?case
    by (cases n) (auto simp: parse_value.simps skip_ws_first json_ws_def print_string_def parse_str_esc_body)
next
  case (5 js)
  obtain m e where n: "n = Suc m" "d = Suc e" using 5 by (cases n; cases d) (auto simp: json_depth.simps(1,2))
  show ?case
  proof (cases js)
    case Nil
    then show ?thesis
      by (simp add: n parse_value.simps skip_ws_first json_ws_def strip_def)
  next
    case (Cons j js')
    have "strip '']'' (skip_ws (print_elems js @ CHR '']'' # rest)) = None"
      using 5 Cons by (simp add: strip_print)
    with 5 Cons show ?thesis
      by (simp add: n parse_value.simps skip_ws_first json_ws_def json_depth_Arr del: print_elems.simps)
  qed
next
  case (6 kvs)
  obtain m e where n: "n = Suc m" "d = Suc e" using 6 by (cases n; cases d) (auto simp: json_depth.simps(1,2))
  show ?case
  proof (cases kvs)
    case Nil
    then show ?thesis
      by (simp add: n parse_value.simps skip_ws_first json_ws_def strip_def)
  next
    case (Cons kv kvs')
    have "strip ''}'' (skip_ws (print_members kvs @ CHR ''}'' # rest)) = None"
      using Cons by (cases kv) (simp add: strip_def print_string_def skip_ws_first json_ws_def)
    with 6 Cons show ?thesis
      by (simp add: n parse_value.simps skip_ws_first json_ws_def json_depth_Obj del: print_members.simps)
  qed
next
  case 7
  then show ?case by simp
next
  case (8 j js)
  obtain m where n: "n = Suc m" using 8 by (cases n) auto
  let ?tail = "if js = [] then CHR '']'' # rest else CHR '','' # print_elems js @ CHR '']'' # rest"
  have "parse_value m d (print_json j @ ?tail) = Some (san_json j, ?tail)"
    using 8 n by (intro "8.IH"(1)) (auto simp: stops_num_def is_digit_def)
  with 8 n show ?case
    by (auto simp: parse_elems.simps skip_ws_first json_ws_def)
next
  case 9
  then show ?case by simp
next
  case (10 k v kvs)
  obtain m where n: "n = Suc m" using 10 by (cases n) auto
  let ?tail = "if kvs = [] then CHR ''}'' # rest else CHR '','' # print_members kvs @ CHR ''}'' # rest"
  have "parse_value m d (print_json v @ ?tail) = Some (san_json v, ?tail)"
    using 10 n by (intro "10.IH"(1)) (auto simp: stops_num_def is_digit_def)
  with 10 n show ?case
    by (auto simp: parse_members.simps skip_ws_first json_ws_def strip_def print_string_def
        parse_str_esc_body)
qed

theorem parse_print_json:
  assumes "wf_json j" and "json_depth j \<le> max_depth"
  shows "parse_json (print_json j) = Some (san_json j)"
proof -
  have "need j \<le> Suc (2 * length (print_json j))"
    using need_bound(1) [OF assms(1)] by simp
  then have "parse_value (Suc (2 * length (print_json j))) max_depth (print_json j @ []) = Some (san_json j, [])"
    using assms by (intro parse_print_all(1)) (simp_all add: stops_num_def)
  then show ?thesis by (simp add: parse_json_def parse_first_def skip_ws_def)
qed

end
