(* ===== verification/GoTime.thy ===== *)
theory GoTime
  imports GoStrings
begin

text \<open>
  What the program uses of Go's \<open>time\<close>: instants with a zone offset, the proleptic
  Gregorian calendar, the RFC 3339 layouts \<open>time.RFC3339\<close> and \<open>time.RFC3339Nano\<close>, and the
  strict RFC 3339 parser behind \<open>Time.UnmarshalJSON\<close>. Of a location only its offset
  at the instant is kept, since that is all the layouts print. The lenient layout parser
  that \<open>UnmarshalJSON\<close> falls back to on texts no RFC 3339 printer writes is not modelled.
\<close>

record go_time =
  unix_sec :: int    \<comment> \<open>seconds since 1970-01-01T00:00:00Z\<close>
  nanos :: int       \<comment> \<open>0 to 999999999\<close>
  zone_off :: int    \<comment> \<open>seconds east of UTC\<close>

text \<open>The zero \<open>time.Time\<close>: January 1, year 1, 00:00:00 UTC.\<close>

definition zero_time :: go_time where
  "zero_time = \<lparr>unix_sec = -62135596800, nanos = 0, zone_off = 0\<rparr>"

subsection \<open>Days and civil dates\<close>

definition civil_of_days :: "int \<Rightarrow> int \<times> int \<times> int" where
  "civil_of_days days =
     (let z = days + 719468;
          era = z div 146097;
          doe = z mod 146097;
          yoe = (doe - doe div 1460 + doe div 36524 - doe div 146096) div 365;
          doy = doe - (365 * yoe + yoe div 4 - yoe div 100);
          mp = (5 * doy + 2) div 153;
          d = doy - (153 * mp + 2) div 5 + 1;
          m = (if mp < 10 then mp + 3 else mp - 9)
      in (yoe + era * 400 + (if m \<le> 2 then 1 else 0), m, d))"

definition days_of_civil :: "int \<Rightarrow> int \<Rightarrow> int \<Rightarrow> int" where
  "days_of_civil y m d =
     (let y' = (if m \<le> 2 then y - 1 else y);
          era = y' div 400;
          yoe = y' mod 400;
          mp = (if 2 < m then m - 3 else m + 9);
          doy = (153 * mp + 2) div 5 + d - 1;
          doe = yoe * 365 + yoe div 4 - yoe div 100 + doy
      in era * 146097 + doe - 719468)"

definition leap_year :: "int \<Rightarrow> bool" where
  "leap_year y \<longleftrightarrow> y mod 4 = 0 \<and> (y mod 100 \<noteq> 0 \<or> y mod 400 = 0)"

definition days_in :: "int \<Rightarrow> int \<Rightarrow> int" where
  "days_in m y =
     (if m = 2 then (if leap_year y then 29 else 28)
      else if m \<in> {4, 6, 9, 11} then 30 else 31)"

subsection \<open>Layouts\<close>

text \<open>\<open>appendInt\<close>: decimal, padded with zeros to a width, the sign before the padding.\<close>

definition pad_nat :: "nat \<Rightarrow> nat \<Rightarrow> string" where
  "pad_nat w n = replicate (w - length (dec_nat n)) (CHR ''0'') @ dec_nat n"

definition append_int :: "nat \<Rightarrow> int \<Rightarrow> string" where
  "append_int w i = (if i < 0 then CHR ''-'' # pad_nat w (nat (- i)) else pad_nat w (nat i))"

text \<open>The fraction of a second, trailing zeros trimmed; nothing for a whole second.\<close>

definition nano_suffix :: "int \<Rightarrow> string" where
  "nano_suffix n =
     (if n = 0 then []
      else CHR ''.'' # rev (dropWhile (\<lambda>c. c = CHR ''0'') (rev (pad_nat 9 (nat n)))))"

text \<open>Division rounds towards zero in Go.\<close>

definition zone_suffix :: "int \<Rightarrow> string" where
  "zone_suffix off =
     (if off = 0 then ''Z''
      else let zone = sgn off * (\<bar>off\<bar> div 60) in
        (if zone < 0 then CHR ''-'' else CHR ''+'')
          # pad_nat 2 (nat (\<bar>zone\<bar> div 60)) @ CHR '':'' # pad_nat 2 (nat (\<bar>zone\<bar> mod 60)))"

definition format_rfc3339 :: "bool \<Rightarrow> go_time \<Rightarrow> string" where
  "format_rfc3339 nano t =
     (let local = unix_sec t + zone_off t;
          (y, m, d) = civil_of_days (local div 86400);
          s = local mod 86400
      in append_int 4 y @ ''-'' @ append_int 2 m @ ''-'' @ append_int 2 d @ ''T''
         @ append_int 2 (s div 3600) @ '':'' @ append_int 2 (s mod 3600 div 60) @ '':''
         @ append_int 2 (s mod 60) @ (if nano then nano_suffix (nanos t) else [])
         @ zone_suffix (zone_off t))"

text \<open>
  \<open>Time.MarshalJSON\<close>: RFC 3339 has four-digit years and zone hours below 24 only, and
  anything else is an error.
\<close>

definition marshal_time :: "go_time \<Rightarrow> string option" where
  "marshal_time t =
     (let b = format_rfc3339 True t in
      if length b \<le> 4 \<or> b ! 4 \<noteq> CHR ''-'' then None
      else if 24 * 3600 \<le> \<bar>zone_off t\<bar> then None
      else Some b)"

text \<open>A decimal field of fixed width, within bounds.\<close>

definition dec_field :: "int \<Rightarrow> int \<Rightarrow> string \<Rightarrow> int option" where
  "dec_field lo hi s =
     (if list_all (\<lambda>c. 48 \<le> byte c \<and> byte c \<le> 57) s
      then let x = foldl (\<lambda>x c. x * 10 + (int (byte c) - 48)) 0 s in
        if lo \<le> x \<and> x \<le> hi then Some x else None
      else None)"

definition slice :: "nat \<Rightarrow> nat \<Rightarrow> string \<Rightarrow> string" where
  "slice i j s = take (j - i) (drop i s)"

definition parse_frac :: "string \<Rightarrow> int \<times> string" where
  "parse_frac s =
     (let ds = takeWhile (\<lambda>c. 48 \<le> byte c \<and> byte c \<le> 57) (tl s) in
      if s \<noteq> [] \<and> hd s = CHR ''.'' \<and> ds \<noteq> []
      then (case dec_field 0 999999999 (take 9 ds) of
              Some x \<Rightarrow> x * 10 ^ (9 - length (take 9 ds))
            | None \<Rightarrow> 0, drop (Suc (length ds)) s)
      else (0, s))"

definition parse_zone :: "string \<Rightarrow> int option" where
  "parse_zone s =
     (if s = ''Z'' then Some 0
      else if length s \<noteq> 6 then None
      else (case (dec_field 0 23 (slice 1 3 s), dec_field 0 59 (slice 4 6 s)) of
         (Some hr, Some mm) \<Rightarrow>
           if (s ! 0 = CHR ''-'' \<or> s ! 0 = CHR ''+'') \<and> s ! 3 = CHR '':''
           then Some ((if s ! 0 = CHR ''-'' then -1 else 1) * ((hr * 60 + mm) * 60))
           else None
       | _ \<Rightarrow> None))"

definition parse_rfc3339 :: "string \<Rightarrow> go_time option" where
  "parse_rfc3339 s =
     (if length s < 19 then None
      else (case (dec_field 0 9999 (slice 0 4 s), dec_field 1 12 (slice 5 7 s)) of
         (Some year, Some month) \<Rightarrow>
           (case (dec_field 1 (days_in month year) (slice 8 10 s), dec_field 0 23 (slice 11 13 s),
                  dec_field 0 59 (slice 14 16 s), dec_field 0 59 (slice 17 19 s)) of
              (Some day, Some hour, Some minute, Some sec) \<Rightarrow>
                if s ! 4 = CHR ''-'' \<and> s ! 7 = CHR ''-'' \<and> s ! 10 = CHR ''T''
                   \<and> s ! 13 = CHR '':'' \<and> s ! 16 = CHR '':''
                then (case parse_frac (drop 19 s) of
                   (nsec, z) \<Rightarrow>
                     map_option
                       (\<lambda>off. \<lparr>unix_sec = days_of_civil year month day * 86400 + hour * 3600
                                  + minute * 60 + sec - off,
                               nanos = nsec, zone_off = off\<rparr>)
                       (parse_zone z))
                else None
            | _ \<Rightarrow> None)
       | _ \<Rightarrow> None))"

subsection \<open>Printed times are ASCII\<close>

lemma ascii_pad_nat [simp]: "ascii (pad_nat w n)"
proof -
  have "ascii (replicate k (CHR ''0''))" for k by (induction k) simp_all
  then show ?thesis by (simp add: pad_nat_def)
qed

lemma ascii_append_int [simp]: "ascii (append_int w i)"
  by (simp add: append_int_def)

lemma ascii_nano_suffix [simp]: "ascii (nano_suffix n)"
proof -
  have "ascii (rev (dropWhile P (rev s)))" if "ascii s" for P and s :: string
    using that unfolding ascii_def list_all_iff by (auto dest: set_dropWhileD)
  then show ?thesis by (simp add: nano_suffix_def)
qed

lemma ascii_zone_suffix [simp]: "ascii (zone_suffix off)"
  by (simp add: zone_suffix_def Let_def)

lemma ascii_format_rfc3339 [simp]: "ascii (format_rfc3339 nano t)"
  by (simp add: format_rfc3339_def Let_def split: prod.split)

lemma ascii_marshal_time: "marshal_time t = Some b \<Longrightarrow> ascii b"
  by (auto simp: marshal_time_def Let_def split: if_splits)

end
