(* ===== verification/GoDecode.thy ===== *)
theory GoDecode
  imports GoJson GoTime
begin

text \<open>
  How \<open>encoding/json\<close> stores a parsed value into Go data. A decoder takes the value and
  the data as it is, and gives the data after: \<open>None\<close> is any decoding error. The callers
  in this program drop the data on an error, so what a failed decoding leaves behind is not
  kept. A slice is an optional list: \<open>None\<close> is the nil slice, which prints as \<open>null\<close>.
\<close>

type_synonym 'a decoder = "json \<Rightarrow> 'a \<Rightarrow> 'a option"

type_synonym 'a slice = "'a list option"

text \<open>Ranging over a slice: a nil slice has no elements.\<close>

fun elems :: "'a slice \<Rightarrow> 'a list" where
  "elems None = []"
| "elems (Some xs) = xs"

definition dec_string :: "string decoder" where
  "dec_string j old = (case j of JNull \<Rightarrow> Some old | JStr s \<Rightarrow> Some s | _ \<Rightarrow> None)"

text \<open>An \<open>int\<close> field takes a literal that fits in 64 bits.\<close>

definition dec_int :: "int decoder" where
  "dec_int j old =
     (case j of
        JNull \<Rightarrow> Some old
      | JNum l \<Rightarrow> (case parse_int 10 l of Inr i \<Rightarrow> Some i | Inl _ \<Rightarrow> None)
      | _ \<Rightarrow> None)"

definition dec_time :: "go_time decoder" where
  "dec_time j old = (case j of JNull \<Rightarrow> Some old | JStr s \<Rightarrow> parse_rfc3339 s | _ \<Rightarrow> None)"

text \<open>
  Elements are decoded over what the slice already held, so that a repeated key merges as
  Go's decoder does.
\<close>

fun dec_elems :: "'a decoder \<Rightarrow> 'a \<Rightarrow> 'a list \<Rightarrow> json list \<Rightarrow> 'a list option" where
  "dec_elems f zero olds [] = Some []"
| "dec_elems f zero olds (j # js) =
     (case f j (case olds of [] \<Rightarrow> zero | x # _ \<Rightarrow> x) of
        None \<Rightarrow> None
      | Some y \<Rightarrow> map_option ((#) y) (dec_elems f zero (tl olds) js))"

definition dec_slice :: "'a decoder \<Rightarrow> 'a \<Rightarrow> 'a slice decoder" where
  "dec_slice f zero j old =
     (case j of
        JNull \<Rightarrow> Some None
      | JArr js \<Rightarrow> map_option Some (dec_elems f zero (elems old) js)
      | _ \<Rightarrow> None)"

definition dec_ptr :: "'a decoder \<Rightarrow> 'a \<Rightarrow> 'a option decoder" where
  "dec_ptr f zero j old =
     (case j of
        JNull \<Rightarrow> Some None
      | _ \<Rightarrow> map_option Some (f j (case old of None \<Rightarrow> zero | Some x \<Rightarrow> x)))"

text \<open>\<open>foldName\<close>: letters up to case; \<open>U+017F\<close> folds to \<open>S\<close> and \<open>U+212A\<close> to \<open>K\<close>.\<close>

definition rune_fold :: "nat \<Rightarrow> nat" where
  "rune_fold r =
     (if 97 \<le> r \<and> r \<le> 122 then r - 32 else if r = 383 then 83 else if r = 8490 then 75 else r)"

definition key_fold :: "string \<Rightarrow> nat list" where
  "key_fold k = map rune_fold (decode_runes k)"

text \<open>The field a key names: an exact match, or else one up to case.\<close>

definition match_field :: "string list \<Rightarrow> string \<Rightarrow> string option" where
  "match_field names k =
     (if k \<in> set names then Some k else find (\<lambda>n. key_fold n = key_fold k) names)"

fun dec_fields ::
  "string list \<Rightarrow> (string \<Rightarrow> 'a decoder) \<Rightarrow> (string \<times> json) list \<Rightarrow> 'a \<Rightarrow> 'a option"
where
  "dec_fields names set_field [] v = Some v"
| "dec_fields names set_field ((k, j) # kvs) v =
     (case match_field names k of
        None \<Rightarrow> dec_fields names set_field kvs v
      | Some n \<Rightarrow>
          (case set_field n j v of
             None \<Rightarrow> None
           | Some v' \<Rightarrow> dec_fields names set_field kvs v'))"

definition dec_struct :: "string list \<Rightarrow> (string \<Rightarrow> 'a decoder) \<Rightarrow> 'a decoder" where
  "dec_struct names set_field j v =
     (case j of
        JNull \<Rightarrow> Some v
      | JObj kvs \<Rightarrow> dec_fields names set_field kvs v
      | _ \<Rightarrow> None)"

text \<open>
  A number decoded into an \<open>interface{}\<close> must be within the range of a \<open>float64\<close>: below
  the midpoint between the largest one and \<open>2^1024\<close>.
\<close>

definition float_bound :: nat where
  "float_bound = 2 ^ 1024 - 2 ^ 970"

definition float_in_range :: "string \<Rightarrow> bool" where
  "float_in_range l =
     (let s = (case l of c # cs \<Rightarrow> if c = CHR ''-'' then cs else l | [] \<Rightarrow> []);
          i = takeWhile is_digit s;
          s1 = dropWhile is_digit s;
          f = (case s1 of c # cs \<Rightarrow> if c = CHR ''.'' then takeWhile is_digit cs else [] | [] \<Rightarrow> []);
          s2 = (case s1 of c # cs \<Rightarrow> if c = CHR ''.'' then dropWhile is_digit cs else s1 | [] \<Rightarrow> []);
          m = foldl (\<lambda>x c. x * 10 + (byte c - 48)) 0 (i @ f);
          e0 = foldl (\<lambda>x c. x * 10 + (int (byte c) - 48)) 0 (filter is_digit s2);
          e = (if CHR ''-'' \<in> set s2 then - e0 else e0) - int (length f)
      in if 0 \<le> e then m * 10 ^ nat e < float_bound else m < float_bound * 10 ^ nat (- e))"

fun dec_any_ok :: "json \<Rightarrow> bool" where
  "dec_any_ok (JNum l) = float_in_range l"
| "dec_any_ok (JArr js) = (\<forall>j \<in> set js. dec_any_ok j)"
| "dec_any_ok (JObj kvs) = (\<forall>kv \<in> set kvs. dec_any_ok (snd kv))"
| "dec_any_ok _ = True"

text \<open>
  \<open>json.Unmarshal\<close> into zero data. The wording of the library's errors is an argument, a
  function of the text, and for \<open>Decoder.Decode\<close> of the reader, whose error it may be.
\<close>

definition unmarshal :: "(string \<Rightarrow> string) \<Rightarrow> 'a decoder \<Rightarrow> 'a \<Rightarrow> string \<Rightarrow> 'a res" where
  "unmarshal json_err f zero s =
     (case parse_json s of
        None \<Rightarrow> Err (json_err s)
      | Some j \<Rightarrow> of_option (json_err s) (f j zero))"

text \<open>
  A reader gives its bytes and then the end of the file (\<open>None\<close>) or an error. \<open>Decode\<close> takes the
  first value of what is left. An object or an array is complete with its bracket; any other
  value needs the byte after it or the end of the file, so an error there hides it.
\<close>

type_synonym reader = "string \<times> string option"

fun bracketed :: "json \<Rightarrow> bool" where
  "bracketed (JArr js) = True"
| "bracketed (JObj kvs) = True"
| "bracketed _ = False"

definition decode_value :: "reader \<Rightarrow> (json \<times> reader) option" where
  "decode_value r =
     (case parse_first (fst r) of
        None \<Rightarrow> None
      | Some (j, rest) \<Rightarrow>
          if rest = [] \<and> snd r \<noteq> None \<and> \<not> bracketed j then None else Some (j, rest, snd r))"

definition decode_first :: "(reader \<Rightarrow> string) \<Rightarrow> 'a decoder \<Rightarrow> 'a \<Rightarrow> reader \<Rightarrow> 'a res" where
  "decode_first decode_err f zero r =
     (case decode_value r of
        None \<Rightarrow> Err (decode_err r)
      | Some (j, _) \<Rightarrow> of_option (decode_err r) (f j zero))"

lemma unmarshal_not_Panic [simp]: "unmarshal json_err f zero s \<noteq> Panic p"
  by (simp add: unmarshal_def split: option.split)

lemma decode_first_not_Panic [simp]: "decode_first decode_err f zero r \<noteq> Panic p"
  by (simp add: decode_first_def split: option.split prod.split)

lemma unmarshal_ErrD: "unmarshal json_err f zero s = Err e \<Longrightarrow> e = json_err s"
  by (auto simp: unmarshal_def split: option.splits) (metis of_option.simps res.inject(2) res.distinct(1) not_None_eq)

subsection \<open>Decoding what was printed\<close>

named_theorems decode_simps "equations that decode the members of a printed object"

lemma match_field_exact [decode_simps]: "k \<in> set names \<Longrightarrow> match_field names k = Some k"
  by (simp add: match_field_def)

lemmas [decode_simps] = dec_struct_def dec_string_def dec_time_def

lemma dec_int_itoa [decode_simps]:
  "- (2 ^ 63) \<le> i \<Longrightarrow> i < 2 ^ 63 \<Longrightarrow> dec_int (JNum (itoa i)) old = Some i"
  using atoi_itoa [of i] by (simp add: dec_int_def atoi_def)

lemma int_literal_itoa [simp]:
  "- (2 ^ 63) \<le> i \<Longrightarrow> i < 2 ^ 63 \<Longrightarrow> int_literal (itoa i)"
  using atoi_itoa [of i] by (simp add: int_literal_def atoi_def)

lemma dec_elems_map [decode_simps]:
  "(\<And>x. x \<in> set xs \<Longrightarrow> f (g x) zero = Some (h x)) \<Longrightarrow>
     dec_elems f zero [] (map g xs) = Some (map h xs)"
  by (induction xs) auto

theorem unmarshal_print:
  assumes "wf_json j" and "json_depth j \<le> max_depth"
  shows "unmarshal json_err f zero (print_json j) =
    of_option (json_err (print_json j)) (f (san_json j) zero)"
  using parse_print_json [OF assms] by (simp add: unmarshal_def)

end
