(* ===== verification/GoTimeRound.thy ===== *)
theory GoTimeRound
  imports GoTime
begin

text \<open>
  A time printed as RFC 3339 and parsed again is the same time, for every time the layout can
  hold. The calendar is split into its cycles of 400, 100, 4 and 1 years, which reduces the
  formulas with divisions to linear arithmetic.
\<close>

subsection \<open>The calendar\<close>

text \<open>A day of the 400-year era, counted from March 1: its century, leap cycle, year, and day of the year.\<close>

lemma era_split:
  fixes doe :: int
  assumes "0 \<le> doe" and "doe < 146097"
  obtains c k j p where "doe = 36524 * c + 1461 * k + 365 * j + p"
    and "c \<in> {0..3}" and "k \<in> {0..24}" and "j \<in> {0..3}" and "p \<in> {0..365}"
    and "p = 365 \<longrightarrow> j = 3 \<and> (k = 24 \<longrightarrow> c = 3)"
proof -
  define c where "c = (if doe = 146096 then 3 else doe div 36524)"
  define r where "r = doe - 36524 * c"
  have c: "0 \<le> c" "c \<le> 3" and r: "0 \<le> r" "r < 36524 \<or> r = 36524 \<and> c = 3"
    using assms by (auto simp: c_def r_def split: if_splits)
  define k where "k = r div 1461"
  define s where "s = r mod 1461"
  have rks: "r = 1461 * k + s" and s: "0 \<le> s" "s \<le> 1460" by (simp_all add: k_def s_def)
  have k: "0 \<le> k" "k \<le> 24" using r rks s by auto
  define j where "j = (if s = 1460 then 3 else s div 365)"
  define p where "p = s - 365 * j"
  have j: "0 \<le> j" "j \<le> 3" and p: "0 \<le> p" "p < 365 \<or> p = 365 \<and> s = 1460 \<and> j = 3"
    using s by (auto simp: j_def p_def split: if_splits)
  show thesis
  proof (rule that [of c k j p])
    show "doe = 36524 * c + 1461 * k + 365 * j + p" using rks by (simp add: r_def p_def)
    show "p = 365 \<longrightarrow> j = 3 \<and> (k = 24 \<longrightarrow> c = 3)"
      using p r rks by auto
  qed (use c k j p in auto)
qed

text \<open>The year of the era and the day of the year, by the formula of \<open>civil_of_days\<close>.\<close>

lemma year_of_era:
  fixes doe :: int
  assumes d: "doe = 36524 * c + 1461 * k + 365 * j + p"
    and b: "c \<in> {0..3}" "k \<in> {0..24}" "j \<in> {0..3}" "p \<in> {0..365}"
    and leap: "p = 365 \<longrightarrow> j = 3 \<and> (k = 24 \<longrightarrow> c = 3)"
  shows "(doe - doe div 1460 + doe div 36524 - doe div 146096) div 365 = 100 * c + 4 * k + j"
proof -
  from b have b: "0 \<le> c" "c \<le> 3" "0 \<le> k" "k \<le> 24" "0 \<le> j" "j \<le> 3" "0 \<le> p" "p \<le> 365" by auto
  define u where "u = 24 * c + k + 365 * j + p"
  define q where "q = (if u < 1460 then 0 else 1 :: int)"
  have p: "p < 365 \<or> j = 3" using b(8) leap by linarith
  have u: "0 \<le> u - 1460 * q \<and> u - 1460 * q < 1460 \<and> 0 \<le> p - q \<and> p - q < 365"
  proof (cases "u < 1460")
    case True
    then have "p < 365" using p b by (simp add: u_def) linarith
    with True b show ?thesis by (simp add: q_def u_def)
  next
    case False
    then have "0 < p" "u < 2920" using b by (simp_all add: u_def)
    with False b show ?thesis by (simp add: q_def)
  qed
  have q: "doe div 1460 = 25 * c + k + q"
    by (rule int_div_pos_eq [where r = "u - 1460 * q"]) (use d u in \<open>simp_all add: u_def\<close>)
  have h: "doe div 36524 - doe div 146096 = c"
  proof (cases "p = 365 \<and> k = 24")
    case True
    with leap have "c = 3" "j = 3" by auto
    with d True show ?thesis by simp
  next
    case False
    have lt: "0 \<le> 1461 * k + 365 * j + p" "1461 * k + 365 * j + p < 36524" using b leap False by auto
    have "doe div 36524 = c"
      by (rule int_div_pos_eq [where r = "1461 * k + 365 * j + p"]) (use d lt in auto)
    moreover have "doe div 146096 = 0" using d lt b by (intro div_pos_pos_trivial) auto
    ultimately show ?thesis by simp
  qed
  have "e = 25 * c + k + q \<Longrightarrow> f - g = c \<Longrightarrow> doe - e + f - g = 365 * (100 * c + 4 * k + j) + (p - q)" for e f g
    by (simp add: d)
  from this [OF q h]
  have "doe - doe div 1460 + doe div 36524 - doe div 146096 = 365 * (100 * c + 4 * k + j) + (p - q)" .
  then show ?thesis by (rule int_div_pos_eq) (use u in simp_all)
qed

lemma day_of_year:
  fixes c k j p :: int
  assumes "c \<in> {0..3}" "k \<in> {0..24}" "j \<in> {0..3}"
  shows "365 * (100 * c + 4 * k + j) + (100 * c + 4 * k + j) div 4 - (100 * c + 4 * k + j) div 100
    = 36524 * c + 1461 * k + 365 * j"
proof -
  from assms have b: "0 \<le> k" "k \<le> 24" "0 \<le> j" "j \<le> 3" by auto
  have "(100 * c + 4 * k + j) div 4 = 25 * c + k"
    using b by (intro int_div_pos_eq [of _ _ _ j]) auto
  moreover have "(100 * c + 4 * k + j) div 100 = c"
    using b by (intro int_div_pos_eq [of _ _ _ "4 * k + j"]) auto
  ultimately show ?thesis by simp
qed

text \<open>The month of a day of the year that starts in March, and the day of the month.\<close>

lemma month_day:
  fixes p :: int
  defines "mp \<equiv> (5 * p + 2) div 153"
  defines "m \<equiv> (if mp < 10 then mp + 3 else mp - 9)"
  assumes "0 \<le> p" and "p \<le> 365"
  shows "m \<in> {1..12}" and "(if 2 < m then m - 3 else m + 9) = mp" and "m \<le> 2 \<longleftrightarrow> 10 \<le> mp"
    and "1 \<le> p - (153 * mp + 2) div 5 + 1"
    and "p - (153 * mp + 2) div 5 + 1 \<le>
      (if m = 2 then (if p = 365 then 29 else 28) else if m \<in> {4, 6, 9, 11} then 30 else 31)"
proof -
  have b: "153 * mp \<le> 5 * p + 2" "5 * p + 2 < 153 * mp + 153" by (simp_all add: mp_def)
  with assms(3,4) have mp: "0 \<le> mp" "mp \<le> 11" by linarith+
  show "m \<in> {1..12}" "(if 2 < m then m - 3 else m + 9) = mp" "m \<le> 2 \<longleftrightarrow> 10 \<le> mp"
    using mp by (auto simp: m_def)
  have "5 * ((153 * mp + 2) div 5) \<le> 153 * mp + 2" by simp
  with b(1) show "1 \<le> p - (153 * mp + 2) div 5 + 1" by linarith
  have "mp = 0 \<or> mp = 1 \<or> mp = 2 \<or> mp = 3 \<or> mp = 4 \<or> mp = 5 \<or> mp = 6 \<or> mp = 7 \<or> mp = 8 \<or> mp = 9 \<or>
      mp = 10 \<or> mp = 11" using mp by arith
  then show "p - (153 * mp + 2) div 5 + 1 \<le>
      (if m = 2 then (if p = 365 then 29 else 28) else if m \<in> {4, 6, 9, 11} then 30 else 31)"
    by (elim disjE) (use b assms(4) in \<open>simp_all add: m_def\<close>)
qed

lemma leap_year_cycle:
  fixes c k j era :: int
  assumes "j = 3" and "k = 24 \<longrightarrow> c = 3" and "k \<in> {0..24}"
  shows "leap_year (100 * c + 4 * k + j + 400 * era + 1)"
proof -
  let ?y = "100 * c + 4 * k + j + 400 * era + 1"
  have y: "?y = 4 * (25 * c + k + 100 * era + 1)" using assms(1) by simp
  have "?y mod 400 = 0" if "?y mod 100 = 0"
  proof -
    have "?y = (4 * k + 4) + (c + 4 * era) * 100" using assms(1) by simp
    then have "?y mod 100 = (4 * k + 4) mod 100" by (metis mod_mult_self1)
    moreover have "(4 * k + 4) mod 100 = 4 * k + 4" if "k \<noteq> 24" using that assms(3) by simp
    ultimately have "k = 24" using that assms(3) by auto
    with assms have "?y = 400 * (era + 1)" by simp
    then show ?thesis by (simp only: mod_mult_self1_is_0)
  qed
  with y show ?thesis by (auto simp: leap_year_def)
qed

text \<open>The date of a day is a date of the calendar, and the day of that date.\<close>

lemma civil_roundtrip:
  assumes "civil_of_days days = (y, m, d)"
  shows "m \<in> {1..12}" and "1 \<le> d" and "d \<le> days_in m y" and "days_of_civil y m d = days"
proof -
  define era where "era = (days + 719468) div 146097"
  define doe where "doe = (days + 719468) mod 146097"
  have "0 \<le> doe" "doe < 146097" by (simp_all add: doe_def)
  then obtain c k j p where doe: "doe = 36524 * c + 1461 * k + 365 * j + p"
    and b: "c \<in> {0..3}" "k \<in> {0..24}" "j \<in> {0..3}" "p \<in> {0..365}"
    and leap: "p = 365 \<longrightarrow> j = 3 \<and> (k = 24 \<longrightarrow> c = 3)"
    by (rule era_split)
  define yoe where "yoe = 100 * c + 4 * k + j"
  note yoe = year_of_era [OF doe b leap, folded yoe_def]
  note doy = day_of_year [OF b(1-3), folded yoe_def]
  have p: "0 \<le> p" "p \<le> 365" using b by auto
  note md = month_day [OF p]
  define mp where "mp = (5 * p + 2) div 153"
  have doy': "doe - (365 * yoe + yoe div 4 - yoe div 100) = p" unfolding doy by (simp add: doe)
  have r: "m = (if mp < 10 then mp + 3 else mp - 9)" "d = p - (153 * mp + 2) div 5 + 1"
    "y = yoe + era * 400 + (if m \<le> 2 then 1 else 0)"
    using assms unfolding civil_of_days_def Let_def era_def [symmetric] doe_def [symmetric] yoe doy' mp_def [symmetric]
    by (auto simp only: prod.inject)
  note md = md [folded mp_def, folded r(1), folded r(2)]
  show "m \<in> {1..12}" "1 \<le> d" by (rule md)+
  have "leap_year y" if "p = 365" "m = 2"
    using leap_year_cycle [of j k c era] leap b(2) that by (simp add: r(3) yoe_def algebra_simps)
  moreover have "d \<le> (if m = 2 then (if p = 365 then 29 else 28) else if m \<in> {4, 6, 9, 11} then 30 else 31)"
    by (rule md)
  ultimately show "d \<le> days_in m y" by (auto simp: days_in_def split: if_splits)
  have "yoe \<in> {0..<400}" using b by (auto simp: yoe_def)
  then have y': "(if m \<le> 2 then y - 1 else y) div 400 = era" "(if m \<le> 2 then y - 1 else y) mod 400 = yoe"
    by (auto simp: r(3))
  have "days_of_civil y m d = era * 146097 + (yoe * 365 + yoe div 4 - yoe div 100 + p) - 719468"
    unfolding days_of_civil_def Let_def y' md(2) by (simp add: r(2))
  also have "\<dots> = era * 146097 + doe - 719468"
    by (simp only: mult.commute [of yoe 365] doy doe)
  also have "\<dots> = days" by (simp add: era_def doe_def)
  finally show "days_of_civil y m d = days" .
qed

subsection \<open>Decimal fields\<close>

abbreviation digit :: "char \<Rightarrow> bool" where
  "digit c \<equiv> 48 \<le> byte c \<and> byte c \<le> 57"

definition dec_value :: "int \<Rightarrow> string \<Rightarrow> int" where
  "dec_value = foldl (\<lambda>x c. x * 10 + (int (byte c) - 48))"

lemma dec_value_simps [simp]:
  "dec_value x [] = x" "dec_value x (c # s) = dec_value (x * 10 + (int (byte c) - 48)) s"
  "dec_value x (s @ t) = dec_value (dec_value x s) t"
  by (simp_all add: dec_value_def)

lemma dec_field_value: "dec_field lo hi s = Some x \<longleftrightarrow> list_all digit s \<and> x = dec_value 0 s \<and> lo \<le> x \<and> x \<le> hi"
  by (auto simp: dec_field_def dec_value_def Let_def)

lemma dec_value_dec_nat: "dec_value 0 (dec_nat n) = int n"
proof (induction n rule: dec_nat.induct)
  case (1 n)
  then show ?case by (cases "n < 10") (simp_all add: dec_nat.simps [of n] zdiv_int zmod_int)
qed

lemma dec_value_zeros: "dec_value x (replicate k (CHR ''0'')) = x * 10 ^ k"
  by (induction k arbitrary: x) simp_all

lemma dec_value_pad [simp]: "dec_value 0 (pad_nat w n) = int n"
  by (simp add: pad_nat_def dec_value_zeros dec_value_dec_nat)

lemma dec_value_nonneg: "list_all digit s \<Longrightarrow> 0 \<le> x \<Longrightarrow> 0 \<le> dec_value x s"
  by (induction s arbitrary: x) simp_all

lemma digits_pad [simp]: "list_all digit (pad_nat w n)"
  by (auto simp: pad_nat_def list_all_iff dest: dec_nat_digits)

lemma dec_field_pad: "lo \<le> int n \<Longrightarrow> int n \<le> hi \<Longrightarrow> dec_field lo hi (pad_nat w n) = Some (int n)"
  by (simp add: dec_field_value)

lemma length_dec_nat: "n < 10 ^ w \<Longrightarrow> 0 < w \<Longrightarrow> length (dec_nat n) \<le> w"
proof (induction w arbitrary: n)
  case (Suc w)
  show ?case
  proof (cases "n < 10")
    case True
    then show ?thesis by (simp add: dec_nat.simps [of n])
  next
    case False
    with Suc.prems have w: "0 < w" by (cases w) auto
    have "n div 10 < 10 ^ w" using Suc.prems(1) by (simp add: less_mult_imp_div_less mult.commute)
    from Suc.IH [OF this w] False show ?thesis by (simp add: dec_nat.simps [of n])
  qed
qed simp

lemma length_pad_nat: "n < 10 ^ w \<Longrightarrow> 0 < w \<Longrightarrow> length (pad_nat w n) = w"
  using length_dec_nat [of n w] by (simp add: pad_nat_def)

lemma length_pad_int: "0 < w \<Longrightarrow> hi + 1 = 10 ^ w \<Longrightarrow> 0 \<le> x \<and> x \<le> hi \<Longrightarrow> length (pad_nat w (nat x)) = w"
  for x hi :: int
  by (rule length_pad_nat) (simp_all add: nat_less_iff)

lemma dec_field_int: "lo \<le> x \<Longrightarrow> x \<le> hi \<Longrightarrow> 0 \<le> x \<Longrightarrow> dec_field lo hi (pad_nat w (nat x)) = Some x"
  using dec_field_pad [of lo "nat x" hi w] by simp

subsection \<open>Fraction and zone\<close>

text \<open>What follows the fraction does not start like one.\<close>

definition ends_frac :: "string \<Rightarrow> bool" where
  "ends_frac z \<longleftrightarrow> z \<noteq> [] \<and> \<not> digit (hd z) \<and> hd z \<noteq> CHR ''.''"

lemma parse_nano_suffix:
  assumes "0 \<le> n" and "n < 1000000000" and z: "ends_frac z"
  shows "parse_frac (nano_suffix n @ z) = (n, z)"
proof (cases "n = 0")
  case True
  with z show ?thesis by (simp add: nano_suffix_def parse_frac_def ends_frac_def Let_def)
next
  case False
  define t where "t = rev (dropWhile (\<lambda>c. c = CHR ''0'') (rev (pad_nat 9 (nat n))))"
  define k where "k = length (takeWhile (\<lambda>c. c = CHR ''0'') (rev (pad_nat 9 (nat n))))"
  have "takeWhile (\<lambda>c. c = CHR ''0'') (rev (pad_nat 9 (nat n))) = replicate k (CHR ''0'')"
    unfolding k_def by (rule replicate_length_same [symmetric]) (auto dest: set_takeWhileD)
  then have "rev (pad_nat 9 (nat n)) = replicate k (CHR ''0'') @ rev t"
    using takeWhile_dropWhile_id [of "\<lambda>c. c = CHR ''0''" "rev (pad_nat 9 (nat n))"] by (simp add: t_def)
  then have p: "pad_nat 9 (nat n) = t @ replicate k (CHR ''0'')"
    by (simp add: rev_swap)
  have "nat n < 10 ^ 9" using assms(1,2) by simp
  then have len: "length t + k = 9" using length_pad_nat [of "nat n" 9] p by simp
  have dig: "list_all digit t" using digits_pad [of 9 "nat n"] unfolding p by simp
  have "dec_value 0 (pad_nat 9 (nat n)) = n" using assms(1) by simp
  then have val: "dec_value 0 t * 10 ^ k = n" by (simp add: p dec_value_zeros)
  have nn: "0 \<le> dec_value 0 t" by (rule dec_value_nonneg [OF dig]) simp
  have t: "t \<noteq> []" using val False by auto
  have "dec_value 0 t * 1 \<le> dec_value 0 t * 10 ^ k" using nn by (intro mult_left_mono) simp_all
  then have "dec_field 0 999999999 t = Some (dec_value 0 t)"
    using dig nn val assms(2) by (simp add: dec_field_value)
  moreover have "takeWhile digit (t @ z) = t"
    using dig z by (cases z) (auto simp: takeWhile_append list_all_iff ends_frac_def)
  moreover have "9 - length t = k" "take 9 t = t" using len by simp_all
  ultimately show ?thesis
    using False t val by (simp add: nano_suffix_def t_def [symmetric] parse_frac_def Let_def)
qed

lemma ends_frac_zone: "ends_frac (zone_suffix off)"
  by (simp add: zone_suffix_def ends_frac_def Let_def)

lemma parse_zone_suffix:
  assumes "off mod 60 = 0" and "\<bar>off\<bar> < 86400"
  shows "parse_zone (zone_suffix off) = Some off"
proof (cases "off = 0")
  case True
  then show ?thesis by (simp add: zone_suffix_def parse_zone_def)
next
  case False
  obtain z where z: "off = 60 * z" using assms(1) by (auto simp: mod_eq_0_iff_dvd)
  define h where "h = nat (\<bar>z\<bar> div 60)"
  define m where "m = nat (\<bar>z\<bar> mod 60)"
  have zone: "sgn off * (\<bar>off\<bar> div 60) = z" using z by (simp add: abs_mult sgn_mult sgn_mult_abs)
  have b: "h < 24" "m < 60" "int h * 60 + int m = \<bar>z\<bar>" using assms(2) z by (auto simp: h_def m_def)
  then have len: "length (pad_nat 2 h) = 2" "length (pad_nat 2 m) = 2" by (simp_all add: length_pad_nat)
  have f: "dec_field 0 23 (pad_nat 2 h) = Some (int h)" "dec_field 0 59 (pad_nat 2 m) = Some (int m)"
    using b by (simp_all add: dec_field_pad)
  have s: "zone_suffix off = (if z < 0 then CHR ''-'' else CHR ''+'') # pad_nat 2 h @ CHR '':'' # pad_nat 2 m"
    using False by (simp add: zone_suffix_def zone h_def m_def Let_def)
  have "z \<noteq> 0" using False z by simp
  then show ?thesis
    unfolding s using len f b(3) z
    by (simp add: parse_zone_def slice_def nth_append)
qed

subsection \<open>The layout\<close>

text \<open>The times that the layout can hold: four-digit years, a zone in whole minutes below a day.\<close>

definition time_year :: "go_time \<Rightarrow> int" where
  "time_year t = fst (civil_of_days ((unix_sec t + zone_off t) div 86400))"

definition valid_time :: "go_time \<Rightarrow> bool" where
  "valid_time t \<longleftrightarrow>
     0 \<le> nanos t \<and> nanos t < 1000000000 \<and> 0 \<le> time_year t \<and> time_year t \<le> 9999 \<and>
     zone_off t mod 60 = 0 \<and> \<bar>zone_off t\<bar> < 86400"

lemma layout_slices:
  assumes "length a = 4" "length b = 2" "length c = 2" "length d = 2" "length e = 2" "length f = 2"
    and s: "s = a @ ''-'' @ b @ ''-'' @ c @ ''T'' @ d @ '':'' @ e @ '':'' @ f @ z"
  shows "slice 0 4 s = a" "slice 5 7 s = b" "slice 8 10 s = c" "slice 11 13 s = d" "slice 14 16 s = e"
    "slice 17 19 s = f" "drop 19 s = z" "\<not> length s < 19" "s ! 4 = CHR ''-''" "s ! 7 = CHR ''-''"
    "s ! 10 = CHR ''T''" "s ! 13 = CHR '':''" "s ! 16 = CHR '':''"
  using assms(1-6) by (simp_all add: s slice_def nth_append)

lemma append_int_pad: "0 \<le> i \<Longrightarrow> append_int w i = pad_nat w (nat i)"
  by (simp add: append_int_def)

lemma clock_sum:
  fixes s :: int
  shows "s div 3600 * 3600 + s mod 3600 div 60 * 60 + s mod 60 = s"
proof -
  have "s mod 60 = s mod 3600 mod 60" by (simp add: mod_mod_cancel)
  then have "s mod 3600 div 60 * 60 + s mod 60 = s mod 3600" by simp
  then show ?thesis using div_mult_mod_eq [of s 3600] by linarith
qed

theorem parse_format:
  assumes "valid_time t"
  shows "parse_rfc3339 (format_rfc3339 True t) = Some t"
proof -
  define days where "days = (unix_sec t + zone_off t) div 86400"
  define s where "s = (unix_sec t + zone_off t) mod 86400"
  obtain y m d where c: "civil_of_days days = (y, m, d)" by (cases "civil_of_days days") auto
  note cr = civil_roundtrip [OF c]
  have y: "0 \<le> y" "y \<le> 9999" and n: "0 \<le> nanos t" "nanos t < 1000000000"
    and z: "zone_off t mod 60 = 0" "\<bar>zone_off t\<bar> < 86400"
    using assms by (auto simp: valid_time_def time_year_def days_def [symmetric] c)
  have d: "1 \<le> d" "d \<le> 31" "d \<le> days_in m y" using cr(2,3) by (auto simp: days_in_def split: if_splits)
  have m: "1 \<le> m" "m \<le> 12" using cr(1) by simp_all
  have s: "0 \<le> s" "s < 86400" by (simp_all add: s_def)
  define h mi se where hms_def: "h = s div 3600" "mi = s mod 3600 div 60" "se = s mod 60"
  have hms: "0 \<le> h" "h \<le> 23" "0 \<le> mi" "mi \<le> 59" "0 \<le> se" "se \<le> 59"
    using s by (auto simp: hms_def)
  have "0 \<le> m" "0 \<le> d" using m d by simp_all
  note ap = append_int_pad [OF y(1)] append_int_pad [OF this(1)] append_int_pad [OF this(2)]
    append_int_pad [OF hms(1)] append_int_pad [OF hms(3)] append_int_pad [OF hms(5)]
  let ?z = "nano_suffix (nanos t) @ zone_suffix (zone_off t)"
  have f: "format_rfc3339 True t = pad_nat 4 (nat y) @ ''-'' @ pad_nat 2 (nat m) @ ''-'' @ pad_nat 2 (nat d) @ ''T''
      @ pad_nat 2 (nat h) @ '':'' @ pad_nat 2 (nat mi) @ '':''
      @ pad_nat 2 (nat se) @ ?z"
    unfolding format_rfc3339_def Let_def days_def [symmetric] s_def [symmetric] hms_def [symmetric] c prod.case if_True
    by (simp only: ap)
  have len: "length (pad_nat 4 (nat y)) = 4" "length (pad_nat 2 (nat m)) = 2" "length (pad_nat 2 (nat d)) = 2"
    "length (pad_nat 2 (nat h)) = 2" "length (pad_nat 2 (nat mi)) = 2"
    "length (pad_nat 2 (nat se)) = 2"
    by (rule length_pad_int, simp, simp, use y m d(1,2) hms in linarith)+
  note sl = layout_slices [OF len f]
  have fields: "dec_field 0 9999 (pad_nat 4 (nat y)) = Some y" "dec_field 1 12 (pad_nat 2 (nat m)) = Some m"
    "dec_field 1 (days_in m y) (pad_nat 2 (nat d)) = Some d"
    "dec_field 0 23 (pad_nat 2 (nat h)) = Some h"
    "dec_field 0 59 (pad_nat 2 (nat mi)) = Some mi"
    "dec_field 0 59 (pad_nat 2 (nat se)) = Some se"
    by (rule dec_field_int; use y m d hms in linarith)+
  have "parse_rfc3339 (format_rfc3339 True t) =
    Some \<lparr>unix_sec = days_of_civil y m d * 86400 + h * 3600 + mi * 60 + se - zone_off t,
          nanos = nanos t, zone_off = zone_off t\<rparr>"
    by (simp add: parse_rfc3339_def sl fields parse_nano_suffix [OF n ends_frac_zone] parse_zone_suffix [OF z])
  also have "days_of_civil y m d * 86400 + h * 3600 + mi * 60 + se =
      days * 86400 + (h * 3600 + mi * 60 + se)"
    by (simp only: cr(4) add.assoc)
  also have "\<dots> = unix_sec t + zone_off t"
    by (simp only: clock_sum hms_def) (simp add: days_def s_def)
  finally show ?thesis by simp
qed

text \<open>\<open>MarshalJSON\<close> accepts such a time, and it accepts no other year and no longer offset.\<close>

lemma length_dec_nat_gt: "10 ^ w \<le> n \<Longrightarrow> w < length (dec_nat n)"
proof (induction w arbitrary: n)
  case (Suc w)
  then have "10 ^ w \<le> n div 10" by (simp add: less_eq_div_iff_mult_less_eq mult.commute)
  from Suc.IH [OF this] Suc.prems show ?case
    by (subst dec_nat.simps) (auto simp: not_less intro: le_trans [OF _ Suc.prems])
qed simp

lemma format_year:
  "\<exists>r. format_rfc3339 nano t = append_int 4 (time_year t) @ ''-'' @ r"
  by (auto simp: format_rfc3339_def time_year_def Let_def split: prod.split)

lemma append_int_digits: "\<forall>c \<in> set (tl (append_int w i)). digit c"
  by (cases "pad_nat w (nat i)")
     (use digits_pad [of w "nat i"] digits_pad [of w "nat (- i)"] in \<open>auto simp: append_int_def list_all_iff\<close>)

lemma append_int_4: "length (append_int 4 y) = 4 \<longleftrightarrow> 0 \<le> y \<and> y \<le> 9999" "4 \<le> length (append_int 4 y)"
proof -
  have l: "4 \<le> length (pad_nat 4 n)" for n by (simp add: pad_nat_def)
  have "length (pad_nat 4 n) = 4 \<longleftrightarrow> n < 10000" for n
    using length_pad_nat [of n 4] length_dec_nat_gt [of 4 n] by (cases "n < 10000") (simp_all add: pad_nat_def)
  then have p: "length (pad_nat 4 (nat y)) = 4 \<longleftrightarrow> nat y < 10000" .
  show "length (append_int 4 y) = 4 \<longleftrightarrow> 0 \<le> y \<and> y \<le> 9999"
  proof (cases "y < 0")
    case True
    then show ?thesis using l [of "nat (- y)"] by (simp add: append_int_def)
  next
    case False
    then have "nat y < 10000 \<longleftrightarrow> y \<le> 9999" by linarith
    with False p show ?thesis by (simp add: append_int_def)
  qed
  show "4 \<le> length (append_int 4 y)"
    using l [of "nat (- y)"] l [of "nat y"] by (simp add: append_int_def)
qed

lemma marshal_time_iff:
  "marshal_time t = Some b \<longleftrightarrow>
     b = format_rfc3339 True t \<and> 0 \<le> time_year t \<and> time_year t \<le> 9999 \<and> \<bar>zone_off t\<bar> < 86400"
proof -
  obtain r where r: "format_rfc3339 True t = append_int 4 (time_year t) @ ''-'' @ r"
    using format_year by blast
  let ?a = "append_int 4 (time_year t)"
  have "(?a @ ''-'' @ r) ! 4 = CHR ''-'' \<longleftrightarrow> length ?a = 4"
  proof
    assume "(?a @ ''-'' @ r) ! 4 = CHR ''-''"
    moreover have "?a ! 4 \<noteq> CHR ''-''" if "4 < length ?a"
    proof -
      have "?a ! 4 = tl ?a ! 3" "3 < length (tl ?a)" using that by (simp_all add: nth_tl)
      then have "?a ! 4 \<in> set (tl ?a)" by simp
      with append_int_digits [of 4 "time_year t"] show ?thesis by fastforce
    qed
    ultimately show "length ?a = 4" using append_int_4(2) [of "time_year t"] by (auto simp: nth_append split: if_splits)
  qed (simp add: nth_append)
  moreover have "4 < length (?a @ ''-'' @ r)" using append_int_4(2) [of "time_year t"] by simp
  ultimately show ?thesis
    unfolding append_int_4(1) r [symmetric] by (auto simp: marshal_time_def Let_def)
qed

lemma parse_zone_minutes: "parse_zone s = Some off \<Longrightarrow> off mod 60 = 0"
  by (auto simp: parse_zone_def split: if_splits option.splits)

lemma parse_rfc3339_minutes: "parse_rfc3339 s = Some t \<Longrightarrow> zone_off t mod 60 = 0"
  by (auto simp: parse_rfc3339_def parse_zone_minutes split: if_splits option.splits prod.splits)

lemma valid_time_json:
  assumes "valid_time t"
  obtains b where "marshal_time t = Some b" and "parse_rfc3339 b = Some t"
  by (rule that [OF _ parse_format [OF assms]])
     (use assms in \<open>auto simp: marshal_time_iff valid_time_def\<close>)

text \<open>The bounds are exact: a time is read back only if it is one of these.\<close>

lemma valid_time_iff:
  assumes "0 \<le> nanos t" and "nanos t < 1000000000"
  shows "(\<exists>b. marshal_time t = Some b \<and> parse_rfc3339 b = Some t) \<longleftrightarrow> valid_time t"
proof
  assume "\<exists>b. marshal_time t = Some b \<and> parse_rfc3339 b = Some t"
  with assms show "valid_time t" by (auto simp: marshal_time_iff valid_time_def parse_rfc3339_minutes)
qed (blast elim: valid_time_json)

lemma valid_zero_time [simp]: "valid_time zero_time"
  by code_simp

end
