(* ===== verification/HarborModel.thy ===== *)
theory HarborModel
  imports GoDecode GoTimeRound
begin

text \<open>
  \<open>pkg/harbor/model.go\<close>: the data of Harbor's scanner API and its JSON form. A severity is
  Go's \<open>int\<close>, so 0 and numbers that name no severity are values too; \<open>severityToString\<close> and
  \<open>stringToSeverity\<close> are the two tables of the source, with an absent key read as the zero
  value. Each struct has its JSON members (\<open>json_\<dots>\<close>, with the \<open>omitempty\<close> rule) and
  its decoder (\<open>dec_\<dots>\<close>). The lemmas show that the tables are inverse to each other, and
  that every struct that is stored or received decodes from its own printed form.
\<close>

subsection \<open>Severities\<close>

type_synonym severity = int

definition SevNone :: severity where "SevNone = 1"

definition SevUnknown :: severity where "SevUnknown = 2"

definition SevNegligible :: severity where "SevNegligible = 3"

definition SevLow :: severity where "SevLow = 4"

definition SevMedium :: severity where "SevMedium = 5"

definition SevHigh :: severity where "SevHigh = 6"

definition SevCritical :: severity where "SevCritical = 7"

lemmas sev_defs = SevNone_def SevUnknown_def SevNegligible_def SevLow_def SevMedium_def
  SevHigh_def SevCritical_def

definition severityToString :: "severity \<rightharpoonup> string" where
  "severityToString =
     [SevNone \<mapsto> ''None'', SevUnknown \<mapsto> ''Unknown'', SevNegligible \<mapsto> ''Negligible'',
      SevLow \<mapsto> ''Low'', SevMedium \<mapsto> ''Medium'', SevHigh \<mapsto> ''High'', SevCritical \<mapsto> ''Critical'']"

definition stringToSeverity :: "string \<rightharpoonup> severity" where
  "stringToSeverity =
     [''Unknown'' \<mapsto> SevUnknown, ''None'' \<mapsto> SevNone, ''Negligible'' \<mapsto> SevNegligible,
      ''Low'' \<mapsto> SevLow, ''Medium'' \<mapsto> SevMedium, ''High'' \<mapsto> SevHigh, ''Critical'' \<mapsto> SevCritical]"

text \<open>\<open>m[k]\<close> with the zero value of the element type for an absent key.\<close>

definition lookup_zero :: "'v \<Rightarrow> ('k \<rightharpoonup> 'v) \<Rightarrow> 'k \<Rightarrow> 'v" where
  "lookup_zero z m k = (case m k of None \<Rightarrow> z | Some v \<Rightarrow> v)"

definition Severity_String :: "severity \<Rightarrow> string" where
  "Severity_String s = lookup_zero [] severityToString s"

definition Severity_MarshalJSON :: "severity \<Rightarrow> string" where
  "Severity_MarshalJSON s = CHR 0x22 # lookup_zero [] severityToString s @ [CHR 0x22]"

definition Severity_UnmarshalJSON :: "severity decoder" where
  "Severity_UnmarshalJSON j old =
     (case dec_string j [] of
        None \<Rightarrow> None
      | Some value \<Rightarrow> Some (lookup_zero 0 stringToSeverity value))"

text \<open>The seven severities of the API.\<close>

definition known_severity :: "severity \<Rightarrow> bool" where
  "known_severity s \<longleftrightarrow> SevNone \<le> s \<and> s \<le> SevCritical"

lemma known_severity_cases:
  assumes "known_severity s"
  obtains "s = SevNone" | "s = SevUnknown" | "s = SevNegligible" | "s = SevLow" | "s = SevMedium"
    | "s = SevHigh" | "s = SevCritical"
  using assms unfolding known_severity_def sev_defs by linarith

lemma dom_severityToString: "severityToString s \<noteq> None \<longleftrightarrow> known_severity s"
  by (auto simp: severityToString_def known_severity_def sev_defs)

lemma stringToSeverity_inverse: "known_severity s \<Longrightarrow> stringToSeverity (Severity_String s) = Some s"
  by (elim known_severity_cases)
     (simp_all add: Severity_String_def lookup_zero_def severityToString_def stringToSeverity_def sev_defs)

lemma Severity_String_inverse: "stringToSeverity x = Some s \<Longrightarrow> known_severity s \<and> Severity_String s = x"
  by (auto simp: Severity_String_def lookup_zero_def severityToString_def stringToSeverity_def
      known_severity_def sev_defs split: if_splits)

lemma Severity_String_unknown: "\<not> known_severity s \<Longrightarrow> Severity_String s = []"
  using dom_severityToString [of s] by (auto simp: Severity_String_def lookup_zero_def)

lemma ascii_Severity_String [simp]: "ascii (Severity_String s)"
  by (simp add: Severity_String_def lookup_zero_def severityToString_def)

text \<open>What a severity comes back as once it was written: itself, or 0 when it has no name.\<close>

definition stored_severity :: "severity \<Rightarrow> severity" where
  "stored_severity s = (if known_severity s then s else 0)"

definition json_Severity :: "severity \<Rightarrow> json" where
  "json_Severity s = JStr (Severity_String s)"

lemma Severity_roundtrip [decode_simps]:
  "Severity_UnmarshalJSON (json_Severity s) old = Some (stored_severity s)"
proof (cases "known_severity s")
  case True
  then show ?thesis
    by (simp add: Severity_UnmarshalJSON_def json_Severity_def dec_string_def lookup_zero_def
        stringToSeverity_inverse stored_severity_def)
next
  case False
  then show ?thesis
    by (simp add: Severity_UnmarshalJSON_def json_Severity_def dec_string_def lookup_zero_def
        Severity_String_unknown stored_severity_def stringToSeverity_def)
qed

text \<open>The bytes of \<open>MarshalJSON\<close> are those the printer writes for the value.\<close>

lemma Severity_MarshalJSON_print: "print_json (json_Severity s) = Severity_MarshalJSON s"
  by (simp add: json_Severity_def Severity_MarshalJSON_def Severity_String_def print_string_def
      lookup_zero_def severityToString_def esc_body_def esc_rune_def)

subsection \<open>The structs\<close>

record Registry =
  reg_URL :: string
  reg_Authorization :: string

record Artifact =
  art_Repository :: string
  art_Digest :: string
  art_MimeType :: string

record ScanRequest =
  req_Registry :: Registry
  req_Artifact :: Artifact

record ScanResponse =
  resp_ID :: string

record VulnerabilityItem =
  vi_ID :: string
  vi_Pkg :: string
  vi_Version :: string
  vi_FixVersion :: string
  vi_Severity :: severity
  vi_Description :: string
  vi_Links :: "string slice"

record Scanner =
  scn_Name :: string
  scn_Vendor :: string
  scn_Version :: string

record ScanReport =
  rep_GeneratedAt :: go_time
  rep_Artifact :: Artifact
  rep_Scanner :: Scanner
  rep_Severity :: severity
  rep_Vulnerabilities :: "VulnerabilityItem slice"

record Capability =
  cap_Consumes :: "string list"
  cap_Produces :: "string list"

record ScannerMetadata =
  md_Scanner :: Scanner
  md_Capabilities :: "Capability list"
  md_Properties :: "(string \<times> string) list"   \<comment> \<open>a map, in no particular order\<close>

record HarborError =
  err_HTTPCode :: int
  err_Message :: string

text \<open>The zero values of the structs.\<close>

definition zero_Registry :: Registry where
  "zero_Registry = \<lparr>reg_URL = [], reg_Authorization = []\<rparr>"

definition zero_Artifact :: Artifact where
  "zero_Artifact = \<lparr>art_Repository = [], art_Digest = [], art_MimeType = []\<rparr>"

definition zero_ScanRequest :: ScanRequest where
  "zero_ScanRequest = \<lparr>req_Registry = zero_Registry, req_Artifact = zero_Artifact\<rparr>"

definition zero_VulnerabilityItem :: VulnerabilityItem where
  "zero_VulnerabilityItem =
     \<lparr>vi_ID = [], vi_Pkg = [], vi_Version = [], vi_FixVersion = [], vi_Severity = 0,
      vi_Description = [], vi_Links = None\<rparr>"

definition zero_Scanner :: Scanner where
  "zero_Scanner = \<lparr>scn_Name = [], scn_Vendor = [], scn_Version = []\<rparr>"

definition zero_ScanReport :: ScanReport where
  "zero_ScanReport =
     \<lparr>rep_GeneratedAt = zero_time, rep_Artifact = zero_Artifact, rep_Scanner = zero_Scanner,
      rep_Severity = 0, rep_Vulnerabilities = None\<rparr>"

subsection \<open>Their JSON form\<close>

text \<open>A member with \<open>omitempty\<close> is left out when its string is empty.\<close>

definition omit_empty :: "string \<Rightarrow> string \<Rightarrow> (string \<times> json) list" where
  "omit_empty k s = (if s = [] then [] else [(k, JStr s)])"

fun json_slice :: "('a \<Rightarrow> json) \<Rightarrow> 'a slice \<Rightarrow> json" where
  "json_slice f None = JNull"
| "json_slice f (Some xs) = JArr (map f xs)"

definition json_Registry :: "Registry \<Rightarrow> json" where
  "json_Registry r =
     JObj [(''url'', JStr (reg_URL r)), (''authorization'', JStr (reg_Authorization r))]"

definition json_Artifact :: "Artifact \<Rightarrow> json" where
  "json_Artifact a =
     JObj ([(''repository'', JStr (art_Repository a)), (''digest'', JStr (art_Digest a))]
           @ omit_empty ''mime_type'' (art_MimeType a))"

definition json_ScanRequest :: "ScanRequest \<Rightarrow> json" where
  "json_ScanRequest r =
     JObj [(''registry'', json_Registry (req_Registry r)),
           (''artifact'', json_Artifact (req_Artifact r))]"

definition json_ScanResponse :: "ScanResponse \<Rightarrow> json" where
  "json_ScanResponse r = JObj [(''id'', JStr (resp_ID r))]"

definition json_VulnerabilityItem :: "VulnerabilityItem \<Rightarrow> json" where
  "json_VulnerabilityItem v =
     JObj ([(''id'', JStr (vi_ID v)), (''package'', JStr (vi_Pkg v)),
            (''version'', JStr (vi_Version v))]
           @ omit_empty ''fix_version'' (vi_FixVersion v)
           @ [(''severity'', json_Severity (vi_Severity v)),
              (''description'', JStr (vi_Description v)),
              (''links'', json_slice JStr (vi_Links v))])"

definition json_Scanner :: "Scanner \<Rightarrow> json" where
  "json_Scanner s =
     JObj [(''name'', JStr (scn_Name s)), (''vendor'', JStr (scn_Vendor s)),
           (''version'', JStr (scn_Version s))]"

text \<open>A report cannot be written when its time has no RFC 3339 form.\<close>

definition json_ScanReport :: "ScanReport \<Rightarrow> json option" where
  "json_ScanReport r =
     map_option
       (\<lambda>t. JObj [(''generated_at'', JStr t),
                  (''artifact'', json_Artifact (rep_Artifact r)),
                  (''scanner'', json_Scanner (rep_Scanner r)),
                  (''severity'', json_Severity (rep_Severity r)),
                  (''vulnerabilities'', json_slice json_VulnerabilityItem (rep_Vulnerabilities r))])
       (marshal_time (rep_GeneratedAt r))"

definition json_Capability :: "Capability \<Rightarrow> json" where
  "json_Capability c =
     JObj [(''consumes_mime_types'', JArr (map JStr (cap_Consumes c))),
           (''produces_mime_types'', JArr (map JStr (cap_Produces c)))]"

text \<open>The printer writes the keys of a map in byte order.\<close>

definition json_string_map :: "(string \<times> string) list \<Rightarrow> json" where
  "json_string_map m =
     JObj (map (\<lambda>(k, v). (k, JStr v)) (sort_by (\<lambda>x y. str_less (fst x) (fst y)) m))"

definition json_ScannerMetadata :: "ScannerMetadata \<Rightarrow> json" where
  "json_ScannerMetadata m =
     JObj [(''scanner'', json_Scanner (md_Scanner m)),
           (''capabilities'', JArr (map json_Capability (md_Capabilities m))),
           (''properties'', json_string_map (md_Properties m))]"

text \<open>\<open>HTTPCode\<close> has the tag \<open>json:"-"\<close>.\<close>

definition json_HarborError :: "HarborError \<Rightarrow> json" where
  "json_HarborError e = JObj [(''message'', JStr (err_Message e))]"

subsection \<open>Their decoders\<close>

definition dec_Registry :: "Registry decoder" where
  "dec_Registry = dec_struct [''url'', ''authorization'']
     (\<lambda>n j r.
        if n = ''url'' then map_option (\<lambda>x. r\<lparr>reg_URL := x\<rparr>) (dec_string j (reg_URL r))
        else map_option (\<lambda>x. r\<lparr>reg_Authorization := x\<rparr>) (dec_string j (reg_Authorization r)))"

definition dec_Artifact :: "Artifact decoder" where
  "dec_Artifact = dec_struct [''repository'', ''digest'', ''mime_type'']
     (\<lambda>n j a.
        if n = ''repository'' then map_option (\<lambda>x. a\<lparr>art_Repository := x\<rparr>) (dec_string j (art_Repository a))
        else if n = ''digest'' then map_option (\<lambda>x. a\<lparr>art_Digest := x\<rparr>) (dec_string j (art_Digest a))
        else map_option (\<lambda>x. a\<lparr>art_MimeType := x\<rparr>) (dec_string j (art_MimeType a)))"

definition dec_ScanRequest :: "ScanRequest decoder" where
  "dec_ScanRequest = dec_struct [''registry'', ''artifact'']
     (\<lambda>n j r.
        if n = ''registry'' then map_option (\<lambda>x. r\<lparr>req_Registry := x\<rparr>) (dec_Registry j (req_Registry r))
        else map_option (\<lambda>x. r\<lparr>req_Artifact := x\<rparr>) (dec_Artifact j (req_Artifact r)))"

definition dec_VulnerabilityItem :: "VulnerabilityItem decoder" where
  "dec_VulnerabilityItem =
     dec_struct [''id'', ''package'', ''version'', ''fix_version'', ''severity'', ''description'', ''links'']
     (\<lambda>n j v.
        if n = ''id'' then map_option (\<lambda>x. v\<lparr>vi_ID := x\<rparr>) (dec_string j (vi_ID v))
        else if n = ''package'' then map_option (\<lambda>x. v\<lparr>vi_Pkg := x\<rparr>) (dec_string j (vi_Pkg v))
        else if n = ''version'' then map_option (\<lambda>x. v\<lparr>vi_Version := x\<rparr>) (dec_string j (vi_Version v))
        else if n = ''fix_version''
        then map_option (\<lambda>x. v\<lparr>vi_FixVersion := x\<rparr>) (dec_string j (vi_FixVersion v))
        else if n = ''severity''
        then map_option (\<lambda>x. v\<lparr>vi_Severity := x\<rparr>) (Severity_UnmarshalJSON j (vi_Severity v))
        else if n = ''description''
        then map_option (\<lambda>x. v\<lparr>vi_Description := x\<rparr>) (dec_string j (vi_Description v))
        else map_option (\<lambda>x. v\<lparr>vi_Links := x\<rparr>) (dec_slice dec_string [] j (vi_Links v)))"

definition dec_Scanner :: "Scanner decoder" where
  "dec_Scanner = dec_struct [''name'', ''vendor'', ''version'']
     (\<lambda>n j s.
        if n = ''name'' then map_option (\<lambda>x. s\<lparr>scn_Name := x\<rparr>) (dec_string j (scn_Name s))
        else if n = ''vendor'' then map_option (\<lambda>x. s\<lparr>scn_Vendor := x\<rparr>) (dec_string j (scn_Vendor s))
        else map_option (\<lambda>x. s\<lparr>scn_Version := x\<rparr>) (dec_string j (scn_Version s)))"

definition dec_ScanReport :: "ScanReport decoder" where
  "dec_ScanReport =
     dec_struct [''generated_at'', ''artifact'', ''scanner'', ''severity'', ''vulnerabilities'']
     (\<lambda>n j r.
        if n = ''generated_at''
        then map_option (\<lambda>x. r\<lparr>rep_GeneratedAt := x\<rparr>) (dec_time j (rep_GeneratedAt r))
        else if n = ''artifact''
        then map_option (\<lambda>x. r\<lparr>rep_Artifact := x\<rparr>) (dec_Artifact j (rep_Artifact r))
        else if n = ''scanner''
        then map_option (\<lambda>x. r\<lparr>rep_Scanner := x\<rparr>) (dec_Scanner j (rep_Scanner r))
        else if n = ''severity''
        then map_option (\<lambda>x. r\<lparr>rep_Severity := x\<rparr>) (Severity_UnmarshalJSON j (rep_Severity r))
        else map_option (\<lambda>x. r\<lparr>rep_Vulnerabilities := x\<rparr>)
               (dec_slice dec_VulnerabilityItem zero_VulnerabilityItem j (rep_Vulnerabilities r)))"

subsection \<open>Every struct decodes from its JSON form\<close>

lemma dec_fields_omit [decode_simps]:
  "dec_fields names f (omit_empty k s @ kvs) v =
     (if s = [] then dec_fields names f kvs v else dec_fields names f ((k, JStr s) # kvs) v)"
  "dec_fields names f (omit_empty k s) v =
     (if s = [] then Some v else dec_fields names f [(k, JStr s)] v)"
  by (simp_all add: omit_empty_def)

lemma dec_Registry_json [decode_simps]: "dec_Registry (json_Registry r) zero_Registry = Some r"
  by (simp add: dec_Registry_def json_Registry_def zero_Registry_def decode_simps)

lemma dec_Artifact_json [decode_simps]: "dec_Artifact (json_Artifact a) zero_Artifact = Some a"
  by (simp add: dec_Artifact_def json_Artifact_def zero_Artifact_def decode_simps)

lemma dec_ScanRequest_json: "dec_ScanRequest (json_ScanRequest r) zero_ScanRequest = Some r"
  by (simp add: dec_ScanRequest_def json_ScanRequest_def zero_ScanRequest_def decode_simps)

lemma dec_Scanner_json [decode_simps]: "dec_Scanner (json_Scanner s) zero_Scanner = Some s"
  by (simp add: dec_Scanner_def json_Scanner_def zero_Scanner_def decode_simps)

lemma dec_slice_json [decode_simps]:
  assumes "\<And>x. x \<in> set (elems xs) \<Longrightarrow> f (g x) zero = Some (h x)"
  shows "dec_slice f zero (json_slice g xs) None = Some (map_option (map h) xs)"
  using assms by (cases xs) (simp_all add: dec_slice_def dec_elems_map)

text \<open>Severities without a name come back as 0.\<close>

definition sev_item :: "VulnerabilityItem \<Rightarrow> VulnerabilityItem" where
  "sev_item v = v\<lparr>vi_Severity := stored_severity (vi_Severity v)\<rparr>"

definition sev_report :: "ScanReport \<Rightarrow> ScanReport" where
  "sev_report r = r\<lparr>rep_Severity := stored_severity (rep_Severity r),
     rep_Vulnerabilities := map_option (map sev_item) (rep_Vulnerabilities r)\<rparr>"

lemma dec_links_json: "dec_slice dec_string [] (json_slice JStr xs) None = Some xs"
  using dec_slice_json [of xs dec_string JStr "[]" id]
  by (simp add: dec_string_def option.map_id)

lemma dec_VulnerabilityItem_json:
  "dec_VulnerabilityItem (json_VulnerabilityItem v) zero_VulnerabilityItem = Some (sev_item v)"
  by (simp add: dec_VulnerabilityItem_def json_VulnerabilityItem_def zero_VulnerabilityItem_def
      sev_item_def dec_links_json Severity_roundtrip match_field_exact dec_struct_def
      dec_string_def dec_fields_omit)

text \<open>The time must be one that RFC 3339 can hold; the others always come back.\<close>

lemma dec_ScanReport_json:
  assumes "valid_time (rep_GeneratedAt r)"
  obtains j where "json_ScanReport r = Some j" and "dec_ScanReport j zero_ScanReport = Some (sev_report r)"
proof -
  from assms obtain b where b: "marshal_time (rep_GeneratedAt r) = Some b"
    "parse_rfc3339 b = Some (rep_GeneratedAt r)"
    by (rule valid_time_json)
  have "dec_slice dec_VulnerabilityItem zero_VulnerabilityItem
      (json_slice json_VulnerabilityItem vs) None = Some (map_option (map sev_item) vs)" for vs
    by (rule dec_slice_json) (rule dec_VulnerabilityItem_json)
  note items = this
  from b have "json_ScanReport r \<noteq> None" by (simp add: json_ScanReport_def)
  then obtain j where j: "json_ScanReport r = Some j" by auto
  moreover from this b items have "dec_ScanReport j zero_ScanReport = Some (sev_report r)"
    by (auto simp: json_ScanReport_def dec_ScanReport_def zero_ScanReport_def sev_report_def
        decode_simps)
  ultimately show thesis by (rule that)
qed

subsection \<open>What a report comes back as\<close>

text \<open>
  Bytes of a string that are not UTF-8 come back as the replacement character. A report
  whose strings are UTF-8 and whose severities have names comes back as it is.
\<close>

definition san_Artifact :: "Artifact \<Rightarrow> Artifact" where
  "san_Artifact a =
     \<lparr>art_Repository = sanitise (art_Repository a), art_Digest = sanitise (art_Digest a),
      art_MimeType = sanitise (art_MimeType a)\<rparr>"

definition san_Scanner :: "Scanner \<Rightarrow> Scanner" where
  "san_Scanner s =
     \<lparr>scn_Name = sanitise (scn_Name s), scn_Vendor = sanitise (scn_Vendor s),
      scn_Version = sanitise (scn_Version s)\<rparr>"

definition san_item :: "VulnerabilityItem \<Rightarrow> VulnerabilityItem" where
  "san_item v =
     \<lparr>vi_ID = sanitise (vi_ID v), vi_Pkg = sanitise (vi_Pkg v), vi_Version = sanitise (vi_Version v),
      vi_FixVersion = sanitise (vi_FixVersion v), vi_Severity = vi_Severity v,
      vi_Description = sanitise (vi_Description v),
      vi_Links = map_option (map sanitise) (vi_Links v)\<rparr>"

definition san_report :: "ScanReport \<Rightarrow> ScanReport" where
  "san_report r =
     \<lparr>rep_GeneratedAt = rep_GeneratedAt r, rep_Artifact = san_Artifact (rep_Artifact r),
      rep_Scanner = san_Scanner (rep_Scanner r), rep_Severity = rep_Severity r,
      rep_Vulnerabilities = map_option (map san_item) (rep_Vulnerabilities r)\<rparr>"

definition stored_report :: "ScanReport \<Rightarrow> ScanReport" where
  "stored_report r = sev_report (san_report r)"

lemma san_json_slice:
  "(\<And>x. san_json (f x) = f (g x)) \<Longrightarrow> san_json (json_slice f xs) = json_slice f (map_option (map g) xs)"
  by (cases xs) simp_all

lemma san_json_omit: "ascii k \<Longrightarrow> map (\<lambda>(k, v). (sanitise k, san_json v)) (omit_empty k s) = omit_empty k (sanitise s)"
  by (simp add: omit_empty_def)

lemma san_json_structs:
  "san_json (json_Severity s) = json_Severity s"
  "san_json (json_Artifact a) = json_Artifact (san_Artifact a)"
  "san_json (json_Scanner c) = json_Scanner (san_Scanner c)"
  "san_json (json_VulnerabilityItem v) = json_VulnerabilityItem (san_item v)"
  by (simp_all add: json_Severity_def json_Artifact_def json_Scanner_def json_VulnerabilityItem_def
      san_Artifact_def san_Scanner_def san_item_def san_json_omit san_json_slice [where g = sanitise])

lemma san_json_ScanReport:
  "json_ScanReport r = Some j \<Longrightarrow> json_ScanReport (san_report r) = Some (san_json j)"
  by (auto simp: json_ScanReport_def san_report_def san_json_structs ascii_marshal_time
      san_json_slice [where f = json_VulnerabilityItem and g = san_item])

lemma time_san_report [simp]: "rep_GeneratedAt (san_report r) = rep_GeneratedAt r"
  by (simp add: san_report_def)

lemma time_stored_report [simp]: "rep_GeneratedAt (stored_report r) = rep_GeneratedAt r"
  by (simp add: stored_report_def sev_report_def)

lemma stored_severity_idem [simp]: "stored_severity (stored_severity s) = stored_severity s"
  by (simp add: stored_severity_def)

lemma stored_report_idem [simp]: "stored_report (stored_report r) = stored_report r"
proof -
  have "map_option (map f) (map_option (map f) xs) = map_option (map f) xs"
    if "\<And>x. f (f x) = f x" for f :: "'a \<Rightarrow> 'a" and xs
    using that by (cases xs) simp_all
  moreover have "sev_item (san_item (sev_item (san_item v))) = sev_item (san_item v)" for v
    by (cases "vi_Links v") (simp_all add: sev_item_def san_item_def)
  ultimately show ?thesis
    by (cases "rep_Vulnerabilities r")
       (simp_all add: stored_report_def sev_report_def san_report_def san_Artifact_def san_Scanner_def)
qed

lemma dec_stored_report:
  assumes "valid_time (rep_GeneratedAt r)"
  obtains j where "json_ScanReport r = Some j"
    and "dec_ScanReport (san_json j) zero_ScanReport = Some (stored_report r)"
proof -
  from assms have "json_ScanReport r \<noteq> None"
    by (auto simp: json_ScanReport_def elim: valid_time_json)
  then obtain j where j: "json_ScanReport r = Some j" by auto
  from assms have "valid_time (rep_GeneratedAt (san_report r))" by simp
  then obtain j' where "json_ScanReport (san_report r) = Some j'"
    "dec_ScanReport j' zero_ScanReport = Some (sev_report (san_report r))"
    by (rule dec_ScanReport_json)
  with j san_json_ScanReport [OF j] show thesis by (intro that) (simp_all add: stored_report_def)
qed

text \<open>Every severity of the report has a name.\<close>

definition named_severities :: "ScanReport \<Rightarrow> bool" where
  "named_severities r \<longleftrightarrow>
     known_severity (rep_Severity r) \<and>
     (\<forall>v \<in> set (elems (rep_Vulnerabilities r)). known_severity (vi_Severity v))"

lemma stored_report_named:
  assumes "named_severities r"
  shows "stored_report r = san_report r"
proof -
  have "map_option (map sev_item) (map_option (map san_item) (rep_Vulnerabilities r)) =
      map_option (map san_item) (rep_Vulnerabilities r)"
    using assms
    by (cases "rep_Vulnerabilities r")
       (auto simp: named_severities_def sev_item_def san_item_def stored_severity_def)
  with assms show ?thesis
    by (simp add: stored_report_def sev_report_def named_severities_def stored_severity_def)
       (simp add: san_report_def stored_severity_def)
qed

text \<open>The reports that storing does not change.\<close>

definition clean_item :: "VulnerabilityItem \<Rightarrow> bool" where
  "clean_item v \<longleftrightarrow> san_item v = v \<and> stored_severity (vi_Severity v) = vi_Severity v"

definition clean_report :: "ScanReport \<Rightarrow> bool" where
  "clean_report r \<longleftrightarrow>
     san_Artifact (rep_Artifact r) = rep_Artifact r \<and> san_Scanner (rep_Scanner r) = rep_Scanner r \<and>
     stored_severity (rep_Severity r) = rep_Severity r \<and>
     (\<forall>v \<in> set (elems (rep_Vulnerabilities r)). clean_item v)"

lemma stored_clean_report: "clean_report r \<Longrightarrow> stored_report r = r"
  by (cases "rep_Vulnerabilities r")
     (simp_all add: clean_report_def stored_report_def sev_report_def san_report_def clean_item_def
       sev_item_def map_idI)

subsection \<open>Shape of the printed values\<close>

lemma wf_json_slice: "(\<And>x. wf_json (f x)) \<Longrightarrow> wf_json (json_slice f xs)"
  by (cases xs) auto

lemma wf_json_structs [simp]:
  "wf_json (json_Severity s)" "wf_json (json_Artifact a)" "wf_json (json_Scanner c)"
  "wf_json (json_VulnerabilityItem v)"
  by (auto simp: json_Severity_def json_Artifact_def json_Scanner_def json_VulnerabilityItem_def
      omit_empty_def wf_json_slice)

lemma wf_json_ScanReport: "json_ScanReport r = Some j \<Longrightarrow> wf_json j"
  by (auto simp: json_ScanReport_def wf_json_slice)

lemma depth_slice: "(\<And>x. json_depth (f x) \<le> d) \<Longrightarrow> json_depth (json_slice f xs) \<le> Suc d"
  by (cases xs) (auto simp: json_depth_Arr)

lemma depth_structs:
  "json_depth (json_Severity s) \<le> 0" "json_depth (json_Artifact a) \<le> 1"
  "json_depth (json_Scanner c) \<le> 1" "json_depth (json_VulnerabilityItem v) \<le> 2"
proof -
  have "json_depth (json_slice JStr (vi_Links v)) \<le> 1"
    using depth_slice [of JStr 0 "vi_Links v"] by simp
  then show "json_depth (json_VulnerabilityItem v) \<le> 2"
    by (simp add: json_VulnerabilityItem_def omit_empty_def json_Severity_def numeral_2_eq_2 json_depth_Obj)
qed (simp_all add: json_Severity_def json_Artifact_def json_Scanner_def omit_empty_def json_depth_Obj)

lemma depth_ScanReport: "json_ScanReport r = Some j \<Longrightarrow> json_depth j \<le> 4"
proof -
  assume j: "json_ScanReport r = Some j"
  have items: "json_depth (json_slice json_VulnerabilityItem vs) \<le> 3" for vs
    using depth_slice [of json_VulnerabilityItem 2 vs] depth_structs(4) by simp
  have small: "json_depth (json_Artifact a) \<le> 3" "json_depth (json_Scanner c) \<le> 3"
    "json_depth (json_Severity s) \<le> 3" for a c s
    using depth_structs(1) [of s] depth_structs(2) [of a] depth_structs(3) [of c] by linarith+
  from j obtain t where "j = JObj [(''generated_at'', JStr t),
      (''artifact'', json_Artifact (rep_Artifact r)), (''scanner'', json_Scanner (rep_Scanner r)),
      (''severity'', json_Severity (rep_Severity r)),
      (''vulnerabilities'', json_slice json_VulnerabilityItem (rep_Vulnerabilities r))]"
    by (auto simp: json_ScanReport_def)
  then have "json_depth j \<le> Suc 3"
    by (simp only: json_depth_Obj) (simp add: items small)
  then show ?thesis by simp
qed

end
