(* ===== verification/Job.thy ===== *)
theory Job
  imports HarborModel
begin

text \<open>
  \<open>pkg/job/job.go\<close>: the scan job, its four statuses and its JSON form, which is what the
  store keeps. A status is Go's \<open>int\<close>. The main lemma is that a job read back from its
  printed form is the job itself, for every job that can be printed without loss.
\<close>

type_synonym status = int

definition Pending :: status where "Pending = 0"

definition Running :: status where "Running = 1"

definition Finished :: status where "Finished = 2"

definition Failed :: status where "Failed = 3"

lemmas status_defs = Pending_def Running_def Finished_def Failed_def

definition Status_String :: "status \<Rightarrow> string" where
  "Status_String s =
     (if s < 0 \<or> s > 3 then ''Unknown''
      else [''Pending'', ''Running'', ''Finished'', ''Failed''] ! nat s)"

record ScanJob =
  job_ID :: string
  job_Status :: status
  job_Error :: string
  job_Report :: ScanReport

definition zero_ScanJob :: ScanJob where
  "zero_ScanJob = \<lparr>job_ID = [], job_Status = 0, job_Error = [], job_Report = zero_ScanReport\<rparr>"

definition json_ScanJob :: "ScanJob \<Rightarrow> json option" where
  "json_ScanJob j =
     map_option
       (\<lambda>r. JObj [(''id'', JStr (job_ID j)), (''status'', JNum (itoa (job_Status j))),
                  (''error'', JStr (job_Error j)), (''report'', r)])
       (json_ScanReport (job_Report j))"

definition dec_ScanJob :: "ScanJob decoder" where
  "dec_ScanJob = dec_struct [''id'', ''status'', ''error'', ''report'']
     (\<lambda>n j v.
        if n = ''id'' then map_option (\<lambda>x. v\<lparr>job_ID := x\<rparr>) (dec_string j (job_ID v))
        else if n = ''status'' then map_option (\<lambda>x. v\<lparr>job_Status := x\<rparr>) (dec_int j (job_Status v))
        else if n = ''error'' then map_option (\<lambda>x. v\<lparr>job_Error := x\<rparr>) (dec_string j (job_Error v))
        else map_option (\<lambda>x. v\<lparr>job_Report := x\<rparr>) (dec_ScanReport j (job_Report v)))"

text \<open>
  \<open>json.Marshal\<close> and \<open>json.Unmarshal\<close> of a job. The wording of the library's errors is an
  argument: what it says of a value that cannot be printed, and of a text it cannot read.
\<close>

record json_errors =
  je_marshal :: string
  je_unmarshal :: "string \<Rightarrow> string"

definition marshal :: "json_errors \<Rightarrow> json option \<Rightarrow> string res" where
  "marshal je j = (case j of None \<Rightarrow> Err (je_marshal je) | Some x \<Rightarrow> Ok (print_json x))"

definition marshal_job :: "json_errors \<Rightarrow> ScanJob \<Rightarrow> string res" where
  "marshal_job je j = marshal je (json_ScanJob j)"

definition unmarshal_job :: "json_errors \<Rightarrow> string \<Rightarrow> ScanJob res" where
  "unmarshal_job je = unmarshal (je_unmarshal je) dec_ScanJob zero_ScanJob"

lemma marshal_job_not_Panic [simp]: "marshal_job je j \<noteq> Panic p"
  by (simp add: marshal_job_def marshal_def split: option.split)

lemma unmarshal_job_not_Panic [simp]: "unmarshal_job je s \<noteq> Panic p"
  by (simp add: unmarshal_job_def)

lemma marshal_job_Ok_iff: "(\<exists>b. marshal_job je j = Ok b) \<longleftrightarrow> marshal_time (rep_GeneratedAt (job_Report j)) \<noteq> None"
  by (auto simp: marshal_job_def marshal_def json_ScanJob_def json_ScanReport_def split: option.split)

text \<open>The two \<open>time.Time\<close> methods depend on the time only, so a change of status cannot fail.\<close>

lemma marshal_job_Status:
  "marshal_job je j = Ok b \<Longrightarrow> \<exists>b'. marshal_job je (j\<lparr>job_Status := s, job_Error := e\<rparr>) = Ok b'"
  using marshal_job_Ok_iff [of je j] marshal_job_Ok_iff [of je "j\<lparr>job_Status := s, job_Error := e\<rparr>"]
  by simp

subsection \<open>A job that was printed reads back\<close>

definition stored_job :: "ScanJob \<Rightarrow> ScanJob" where
  "stored_job j =
     \<lparr>job_ID = sanitise (job_ID j), job_Status = job_Status j, job_Error = sanitise (job_Error j),
      job_Report = stored_report (job_Report j)\<rparr>"

text \<open>Jobs that print and read back: the status is an \<open>int\<close>, and the time has its form.\<close>

definition storable :: "ScanJob \<Rightarrow> bool" where
  "storable j \<longleftrightarrow>
     - (2 ^ 63) \<le> job_Status j \<and> job_Status j < 2 ^ 63 \<and>
     valid_time (rep_GeneratedAt (job_Report j))"

lemma stored_job_sel [simp]:
  "job_ID (stored_job j) = sanitise (job_ID j)" "job_Status (stored_job j) = job_Status j"
  "job_Error (stored_job j) = sanitise (job_Error j)" "job_Report (stored_job j) = stored_report (job_Report j)"
  by (simp_all add: stored_job_def)

lemma stored_job_idem [simp]: "stored_job (stored_job j) = stored_job j"
  by (simp add: stored_job_def)

lemma storable_stored [simp]: "storable (stored_job j) \<longleftrightarrow> storable j"
  by (simp add: storable_def)

lemma dec_ScanJob_json:
  assumes "storable j" and "json_ScanJob j = Some x"
  shows "dec_ScanJob (san_json x) zero_ScanJob = Some (stored_job j)"
proof -
  obtain r where r: "json_ScanReport (job_Report j) = Some r"
    "dec_ScanReport (san_json r) zero_ScanReport = Some (stored_report (job_Report j))"
    using dec_stored_report assms(1) unfolding storable_def by blast
  have s: "dec_int (JNum (itoa (job_Status j))) old = Some (job_Status j)" for old
    using assms(1) by (intro dec_int_itoa) (simp_all add: storable_def)
  from r s assms(2) show ?thesis
    by (auto simp: json_ScanJob_def dec_ScanJob_def zero_ScanJob_def stored_job_def decode_simps
        simp del: dec_int_itoa)
qed

lemma wf_json_ScanJob:
  assumes "storable j" and "json_ScanJob j = Some x"
  shows "wf_json x" and "json_depth x \<le> max_depth"
proof -
  from assms obtain r where r: "json_ScanReport (job_Report j) = Some r"
    "x = JObj [(''id'', JStr (job_ID j)), (''status'', JNum (itoa (job_Status j))),
               (''error'', JStr (job_Error j)), (''report'', r)]"
    by (auto simp: json_ScanJob_def)
  moreover have "int_literal (itoa (job_Status j))"
    using assms(1) by (intro int_literal_itoa) (simp_all add: storable_def)
  ultimately show "wf_json x" using wf_json_ScanReport by auto
  have "json_depth x \<le> Suc 4"
    unfolding r(2) by (simp only: json_depth_Obj) (simp add: depth_ScanReport [OF r(1)])
  then show "json_depth x \<le> max_depth" by (simp add: max_depth_def)
qed

theorem unmarshal_marshal_job:
  assumes "storable j"
  obtains b where "marshal_job je j = Ok b" and "unmarshal_job je b = Ok (stored_job j)"
proof -
  obtain r where "json_ScanReport (job_Report j) = Some r"
    using dec_stored_report assms unfolding storable_def by blast
  then obtain x where x: "json_ScanJob j = Some x" by (auto simp: json_ScanJob_def)
  have "unmarshal_job je (print_json x) = Ok (stored_job j)"
    by (simp add: unmarshal_job_def unmarshal_print wf_json_ScanJob [OF assms x]
        dec_ScanJob_json [OF assms x])
  with x show thesis
    by (intro that [of "print_json x"]) (simp_all add: marshal_job_def marshal_def)
qed

lemma unmarshal_marshal_job_eq:
  "storable j \<Longrightarrow> marshal_job je j = Ok b \<Longrightarrow> unmarshal_job je b = Ok (stored_job j)"
  by (metis unmarshal_marshal_job res.inject(1))

lemma Status_String_cases:
  "Status_String s = ''Unknown'' \<longleftrightarrow> s \<notin> {Pending, Running, Finished, Failed}"
proof (cases "s < 0 \<or> s > 3")
  case True
  then show ?thesis by (auto simp: Status_String_def status_defs)
next
  case False
  then have "s = 0 \<or> s = 1 \<or> s = 2 \<or> s = 3" by linarith
  then show ?thesis by (auto simp: Status_String_def status_defs)
qed

subsection \<open>Properties\<close>

text \<open>
  C19. A job that is marshalled and unmarshalled again is the job itself, up to the bytes of its
  strings that are not UTF-8 and the severities that have no name: for every job whose status
  is an \<open>int\<close> and whose time has an RFC 3339 form, the encoder succeeds and the decoder reads
  back the stored form; and the stored form is a fixed point, so a second pass changes nothing.
\<close>

theorem job_json_roundtrip:
  assumes "storable j"
  shows "\<exists>b b'. marshal_job je j = Ok b \<and> unmarshal_job je b = Ok (stored_job j) \<and>
    marshal_job je (stored_job j) = Ok b' \<and> unmarshal_job je b' = Ok (stored_job j)"
proof -
  obtain b where 1: "marshal_job je j = Ok b" "unmarshal_job je b = Ok (stored_job j)"
    by (rule unmarshal_marshal_job [OF assms])
  have "storable (stored_job j)" using assms by simp
  then obtain b' where "marshal_job je (stored_job j) = Ok b'"
      "unmarshal_job je b' = Ok (stored_job (stored_job j))"
    by (rule unmarshal_marshal_job)
  with 1 show ?thesis by auto
qed

lemma job_json_roundtrip_witness:
  fixes je :: json_errors
  defines "je \<equiv> \<lparr>je_marshal = ''unsupported value'', je_unmarshal = (\<lambda>s. ''invalid character'')\<rparr>"
  defines "j \<equiv> \<lparr>job_ID = ''42'', job_Status = Failed, job_Error = ''no layers'', job_Report = zero_ScanReport\<rparr>"
  shows "storable j \<and> (\<exists>b b'. marshal_job je j = Ok b \<and> unmarshal_job je b = Ok (stored_job j) \<and>
    marshal_job je (stored_job j) = Ok b' \<and> unmarshal_job je b' = Ok (stored_job j))"
proof -
  have s: "storable j" by (simp add: storable_def j_def Failed_def zero_ScanReport_def)
  from s job_json_roundtrip [OF s] show ?thesis by blast
qed

text \<open>
  The printed form of a severity is read back as the severity exactly when it is one of the
  seven named ones; any other number is written as the empty string and comes back as 0, which
  is none of them.
\<close>

theorem severity_roundtrip_iff:
  "Severity_UnmarshalJSON (json_Severity s) old = Some s \<and> s \<noteq> 0 \<longleftrightarrow> known_severity s"
  by (auto simp: Severity_roundtrip stored_severity_def) (auto simp: known_severity_def sev_defs)

end
