(* ===== verification/BaseHandler.thy ===== *)
theory BaseHandler
  imports Job
begin

text \<open>
  \<open>pkg/http/api/base_handler.go\<close>: MIME types and how a response is written. A
  \<open>ResponseWriter\<close> has a header that can still change and, once the status is written, the
  header that was sent. A broken connection makes every write of a body fail. The order in
  which Go ranges over a map is the argument \<open>order\<close>.
\<close>

record MimeType =
  mt_Type :: string
  mt_Subtype :: string
  mt_Params :: "(string \<times> string) list"

definition MimeTypeVersion :: "(string \<times> string) list" where
  "MimeTypeVersion = [(''version'', ''1.0'')]"

definition MimeTypeOCIImageManifest :: MimeType where
  "MimeTypeOCIImageManifest =
     \<lparr>mt_Type = ''application'', mt_Subtype = ''vnd.oci.image.manifest.v1+json'', mt_Params = []\<rparr>"

definition MimeTypeDockerDistributionManifest :: MimeType where
  "MimeTypeDockerDistributionManifest =
     \<lparr>mt_Type = ''application'', mt_Subtype = ''vnd.docker.distribution.manifest.v2+json'', mt_Params = []\<rparr>"

definition MimeTypeError :: MimeType where
  "MimeTypeError =
     \<lparr>mt_Type = ''application'', mt_Subtype = ''vnd.scanner.adapter.error'', mt_Params = MimeTypeVersion\<rparr>"

definition MimeTypeScanResponse :: MimeType where
  "MimeTypeScanResponse =
     \<lparr>mt_Type = ''application'', mt_Subtype = ''vnd.scanner.adapter.scan.response+json'',
      mt_Params = MimeTypeVersion\<rparr>"

definition MimeTypeScanReport :: MimeType where
  "MimeTypeScanReport =
     \<lparr>mt_Type = ''application'', mt_Subtype = ''vnd.scanner.adapter.vuln.report.harbor+json'',
      mt_Params = MimeTypeVersion\<rparr>"

definition MimeTypeMetadata :: MimeType where
  "MimeTypeMetadata =
     \<lparr>mt_Type = ''application'', mt_Subtype = ''vnd.scanner.adapter.metadata+json'',
      mt_Params = MimeTypeVersion\<rparr>"

type_synonym order = "(string \<times> string) list \<Rightarrow> (string \<times> string) list"

definition MimeType_String :: "order \<Rightarrow> MimeType \<Rightarrow> string" where
  "MimeType_String order mt =
     (let s = mt_Type mt @ ''/'' @ mt_Subtype mt in
      if length (mt_Params mt) = 0 then s
      else s @ ''; '' @ join '';'' (map (\<lambda>(k, v). k @ ''='' @ v) (order (mt_Params mt))))"

subsection \<open>The response writer\<close>

record response =
  rw_header :: "(string \<times> string) list"
  rw_sent :: "(int \<times> (string \<times> string) list) option"
  rw_body :: string
  rw_broken :: bool

definition new_response :: "bool \<Rightarrow> response" where
  "new_response broken = \<lparr>rw_header = [], rw_sent = None, rw_body = [], rw_broken = broken\<rparr>"

definition header_set :: "string \<Rightarrow> string \<Rightarrow> response \<Rightarrow> response" where
  "header_set k v res = res\<lparr>rw_header := filter (\<lambda>h. fst h \<noteq> k) (rw_header res) @ [(k, v)]\<rparr>"

definition header_add :: "string \<Rightarrow> string \<Rightarrow> response \<Rightarrow> response" where
  "header_add k v res = res\<lparr>rw_header := rw_header res @ [(k, v)]\<rparr>"

text \<open>A second \<open>WriteHeader\<close> is ignored.\<close>

definition WriteHeader :: "int \<Rightarrow> response \<Rightarrow> response" where
  "WriteHeader code res =
     (case rw_sent res of
        None \<Rightarrow> res\<lparr>rw_sent := Some (code, rw_header res)\<rparr>
      | Some _ \<Rightarrow> res)"

text \<open>\<open>Write\<close> sends the header with status 200 first when none was written.\<close>

definition write_body :: "string \<Rightarrow> response \<Rightarrow> bool \<times> response" where
  "write_body b res =
     (let res = WriteHeader 200 res in
      if rw_broken res then (False, res) else (True, res\<lparr>rw_body := rw_body res @ b\<rparr>))"

text \<open>\<open>http.Error\<close>.\<close>

definition http_Error :: "string \<Rightarrow> int \<Rightarrow> response \<Rightarrow> response" where
  "http_Error msg code res =
     snd (write_body (msg @ [CHR 0x0A])
       (WriteHeader code
         (header_set ''X-Content-Type-Options'' ''nosniff''
           (header_set ''Content-Type'' ''text/plain; charset=utf-8''
             (res\<lparr>rw_header := filter (\<lambda>h. fst h \<noteq> ''Content-Length'') (rw_header res)\<rparr>)))))"

definition SendInternalServerError :: "response \<Rightarrow> response" where
  "SendInternalServerError res = http_Error ''Internal Server Error'' 500 res"

text \<open>
  The value to encode is \<open>None\<close> when the encoder refuses it. Nothing of it is written then,
  but the header and the status are already sent.
\<close>

definition WriteJSON :: "order \<Rightarrow> json option \<Rightarrow> MimeType \<Rightarrow> int \<Rightarrow> response \<Rightarrow> response" where
  "WriteJSON order data mimeType statusCode res =
     (let res = header_set ''Content-Type'' (MimeType_String order mimeType) res;
          res = WriteHeader statusCode res
      in case data of
           None \<Rightarrow> SendInternalServerError res
         | Some j \<Rightarrow>
             (case write_body (print_json j @ [CHR 0x0A]) res of
                (True, res) \<Rightarrow> res
              | (False, res) \<Rightarrow> SendInternalServerError res))"

definition WriteJSONError :: "order \<Rightarrow> HarborError \<Rightarrow> response \<Rightarrow> response" where
  "WriteJSONError order err res =
     WriteJSON order (Some (JObj [(''error'', json_HarborError err)])) MimeTypeError (err_HTTPCode err) res"

subsection \<open>What is written\<close>

lemma WriteHeader_sel [simp]:
  "rw_sent (WriteHeader c r) = (case rw_sent r of None \<Rightarrow> Some (c, rw_header r) | Some x \<Rightarrow> Some x)"
  "rw_body (WriteHeader c r) = rw_body r" "rw_header (WriteHeader c r) = rw_header r"
  "rw_broken (WriteHeader c r) = rw_broken r"
  by (simp_all add: WriteHeader_def split: option.split)

lemma header_set_sel [simp]:
  "rw_sent (header_set k v r) = rw_sent r" "rw_body (header_set k v r) = rw_body r"
  "rw_broken (header_set k v r) = rw_broken r"
  "rw_header (header_set k v r) = filter (\<lambda>h. fst h \<noteq> k) (rw_header r) @ [(k, v)]"
  by (simp_all add: header_set_def)

lemma WriteJSON_sent:
  "rw_sent r = None \<Longrightarrow> rw_sent (WriteJSON order data mt code r) =
     Some (code, filter (\<lambda>h. fst h \<noteq> ''Content-Type'') (rw_header r) @ [(''Content-Type'', MimeType_String order mt)])"
  by (auto simp: WriteJSON_def SendInternalServerError_def http_Error_def write_body_def Let_def
      split: option.split prod.split)

lemma WriteJSON_body:
  "\<not> rw_broken r \<Longrightarrow> rw_body (WriteJSON order data mt code r) =
     rw_body r @ (case data of Some j \<Rightarrow> print_json j | None \<Rightarrow> ''Internal Server Error'') @ [CHR 0x0A]"
  by (auto simp: WriteJSON_def SendInternalServerError_def http_Error_def write_body_def Let_def
      split: option.split prod.split)

lemma MimeType_String_simple: "mt_Params mt = [] \<Longrightarrow> MimeType_String order mt = mt_Type mt @ ''/'' @ mt_Subtype mt"
  by (simp add: MimeType_String_def)

lemma MimeType_String_one:
  "mt_Params mt = [(k, v)] \<Longrightarrow> order [(k, v)] = [(k, v)] \<Longrightarrow>
     MimeType_String order mt = mt_Type mt @ ''/'' @ mt_Subtype mt @ ''; '' @ k @ ''='' @ v"
  by (simp add: MimeType_String_def)

subsection \<open>Properties\<close>

text \<open>
  C25. The status of a JSON response is committed before the value is encoded: on a response
  that was not started, the status and the header are the ones asked for whatever happens, and
  when the encoder refuses the value the client gets that status with the text
  \<open>Internal Server Error\<close> as its body; the status 500 of \<open>SendInternalServerError\<close> never
  leaves the server.
\<close>

theorem WriteJSON_commits_status:
  assumes "rw_sent r = None" and "rw_body r = []" and "\<not> rw_broken r"
  shows "rw_sent (WriteJSON order data mt code r) =
      Some (code, filter (\<lambda>h. fst h \<noteq> ''Content-Type'') (rw_header r) @ [(''Content-Type'', MimeType_String order mt)]) \<and>
    rw_body (WriteJSON order data mt code r) =
      (case data of Some j \<Rightarrow> print_json j | None \<Rightarrow> ''Internal Server Error'') @ [CHR 0x0A]"
  using WriteJSON_sent [OF assms(1)] WriteJSON_body [OF assms(3)] assms(2) by simp

lemma WriteJSON_commits_status_witness:
  "rw_sent (WriteJSON id None MimeTypeScanReport 200 (new_response False)) =
     Some (200, [(''Content-Type'', ''application/vnd.scanner.adapter.vuln.report.harbor+json; version=1.0'')]) \<and>
   rw_body (WriteJSON id None MimeTypeScanReport 200 (new_response False)) = ''Internal Server Error'' @ [CHR 0x0A]"
  using WriteJSON_commits_status [of "new_response False" id None MimeTypeScanReport 200]
  by (simp add: new_response_def MimeType_String_def MimeTypeScanReport_def MimeTypeVersion_def)

end
