(* ===== verification/GoHttp.thy ===== *)
theory GoHttp
  imports GoDecode
begin

text \<open>
  What the program uses of \<open>net/http\<close> as a client. The library is an argument: which URLs
  \<open>NewRequest\<close> refuses and with what error, and what a request does to the world and
  brings back. The body of a response is what \<open>io.ReadAll\<close> gives of it, an error or bytes.
\<close>

record http_request =
  rq_Method :: string
  rq_URL :: string
  rq_Header :: "(string \<times> string) list"
  rq_Body :: string

record http_response =
  rs_StatusCode :: int
  rs_Status :: string
  rs_Body :: "string + string"

text \<open>The settings of the transport: a nil pool means the roots of the host.\<close>

record http_client =
  hc_InsecureSkipVerify :: bool
  hc_RootCAs :: "string list option"

record 'w http_lib =
  hl_url_error :: "string \<Rightarrow> string option"
  hl_do :: "http_client \<Rightarrow> http_request \<Rightarrow> ('w, http_response) lib_call"

definition new_request :: "'w http_lib \<Rightarrow> string \<Rightarrow> string \<Rightarrow> string \<Rightarrow> http_request res" where
  "new_request lib meth url body =
     (case hl_url_error lib url of
        Some e \<Rightarrow> Err e
      | None \<Rightarrow> Ok \<lparr>rq_Method = meth, rq_URL = url, rq_Header = [], rq_Body = body\<rparr>)"

definition set_header :: "string \<Rightarrow> string \<Rightarrow> http_request \<Rightarrow> http_request" where
  "set_header k v rq = rq\<lparr>rq_Header := filter (\<lambda>h. fst h \<noteq> k) (rq_Header rq) @ [(k, v)]\<rparr>"

definition add_header :: "string \<Rightarrow> string \<Rightarrow> http_request \<Rightarrow> http_request" where
  "add_header k v rq = rq\<lparr>rq_Header := rq_Header rq @ [(k, v)]\<rparr>"

lemma new_request_not_Panic [simp]: "\<not> is_Panic (new_request lib meth url body)"
  by (simp add: new_request_def split: option.split)

lemma new_request_OkD:
  "new_request lib meth url body = Ok rq \<Longrightarrow>
     rq = \<lparr>rq_Method = meth, rq_URL = url, rq_Header = [], rq_Body = body\<rparr>"
  by (simp add: new_request_def split: option.splits)

end
