(* ===== verification/Etc.thy ===== *)
theory Etc
  imports HarborModel GoHttp
begin

text \<open>
  \<open>pkg/etc/config.go\<close>: the configuration and how it is read. Durations are Go's
  nanosecond counts. A certificate pool is the list of the certificates it holds, and the
  environment is an argument: what \<open>env.Parse\<close> fills in, the system pool, the files, the
  PEM parser, the check of a database URL, and the quoting of \<open>%q\<close>.
\<close>

type_synonym duration = int

record APIConfig =
  api_Addr :: string
  api_TLSCertificate :: string
  api_TLSKey :: string
  api_ReadTimeout :: duration
  api_WriteTimeout :: duration
  api_IdleTimeout :: duration

definition IsTLSEnabled :: "APIConfig \<Rightarrow> bool" where
  "IsTLSEnabled c \<longleftrightarrow> api_TLSCertificate c \<noteq> [] \<and> api_TLSKey c \<noteq> []"

record TLSConfig =
  tls_ClientCAs :: "string list"
  tls_InsecureSkipVerify :: bool
  tls_RootCAs :: "string list option"

record ClairConfig =
  clair_URL :: string
  clair_DatabaseURL :: string

record RedisPoolConfig =
  rp_URL :: string
  rp_MaxActive :: int
  rp_MaxIdle :: int
  rp_IdleTimeout :: duration
  rp_ConnectionTimeout :: duration
  rp_ReadTimeout :: duration
  rp_WriteTimeout :: duration

record RedisStoreConfig =
  st_Namespace :: string
  st_ScanJobTTL :: duration

record Config =
  cfg_API :: APIConfig
  cfg_TLS :: TLSConfig
  cfg_Clair :: ClairConfig
  cfg_RedisPool :: RedisPoolConfig
  cfg_RedisStore :: RedisStoreConfig

subsection \<open>Reading it\<close>

text \<open>logrus numbers its levels from \<open>panic\<close>, 0, to \<open>trace\<close>, 6.\<close>

definition InfoLevel :: nat where "InfoLevel = 4"

definition GetLogLevel :: "(string \<rightharpoonup> string) \<Rightarrow> (string \<Rightarrow> string + nat) \<Rightarrow> nat" where
  "GetLogLevel env parse_level =
     (case env ''SCANNER_LOG_LEVEL'' of
        Some v \<Rightarrow> (case parse_level v of Inl e \<Rightarrow> InfoLevel | Inr level \<Rightarrow> level)
      | None \<Rightarrow> InfoLevel)"

record etc_env =
  ee_parse :: "Config \<times> string option"            \<comment> \<open>\<open>env.Parse\<close> of a zero \<open>Config\<close>\<close>
  ee_system_pool :: "string list option \<times> string option"
  ee_read_file :: "string \<Rightarrow> string + string"
  ee_pem_certs :: "string \<Rightarrow> string list"
  ee_db_url_error :: "string \<Rightarrow> string option"
  ee_quote :: "string \<Rightarrow> string"

text \<open>
  The loop over the client certificate files. Both failures return the same message; the
  second one, a file without certificates, prints the nil error of \<open>os.ReadFile\<close>.
\<close>

fun append_client_CAs ::
  "etc_env \<Rightarrow> string list \<Rightarrow> string list \<Rightarrow> string list \<times> string option"
where
  "append_client_CAs ee [] pool = (pool, None)"
| "append_client_CAs ee (certFile # files) pool =
     (let msg = ''failed to append '' @ ee_quote ee certFile @ '' to root CAs pool: '' in
      case ee_read_file ee (trim_space certFile) of
        Inl e \<Rightarrow> (pool, Some (msg @ e))
      | Inr pem \<Rightarrow>
          if ee_pem_certs ee pem = [] then (pool, Some (msg @ ''<nil>''))
          else append_client_CAs ee files (pool @ ee_pem_certs ee pem))"

definition with_pool :: "string list \<Rightarrow> Config \<Rightarrow> Config" where
  "with_pool pool cfg = cfg\<lparr>cfg_TLS := (cfg_TLS cfg)\<lparr>tls_RootCAs := Some pool\<rparr>\<rparr>"

text \<open>
  The result is named, so the error of the system pool, which is logged as a warning, is
  still in it at the final return unless the check of a database URL overwrites it.
\<close>

definition GetConfig :: "etc_env \<Rightarrow> Config \<times> string option" where
  "GetConfig ee =
     (case ee_parse ee of
        (cfg, Some e) \<Rightarrow> (cfg, Some e)
      | (cfg, None) \<Rightarrow>
          let (sys, err) = ee_system_pool ee;
              pool0 = (case sys of None \<Rightarrow> [] | Some p \<Rightarrow> p)
          in (case append_client_CAs ee (tls_ClientCAs (cfg_TLS cfg)) pool0 of
               (pool, Some e) \<Rightarrow> (with_pool pool cfg, Some e)
             | (pool, None) \<Rightarrow>
                 let url = clair_DatabaseURL (cfg_Clair cfg) in
                 if url \<noteq> [] then
                   (case ee_db_url_error ee url of
                      Some _ \<Rightarrow> (with_pool pool cfg, Some (''invalid clair database url '' @ url))
                    | None \<Rightarrow> (with_pool pool cfg, None))
                 else (with_pool pool cfg, err)))"

definition GetScannerMetadata :: Scanner where
  "GetScannerMetadata = \<lparr>scn_Name = ''Clair'', scn_Vendor = ''CoreOS'', scn_Version = ''2.x''\<rparr>"

subsection \<open>What it gives\<close>

lemma append_client_CAs_ok:
  "append_client_CAs ee files pool = (pool', None) \<longleftrightarrow>
     (\<forall>f \<in> set files. \<exists>b. ee_read_file ee (trim_space f) = Inr b \<and> ee_pem_certs ee b \<noteq> []) \<and>
     pool' = pool @ concat (map (\<lambda>f. case ee_read_file ee (trim_space f) of
                                        Inl _ \<Rightarrow> [] | Inr b \<Rightarrow> ee_pem_certs ee b) files)"
  by (induction files arbitrary: pool) (auto simp: Let_def split: sum.splits if_splits)

lemma append_client_CAs_prefix:
  "append_client_CAs ee files pool = (pool', r) \<Longrightarrow> \<exists>more. pool' = pool @ more"
  by (induction files arbitrary: pool) (fastforce simp: Let_def split: sum.splits if_splits)+

lemma with_pool_sel [simp]:
  "tls_RootCAs (cfg_TLS (with_pool p c)) = Some p" "cfg_API (with_pool p c) = cfg_API c"
  "cfg_Clair (with_pool p c) = cfg_Clair c" "cfg_RedisPool (with_pool p c) = cfg_RedisPool c"
  "cfg_RedisStore (with_pool p c) = cfg_RedisStore c"
  "tls_InsecureSkipVerify (cfg_TLS (with_pool p c)) = tls_InsecureSkipVerify (cfg_TLS c)"
  "tls_ClientCAs (cfg_TLS (with_pool p c)) = tls_ClientCAs (cfg_TLS c)"
  by (simp_all add: with_pool_def)

subsection \<open>Properties\<close>

definition client_certs_ok :: "etc_env \<Rightarrow> string list \<Rightarrow> bool" where
  "client_certs_ok ee files \<longleftrightarrow>
     (\<forall>f \<in> set files. \<exists>b. ee_read_file ee (trim_space f) = Inr b \<and> ee_pem_certs ee b \<noteq> [])"

text \<open>
  C35. When the configuration is read without an error: the environment parses, every client
  certificate file can be read and holds a certificate, and then, with a database URL, that URL
  is well formed, while without one the system's certificate pool was loaded without an error.
  So a failure to load that pool, which is only logged as a warning, is still returned by the
  final \<open>return\<close> and ends the program, but only when no database URL is configured.
\<close>

theorem config_without_error_iff:
  "(\<exists>cfg. GetConfig ee = (cfg, None)) \<longleftrightarrow>
     snd (ee_parse ee) = None \<and> client_certs_ok ee (tls_ClientCAs (cfg_TLS (fst (ee_parse ee)))) \<and>
     (if clair_DatabaseURL (cfg_Clair (fst (ee_parse ee))) \<noteq> []
      then ee_db_url_error ee (clair_DatabaseURL (cfg_Clair (fst (ee_parse ee)))) = None
      else snd (ee_system_pool ee) = None)"
proof (cases "ee_parse ee")
  case (Pair cfg e)
  obtain sys err where sys: "ee_system_pool ee = (sys, err)" by fastforce
  let ?p0 = "case sys of None \<Rightarrow> [] | Some p \<Rightarrow> p"
  obtain pl r where a: "append_client_CAs ee (tls_ClientCAs (cfg_TLS cfg)) ?p0 = (pl, r)" by fastforce
  have r: "r = None \<longleftrightarrow> client_certs_ok ee (tls_ClientCAs (cfg_TLS cfg))"
    using a append_client_CAs_ok [of ee "tls_ClientCAs (cfg_TLS cfg)" ?p0] unfolding client_certs_ok_def
    by (cases r) auto
  show ?thesis
    by (cases e; cases r) (use Pair sys a r in \<open>auto simp: GetConfig_def Let_def split: option.split\<close>)
qed

text \<open>
  The certificate pool of a configuration that was read is the system's, or an empty one,
  followed by the certificates of the client files in their order; every other setting is what
  the environment gave.
\<close>

theorem config_pool:
  assumes "GetConfig ee = (cfg, None)" and "fst (ee_system_pool ee) = sys"
  shows "cfg = with_pool ((case sys of None \<Rightarrow> [] | Some p \<Rightarrow> p) @
      concat (map (\<lambda>f. case ee_read_file ee (trim_space f) of Inl _ \<Rightarrow> [] | Inr b \<Rightarrow> ee_pem_certs ee b)
        (tls_ClientCAs (cfg_TLS (fst (ee_parse ee)))))) (fst (ee_parse ee))"
proof (cases "ee_parse ee")
  case (Pair cfg0 e)
  obtain err where sys: "ee_system_pool ee = (sys, err)" using assms(2) by (metis prod.collapse)
  let ?p0 = "case sys of None \<Rightarrow> [] | Some p \<Rightarrow> p"
  obtain pl r where a: "append_client_CAs ee (tls_ClientCAs (cfg_TLS cfg0)) ?p0 = (pl, r)" by fastforce
  have r: "e = None \<and> r = None \<and> cfg = with_pool pl cfg0"
    by (cases e; cases r) (use assms(1) Pair sys a in \<open>auto simp: GetConfig_def Let_def split: option.splits if_splits\<close>)
  with a append_client_CAs_ok [of ee "tls_ClientCAs (cfg_TLS cfg0)" ?p0 pl] Pair show ?thesis by simp
qed

definition demo_config :: Config where
  "demo_config =
     \<lparr>cfg_API = \<lparr>api_Addr = '':8080'', api_TLSCertificate = [], api_TLSKey = [],
                api_ReadTimeout = 15000000000, api_WriteTimeout = 15000000000, api_IdleTimeout = 60000000000\<rparr>,
      cfg_TLS = \<lparr>tls_ClientCAs = [''a.pem'', ''b.pem ''], tls_InsecureSkipVerify = False, tls_RootCAs = None\<rparr>,
      cfg_Clair = \<lparr>clair_URL = ''http://harbor-harbor-clair:6060'', clair_DatabaseURL = []\<rparr>,
      cfg_RedisPool = \<lparr>rp_URL = ''redis://harbor-harbor-redis:6379'', rp_MaxActive = 5, rp_MaxIdle = 5,
                      rp_IdleTimeout = 300000000000, rp_ConnectionTimeout = 1000000000,
                      rp_ReadTimeout = 1000000000, rp_WriteTimeout = 1000000000\<rparr>,
      cfg_RedisStore = \<lparr>st_Namespace = ''harbor.scanner.clair:store'', st_ScanJobTTL = 3600000000000\<rparr>\<rparr>"

definition demo_env :: etc_env where
  "demo_env =
     \<lparr>ee_parse = (demo_config, None), ee_system_pool = (None, None),
      ee_read_file = (\<lambda>f. Inr f), ee_pem_certs = (\<lambda>b. [b]), ee_db_url_error = (\<lambda>u. None), ee_quote = id\<rparr>"

lemma config_pool_witness:
  "\<exists>cfg. GetConfig demo_env = (cfg, None) \<and> tls_RootCAs (cfg_TLS cfg) = Some [trim_space ''a.pem'', trim_space ''b.pem '']"
proof -
  obtain cfg where g: "GetConfig demo_env = (cfg, None)"
    by (simp add: GetConfig_def demo_env_def demo_config_def Let_def)
  then show ?thesis
    using config_pool [OF g refl] by (simp add: demo_env_def demo_config_def)
qed

end
