(* ===== verification/RedisStore.thy ===== *)
theory RedisStore
  imports Job Etc
begin

text \<open>
  \<open>pkg/persistence/store.go\<close> and \<open>pkg/persistence/redis/store.go\<close>: the interface \<open>Store\<close> and
  its implementation on Redis. The Redis client library is an argument: how a connection is
  borrowed from the pool and closed, what a command does, and how a reply is read as a
  string. \<open>RedisContract\<close> says what is relied on of the server and what the store promises.
\<close>

text \<open>What \<open>redis.String\<close> makes of a reply: a string, the error \<open>ErrNil\<close>, or another error.\<close>

datatype string_reply = GotString string | GotErrNil | GotErr string

record ('w, 'c, 'r) redis_lib =
  ra_Get :: "'w \<Rightarrow> 'c \<times> 'w"
  ra_Close :: "'c \<Rightarrow> 'w \<Rightarrow> string option \<times> 'w"
  ra_Do :: "'c \<Rightarrow> string \<Rightarrow> string list \<Rightarrow> ('w, 'r) lib_call"
  ra_String :: "string + 'r \<Rightarrow> string_reply"

record ('w, 'c, 'r) store =
  pool :: "('w, 'c, 'r) redis_lib"
  cfg :: RedisStoreConfig
  errors :: json_errors

subsection \<open>The expiry in seconds\<close>

text \<open>
  \<open>int(d.Seconds())\<close> goes through a \<open>float64\<close>: the whole seconds plus the nanoseconds divided
  by \<open>10^9\<close>, each step rounded to 53 significant bits, half to even, then truncated. The
  computation is done in units of \<open>2^-90\<close>, which is finer than any bit of the operands.
\<close>

function bit_len :: "int \<Rightarrow> nat" where
  "bit_len n = (if n \<le> 0 then 0 else Suc (bit_len (n div 2)))"
  by pat_completeness auto
termination by (relation "measure nat") auto

declare bit_len.simps [simp del]

definition round53 :: "int \<Rightarrow> int \<Rightarrow> int" where
  "round53 n d =
     (let k = bit_len (n div d) - 53;
          u = d * 2 ^ k;
          m = n div u;
          r = n mod u
      in (if u < 2 * r \<or> u = 2 * r \<and> odd m then m + 1 else m) * 2 ^ k)"

definition duration_seconds :: "duration \<Rightarrow> int" where
  "duration_seconds d =
     (let sec = \<bar>d\<bar> div 1000000000;
          nsec = \<bar>d\<bar> mod 1000000000;
          frac = round53 (nsec * 2 ^ 90) 1000000000;
          total = round53 (sec * 2 ^ 90 + frac) 1
      in sgn d * (total div 2 ^ 90))"

subsection \<open>The operations\<close>

definition getKeyForScanJob :: "('w, 'c, 'r) store \<Rightarrow> string \<Rightarrow> string" where
  "getKeyForScanJob s scanJobID = st_Namespace (cfg s) @ '':scan-job:'' @ scanJobID"

text \<open>
  \<open>conn := s.pool.Get(); defer s.close(conn)\<close>: the connection is closed however the body
  ends, and an error of closing is only logged.
\<close>

definition with_conn :: "('w, 'c, 'r) store \<Rightarrow> ('c \<Rightarrow> ('w, 'a) act) \<Rightarrow> ('w, 'a) act" where
  "with_conn s body w =
     (let (conn, w1) = ra_Get (pool s) w;
          (r, w2) = body conn w1;
          (_, w3) = ra_Close (pool s) conn w2
      in (r, w3))"

definition set_job :: "('w, 'c, 'r) store \<Rightarrow> string \<Rightarrow> string \<Rightarrow> ScanJob \<Rightarrow> ('w, unit) act" where
  "set_job s mode what scanJob =
     with_conn s (\<lambda>conn.
       bind_act (wrap_act ''marshaling scan job: '' (lift_res (marshal_job (errors s) scanJob))) (\<lambda>bytes.
       bind_act (wrap_act what (lib_act (ra_Do (pool s) conn ''SET''
           [getKeyForScanJob s (job_ID scanJob), bytes, mode, ''EX'',
            itoa (duration_seconds (st_ScanJobTTL (cfg s)))]))) (\<lambda>_.
       ret ())))"

definition Create :: "('w, 'c, 'r) store \<Rightarrow> ScanJob \<Rightarrow> ('w, unit) act" where
  "Create s scanJob = set_job s ''NX'' ''creating scan job: '' scanJob"

definition update :: "('w, 'c, 'r) store \<Rightarrow> ScanJob \<Rightarrow> ('w, unit) act" where
  "update s scanJob = set_job s ''XX'' ''updating scan job: '' scanJob"

text \<open>A key that is not there is a nil job and no error.\<close>

definition Get :: "('w, 'c, 'r) store \<Rightarrow> string \<Rightarrow> ('w, ScanJob option) act" where
  "Get s scanJobID =
     with_conn s (\<lambda>conn w.
       let (reply, w') = ra_Do (pool s) conn ''GET'' [getKeyForScanJob s scanJobID] w in
       case ra_String (pool s) reply of
         GotErrNil \<Rightarrow> (Ok None, w')
       | GotErr e \<Rightarrow> (Err e, w')
       | GotString v \<Rightarrow> (map_res Some (unmarshal_job (errors s) v), w'))"

text \<open>Both updates write to the job that \<open>Get\<close> returned without looking whether it is nil.\<close>

definition UpdateStatus ::
  "('w, 'c, 'r) store \<Rightarrow> string \<Rightarrow> status \<Rightarrow> string list \<Rightarrow> ('w, unit) act" where
  "UpdateStatus s scanJobID newStatus error =
     bind_act (Get s scanJobID) (\<lambda>r.
       case r of
         None \<Rightarrow> panicking NilDereference
       | Some scanJob \<Rightarrow>
           let scanJob = scanJob\<lparr>job_Status := newStatus\<rparr>;
               scanJob = (if length error > 0 then scanJob\<lparr>job_Error := error ! 0\<rparr> else scanJob)
           in update s scanJob)"

definition UpdateReport ::
  "('w, 'c, 'r) store \<Rightarrow> string \<Rightarrow> ScanReport \<Rightarrow> ('w, unit) act" where
  "UpdateReport s scanJobID report =
     bind_act (Get s scanJobID) (\<lambda>r.
       case r of
         None \<Rightarrow> panicking NilDereference
       | Some scanJob \<Rightarrow> update s (scanJob\<lparr>job_Report := report\<rparr>))"

text \<open>The interface \<open>persistence.Store\<close>, and the store as one.\<close>

record 'w Store =
  Create_of :: "ScanJob \<Rightarrow> ('w, unit) act"
  Get_of :: "string \<Rightarrow> ('w, ScanJob option) act"
  UpdateStatus_of :: "string \<Rightarrow> status \<Rightarrow> string list \<Rightarrow> ('w, unit) act"
  UpdateReport_of :: "string \<Rightarrow> ScanReport \<Rightarrow> ('w, unit) act"

definition NewStore :: "('w, 'c, 'r) store \<Rightarrow> 'w Store" where
  "NewStore s = \<lparr>Create_of = Create s, Get_of = Get s, UpdateStatus_of = UpdateStatus s,
                 UpdateReport_of = UpdateReport s\<rparr>"

subsection \<open>Lemmas\<close>

lemma key_inject [simp]: "getKeyForScanJob s a = getKeyForScanJob s b \<longleftrightarrow> a = b"
  by (simp add: getKeyForScanJob_def)

lemma fst_with_conn:
  "ra_Get (pool s) w = (c, w1) \<Longrightarrow> body c w1 = (r, w2) \<Longrightarrow> ra_Close (pool s) c w2 = (e, w3) \<Longrightarrow>
     with_conn s body w = (r, w3)"
  by (simp add: with_conn_def)

lemma with_conn_cases:
  assumes "with_conn s body w = (r, w')"
  obtains c w1 w2 e where "ra_Get (pool s) w = (c, w1)" and "body c w1 = (r, w2)"
    and "ra_Close (pool s) c w2 = (e, w')"
  using assms by (auto simp: with_conn_def split: prod.splits)

lemma returns_with_conn: "(\<And>c. returns (body c)) \<Longrightarrow> returns (with_conn s body)"
  by (auto simp: returns_def with_conn_def split: prod.splits) (metis fst_conv)

lemma returns_set_job: "returns (set_job s mode what j)"
  unfolding set_job_def
  by (intro returns_with_conn returns_bind returns_wrap returns_act)
     (simp add: is_Panic_iff returns_act)

lemma returns_Create: "returns (Create s j)" and returns_update: "returns (update s j)"
  by (simp_all add: Create_def update_def returns_set_job)

lemma returns_Get: "returns (Get s i)"
  unfolding Get_def
  by (rule returns_with_conn) (auto simp: returns_def is_Panic_iff split: prod.split string_reply.split)

lemma not_Panic [simp]:
  "update s j w \<noteq> (Panic p, w')" "Create s j w \<noteq> (Panic p, w')" "Get s i w \<noteq> (Panic p, w')"
  by (simp_all add: returnsD returns_update returns_Create returns_Get)

text \<open>The only way an update does not return is that there is no such job.\<close>

lemma UpdateStatus_Panic:
  "UpdateStatus s i st e w = (Panic p, w') \<longleftrightarrow> Get s i w = (Ok None, w') \<and> p = NilDereference"
  by (auto simp: UpdateStatus_def bind_act_def panicking_def Let_def
      split: prod.splits res.splits option.splits)

lemma UpdateReport_Panic:
  "UpdateReport s i r w = (Panic p, w') \<longleftrightarrow> Get s i w = (Ok None, w') \<and> p = NilDereference"
  by (auto simp: UpdateReport_def bind_act_def panicking_def
      split: prod.splits res.splits option.splits)

subsection \<open>Whole seconds are exact\<close>

lemma bit_len_double: "0 < n \<Longrightarrow> bit_len (2 * n) = Suc (bit_len n)"
  by (simp add: bit_len.simps [of "2 * n"])

lemma bit_len_shift: "0 < n \<Longrightarrow> bit_len (n * 2 ^ k) = bit_len n + k"
proof (induction k)
  case (Suc k)
  then show ?case using bit_len_double [of "n * 2 ^ k"] by (simp add: mult.commute mult.left_commute)
qed simp

lemma bit_len_bound: "n < 2 ^ k \<Longrightarrow> bit_len n \<le> k"
proof (induction k arbitrary: n)
  case 0
  then show ?case by (simp add: bit_len.simps)
next
  case (Suc k)
  then have "bit_len (n div 2) \<le> k" by simp
  then show ?case by (simp add: bit_len.simps [of n])
qed

lemma round53_dvd: "2 ^ (bit_len n - 53) dvd n \<Longrightarrow> round53 n 1 = n"
  by (simp add: round53_def Let_def)

lemma round53_exact:
  assumes "0 \<le> s" and "s < 2 ^ 53"
  shows "round53 (s * 2 ^ 90) 1 = s * 2 ^ 90"
proof (cases "s = 0")
  case True
  then show ?thesis by (simp add: round53_def Let_def)
next
  case False
  then have "bit_len (s * 2 ^ 90) - 53 \<le> 90"
    using bit_len_shift [of s 90] bit_len_bound [OF assms(2)] assms(1) by simp
  then have "(2::int) ^ (bit_len (s * 2 ^ 90) - 53) dvd 2 ^ 90" by (rule le_imp_power_dvd)
  then have "2 ^ (bit_len (s * 2 ^ 90) - 53) dvd (s * 2 ^ 90)" by (rule dvd_mult)
  then show ?thesis by (rule round53_dvd)
qed

theorem duration_seconds_whole:
  assumes "0 \<le> n" and "n < 2 ^ 53"
  shows "duration_seconds (n * 1000000000) = n"
  using round53_exact [OF assms] assms
  by (cases "n = 0") (simp_all add: duration_seconds_def Let_def round53_def [of 0] sgn_mult)

subsection \<open>Properties\<close>

text \<open>
  C21. Both updates dereference the job they read without looking whether there is one: for any
  Redis library they fail to return exactly when reading the key gave no job and no error, in
  the world that read left. No other operation of the store ever panics.
\<close>

theorem update_panics_iff_no_job:
  "((\<exists>p. UpdateStatus s i st es w = (Panic p, w')) \<longleftrightarrow> Get s i w = (Ok None, w')) \<and>
   ((\<exists>p. UpdateReport s i rep w = (Panic p, w')) \<longleftrightarrow> Get s i w = (Ok None, w')) \<and>
   returns (Create s j) \<and> returns (Get s i)"
  by (simp add: UpdateStatus_Panic UpdateReport_Panic returns_Create returns_Get)

definition counts_connections :: "('w, 'c, 'r) redis_lib \<Rightarrow> ('w \<Rightarrow> int) \<Rightarrow> bool" where
  "counts_connections lib held \<longleftrightarrow>
     (\<forall>w. held (snd (ra_Get lib w)) = held w + 1) \<and>
     (\<forall>c w. held (snd (ra_Close lib c w)) = held w - 1) \<and>
     (\<forall>c cmd args w. held (snd (ra_Do lib c cmd args w)) = held w)"

lemma held_with_conn:
  assumes "counts_connections (pool s) held" and "\<And>c w. held (snd (body c w)) = held w"
  shows "keeps (\<lambda>w w'. held w' = held w) (with_conn s body)"
  using assms unfolding keeps_def with_conn_def counts_connections_def
  by (simp add: split_beta)

lemma held_set_job:
  assumes "counts_connections (pool s) held"
  shows "keeps (\<lambda>w w'. held w' = held w) (set_job s mode what j)"
  unfolding set_job_def
proof (rule held_with_conn [OF assms], rule keeps_snd [where R = "\<lambda>w w'. held w' = held w"])
  let ?R = "\<lambda>w w'. held w' = held w"
  have R: "preorder_rel ?R" by (simp add: preorder_rel_def)
  show "keeps ?R (bind_act (wrap_act m (lift_res r)) (\<lambda>b.
      bind_act (wrap_act n (lib_act (ra_Do (pool s) c cmd (f b)))) (\<lambda>_. ret ())))" for m n r c cmd f
    by (intro keeps_bind keeps_wrap R) (use assms in \<open>auto simp: keeps_act [OF R] keeps_lib counts_connections_def\<close>)
qed

lemma held_Get:
  assumes "counts_connections (pool s) held"
  shows "keeps (\<lambda>w w'. held w' = held w) (Get s i)"
  unfolding Get_def
  by (rule held_with_conn [OF assms])
     (use assms in \<open>auto simp: counts_connections_def split: prod.split string_reply.split, (metis snd_conv)+\<close>)

text \<open>
  C22. No connection leaks: whatever the library answers, and also when the operation panics or
  fails, every operation of the store gives back each connection it took, so the number of
  connections in use is what it was before. The library takes one connection with \<open>Get\<close>,
  gives one back with \<open>Close\<close>, and keeps the number in \<open>Do\<close>.
\<close>

theorem connections_balanced:
  assumes "counts_connections (pool s) held"
  shows "held (snd (Create s j w)) = held w \<and> held (snd (Get s i w)) = held w \<and>
    held (snd (UpdateStatus s i st es w)) = held w \<and> held (snd (UpdateReport s i rep w)) = held w"
proof -
  let ?R = "\<lambda>w w'. held w' = held w"
  have R: "preorder_rel ?R" by (simp add: preorder_rel_def)
  note k = held_set_job [OF assms] held_Get [OF assms]
  have "keeps ?R (UpdateStatus s i st es)" "keeps ?R (UpdateReport s i rep)"
    unfolding UpdateStatus_def UpdateReport_def update_def Let_def
    by (intro keeps_bind R k(2); auto simp: keeps_act [OF R] k(1) split: option.split)+
  with k show ?thesis by (simp add: keeps_def Create_def)
qed

end
