(* ===== verification/RedisContract.thy ===== *)
theory RedisContract
  imports RedisStore
begin

text \<open>
  What the store promises, and why it does. \<open>redis_server\<close> states the documented behaviour of
  the two commands the program sends, over an abstraction of the server: the value and the
  expiry of each key, and a clock in milliseconds. \<open>scan_store\<close> is the contract of the
  interface \<open>persistence.Store\<close> towards its clients, over jobs instead of bytes. The store of
  \<open>RedisStore\<close> on such a server meets it (\<open>sublocale\<close>). \<open>MemRedis\<close> has a server that meets
  the laws: it keeps its keys in memory and fails when its script says so.
\<close>

subsection \<open>Values with an expiry\<close>

type_synonym 'v expiring = "string \<Rightarrow> ('v \<times> int) option"

definition live :: "int \<Rightarrow> 'v expiring \<Rightarrow> string \<Rightarrow> 'v option" where
  "live t m k = (case m k of None \<Rightarrow> None | Some (v, d) \<Rightarrow> if t < d then Some v else None)"

text \<open>\<open>SET k v NX EX n\<close> and \<open>SET k v XX EX n\<close> at an instant.\<close>

definition set_effect :: "string \<Rightarrow> int \<Rightarrow> string \<Rightarrow> 'v \<Rightarrow> int \<Rightarrow> 'v expiring \<Rightarrow> 'v expiring" where
  "set_effect mode t k v n m =
     (if (mode = ''NX'') = (live t m k = None) then m(k \<mapsto> (v, t + 1000 * n)) else m)"

lemma live_mono: "live t' m k = Some v \<Longrightarrow> t \<le> t' \<Longrightarrow> live t m k = Some v"
  by (auto simp: live_def split: option.splits if_splits)

lemma live_gone: "live t m k = None \<Longrightarrow> t \<le> t' \<Longrightarrow> live t' m k = None"
  by (auto simp: live_def split: option.splits if_splits)

lemma live_upd: "live t (m(k \<mapsto> (v, d))) k' = (if k' = k then (if t < d then Some v else None) else live t m k')"
  by (simp add: live_def)

subsection \<open>The server\<close>

locale redis_server =
  fixes lib :: "('w, 'c, 'r) redis_lib"
    and db :: "'w \<Rightarrow> string expiring"
    and clock :: "'w \<Rightarrow> int"
  assumes get_conn: "ra_Get lib w = (c, w1) \<Longrightarrow> db w1 = db w \<and> clock w \<le> clock w1"
    and close_conn: "ra_Close lib c w = (e, w1) \<Longrightarrow> db w1 = db w \<and> clock w \<le> clock w1"
    and do_set: "ra_Do lib c ''SET'' [k, v, mode, ''EX'', itoa n] w = (r, w1) \<Longrightarrow>
      mode \<in> {''NX'', ''XX''} \<Longrightarrow>
      \<exists>t. clock w \<le> t \<and> t \<le> clock w1 \<and>
        (db w1 = set_effect mode t k v n (db w) \<or> (\<exists>e. r = Inl e) \<and> db w1 = db w)"
    and do_get: "ra_Do lib c ''GET'' [k] w = (r, w1) \<Longrightarrow>
      db w1 = db w \<and>
      (\<exists>t. clock w \<le> t \<and> t \<le> clock w1 \<and>
        (case ra_String lib r of
           GotString v \<Rightarrow> live t (db w) k = Some v
         | GotErrNil \<Rightarrow> live t (db w) k = None
         | GotErr e \<Rightarrow> True))"

subsection \<open>The contract of the store\<close>

definition with_status :: "status \<Rightarrow> string list \<Rightarrow> ScanJob \<Rightarrow> ScanJob" where
  "with_status st error j =
     (let j = j\<lparr>job_Status := st\<rparr> in if error = [] then j else j\<lparr>job_Error := error ! 0\<rparr>)"

definition with_report :: "ScanReport \<Rightarrow> ScanJob \<Rightarrow> ScanJob" where
  "with_report r j = j\<lparr>job_Report := r\<rparr>"

lemma with_sel [simp]:
  "job_ID (with_status st e j) = job_ID j" "job_Status (with_status st e j) = st"
  "job_Report (with_status st e j) = job_Report j"
  "job_Error (with_status st e j) = (if e = [] then job_Error j else e ! 0)"
  "job_ID (with_report r j) = job_ID j" "job_Status (with_report r j) = job_Status j"
  "job_Error (with_report r j) = job_Error j" "job_Report (with_report r j) = r"
  by (simp_all add: with_status_def with_report_def Let_def)

text \<open>
  An update of a job at \<open>t\<close>, given what was read of it before: it is written over a live job
  with a new expiry, and lost when the job has expired since.
\<close>

definition rewrite :: "int \<Rightarrow> int \<Rightarrow> string \<Rightarrow> ScanJob \<Rightarrow> ScanJob expiring \<Rightarrow> ScanJob expiring" where
  "rewrite ttl t i j m = (if live t m i = None then m else m(i \<mapsto> (j, t + 1000 * ttl)))"

text \<open>
  A job that was live at some moment between two worlds was rewritten with the change \<open>f\<close> at
  a later one; and what an update may do, for each way it can end.
\<close>

definition written ::
  "(ScanJob \<Rightarrow> ScanJob) \<Rightarrow> int \<Rightarrow> string \<Rightarrow> int \<Rightarrow> ScanJob expiring \<Rightarrow> int \<Rightarrow> ScanJob expiring \<Rightarrow> bool"
where
  "written f ttl i t0 m t1 m' \<longleftrightarrow>
     (\<exists>t t' j. t0 \<le> t \<and> t \<le> t' \<and> t' \<le> t1 \<and> live t m i = Some j \<and> m' = rewrite ttl t' i (f j) m)"

fun updated ::
  "(ScanJob \<Rightarrow> ScanJob) \<Rightarrow> int \<Rightarrow> string \<Rightarrow> int \<Rightarrow> ScanJob expiring \<Rightarrow> unit res \<Rightarrow> int \<Rightarrow> ScanJob expiring \<Rightarrow> bool"
where
  "updated f ttl i t0 m (Ok u) t1 m' \<longleftrightarrow> written f ttl i t0 m t1 m'"
| "updated f ttl i t0 m (Err e) t1 m' \<longleftrightarrow> m' = m \<or> written f ttl i t0 m t1 m'"
| "updated f ttl i t0 m (Panic p) t1 m' \<longleftrightarrow> p = NilDereference \<and> m' = m \<and> live t1 m i = None"

lemma writtenI:
  "live t m i = Some j \<Longrightarrow> t0 \<le> t \<Longrightarrow> t \<le> t2 \<Longrightarrow> t2 \<le> t' \<Longrightarrow> t' \<le> t1 \<Longrightarrow>
     m' = rewrite ttl t' i (f j) m \<Longrightarrow> written f ttl i t0 m t1 m'"
  unfolding written_def using order_trans [of t t2 t'] by blast

lemma updated_written: "written f ttl i t0 m t1 m' \<Longrightarrow> \<not> is_Panic r \<Longrightarrow> updated f ttl i t0 m r t1 m'"
  by (cases r) auto

locale scan_store =
  fixes create :: "ScanJob \<Rightarrow> ('w, unit) act"
    and get :: "string \<Rightarrow> ('w, ScanJob option) act"
    and update_status :: "string \<Rightarrow> status \<Rightarrow> string list \<Rightarrow> ('w, unit) act"
    and update_report :: "string \<Rightarrow> ScanReport \<Rightarrow> ('w, unit) act"
    and jobs :: "'w \<Rightarrow> ScanJob expiring"
    and ok :: "'w \<Rightarrow> bool"
    and clock :: "'w \<Rightarrow> int"
    and ttl :: int
  assumes create_law: "ok w \<Longrightarrow> storable j \<Longrightarrow> valid_utf8 (job_ID j) \<Longrightarrow> create j w = (r, w') \<Longrightarrow>
      ok w' \<and> \<not> is_Panic r \<and>
      (\<exists>t. clock w \<le> t \<and> t \<le> clock w' \<and>
        (jobs w' = set_effect ''NX'' t (job_ID j) (stored_job j) ttl (jobs w) \<or>
         (\<exists>e. r = Err e) \<and> jobs w' = jobs w))"
    and get_law: "ok w \<Longrightarrow> get i w = (x, w') \<Longrightarrow>
      ok w' \<and> jobs w' = jobs w \<and>
      (\<exists>t. clock w \<le> t \<and> t \<le> clock w' \<and>
        (case x of Ok v \<Rightarrow> live t (jobs w) i = v | Err e \<Rightarrow> True | Panic p \<Rightarrow> False))"
    and status_law: "ok w \<Longrightarrow> - (2 ^ 63) \<le> st \<Longrightarrow> st < 2 ^ 63 \<Longrightarrow>
      update_status i st es w = (r, w') \<Longrightarrow>
      ok w' \<and> clock w \<le> clock w' \<and>
      updated (with_status st (map sanitise es)) ttl i (clock w) (jobs w) r (clock w') (jobs w')"
    and report_law: "ok w \<Longrightarrow> valid_time (rep_GeneratedAt rep) \<Longrightarrow>
      update_report i rep w = (r, w') \<Longrightarrow>
      ok w' \<and> clock w \<le> clock w' \<and>
      updated (with_report (stored_report rep)) ttl i (clock w) (jobs w) r (clock w') (jobs w')"
begin

text \<open>Clients look at the job that is live now.\<close>

definition job_at :: "'w \<Rightarrow> string \<Rightarrow> ScanJob option" where
  "job_at w i = live (clock w) (jobs w) i"

lemma updated_frame:
  "updated f ttl i t0 m r t1 m' \<Longrightarrow> k \<noteq> i \<Longrightarrow> m' k = m k"
  by (cases r) (auto simp: written_def rewrite_def split: if_splits)

text \<open>After an update that returned no error, a job that is still there has the change.\<close>

lemma updated_ok:
  assumes "updated f ttl i t0 m (Ok u) t1 m'" and "live t1 m' i = Some j'"
  obtains j where "live t0 m i = Some j" and "j' = f j"
proof -
  from assms(1) obtain t t' j where t: "t0 \<le> t" "t \<le> t'" "t' \<le> t1" and j: "live t m i = Some j"
    and m': "m' = rewrite ttl t' i (f j) m"
    by (auto simp: written_def)
  have "live t' m i \<noteq> None"
  proof
    assume "live t' m i = None"
    with m' have "m' = m" by (simp add: rewrite_def)
    with assms(2) t(3) \<open>live t' m i = None\<close> show False using live_gone by fastforce
  qed
  with assms(2) m' have "j' = f j" by (auto simp: rewrite_def live_upd split: if_splits)
  moreover have "live t0 m i = Some j" using j t(1) by (rule live_mono)
  ultimately show thesis by (intro that)
qed

text \<open>An update finds the job whenever it is still live at the end: it cannot panic then.\<close>

lemma updated_no_panic:
  "updated f ttl i t0 m r t1 m' \<Longrightarrow> live t1 m i \<noteq> None \<Longrightarrow> \<not> is_Panic r"
  by (cases r) auto

lemma get_job_at:
  assumes "ok w" and "get i w = (Ok (Some j), w')"
  shows "job_at w i = Some j" and "jobs w' = jobs w"
  using get_law [OF assms] by (auto simp: job_at_def dest: live_mono)

lemma get_returns:
  assumes "ok w" and "get i w = (r, w')" and "job_at w' i \<noteq> None"
  shows "r = Ok (job_at w i) \<or> (\<exists>e. r = Err e)"
proof -
  obtain j where j: "live (clock w') (jobs w) i = Some j"
    using assms(3) get_law [OF assms(1,2)] by (auto simp: job_at_def)
  from get_law [OF assms(1,2)] obtain t where t: "clock w \<le> t" "t \<le> clock w'"
    "case r of Ok x \<Rightarrow> live t (jobs w) i = x | Err e \<Rightarrow> True | Panic p \<Rightarrow> False" by blast
  have "live t (jobs w) i = Some j" "live (clock w) (jobs w) i = Some j"
    using live_mono [OF j] t by auto
  with t(3) show ?thesis by (cases r) (auto simp: job_at_def)
qed

text \<open>A job just created is the one read back, until it expires.\<close>

lemma create_get:
  assumes "ok w" and "storable j" and "valid_utf8 (job_ID j)" and "jobs w (job_ID j) = None"
    and "create j w = (Ok (), w1)"
    and "get (job_ID j) w1 = (Ok x, w2)" and "clock w2 < clock w + 1000 * ttl"
  shows "x = Some (stored_job j)"
proof -
  from create_law [OF assms(1-3,5)] obtain t where ok1: "ok w1" and t: "clock w \<le> t" "t \<le> clock w1"
    and m: "jobs w1 = set_effect ''NX'' t (job_ID j) (stored_job j) ttl (jobs w)"
    by auto
  have "live t (jobs w) (job_ID j) = None" by (simp add: live_def assms(4))
  with m have m1: "jobs w1 = (jobs w)(job_ID j \<mapsto> (stored_job j, t + 1000 * ttl))"
    by (simp add: set_effect_def)
  from get_law [OF ok1 assms(6)] obtain t' where "t' \<le> clock w2" "live t' (jobs w1) (job_ID j) = x"
    by auto
  with m1 assms(7) t(1) show ?thesis by (auto simp: live_upd)
qed

end

subsection \<open>The store meets it\<close>

text \<open>
  The job behind a key. All the values under the store's keys are jobs it printed itself,
  each under its own identifier, and this is what makes every value decode.
\<close>

definition entry_of :: "('w, 'c, 'r) store \<Rightarrow> string expiring \<Rightarrow> ScanJob expiring" where
  "entry_of s m i =
     (case m (getKeyForScanJob s i) of
        None \<Rightarrow> None
      | Some (v, d) \<Rightarrow>
          (case unmarshal_job (errors s) v of Ok j \<Rightarrow> Some (j, d) | _ \<Rightarrow> None))"

definition good_value :: "json_errors \<Rightarrow> string \<Rightarrow> string \<Rightarrow> bool" where
  "good_value je i v \<longleftrightarrow>
     (\<exists>j. unmarshal_job je v = Ok j \<and> storable j \<and> stored_job j = j \<and> job_ID j = i)"

definition store_ok :: "('w, 'c, 'r) store \<Rightarrow> string expiring \<Rightarrow> bool" where
  "store_ok s m \<longleftrightarrow>
     (\<forall>i v d. m (getKeyForScanJob s i) = Some (v, d) \<longrightarrow> good_value (errors s) i v)"

lemma good_value_unmarshal:
  assumes "good_value je i v"
  obtains j where "unmarshal_job je v = Ok j" and "storable j" and "stored_job j = j"
    and "job_ID j = i"
  using assms unfolding good_value_def by blast

lemma good_value_marshal:
  assumes "storable j" and "valid_utf8 (job_ID j)" and "marshal_job je j = Ok v"
  shows "good_value je (job_ID j) v" and "unmarshal_job je v = Ok (stored_job j)"
proof -
  show "unmarshal_job je v = Ok (stored_job j)"
    by (rule unmarshal_marshal_job_eq [OF assms(1,3)])
  then show "good_value je (job_ID j) v"
    using assms(1,2) by (simp add: good_value_def valid_utf8_def)
qed

lemma store_okD:
  assumes "store_ok s m" and "m (getKeyForScanJob s i) = Some (v, d)"
  obtains j where "unmarshal_job (errors s) v = Ok j" and "entry_of s m i = Some (j, d)"
    and "storable j" and "stored_job j = j" and "job_ID j = i"
proof -
  from assms have "good_value (errors s) i v" by (auto simp: store_ok_def)
  then obtain j where j: "unmarshal_job (errors s) v = Ok j" "storable j" "stored_job j = j" "job_ID j = i"
    by (rule good_value_unmarshal)
  then show thesis by (intro that) (simp_all add: entry_of_def assms(2))
qed

lemma live_entry:
  assumes "store_ok s m"
  shows "live t (entry_of s m) i =
    (case live t m (getKeyForScanJob s i) of
       None \<Rightarrow> None
     | Some v \<Rightarrow> (case unmarshal_job (errors s) v of Ok j \<Rightarrow> Some j | _ \<Rightarrow> None))"
proof (cases "m (getKeyForScanJob s i)")
  case None
  then show ?thesis by (simp add: live_def entry_of_def)
next
  case (Some vd)
  obtain v d where vd: "vd = (v, d)" by fastforce
  obtain j where "unmarshal_job (errors s) v = Ok j" "entry_of s m i = Some (j, d)"
    using store_okD [OF assms Some [unfolded vd]] by blast
  with Some vd show ?thesis by (simp add: live_def)
qed

lemma live_entry_None:
  assumes "store_ok s m"
  shows "live t (entry_of s m) i = None \<longleftrightarrow> live t m (getKeyForScanJob s i) = None"
proof (cases "live t m (getKeyForScanJob s i)")
  case None
  then show ?thesis by (simp add: live_entry [OF assms])
next
  case (Some v)
  then obtain d where "m (getKeyForScanJob s i) = Some (v, d)"
    by (auto simp: live_def split: option.splits if_splits)
  then obtain j where "unmarshal_job (errors s) v = Ok j" by (rule store_okD [OF assms])
  with Some show ?thesis by (simp add: live_entry [OF assms])
qed

lemma live_entry_storable:
  assumes "store_ok s m" and "live t (entry_of s m) i = Some j"
  shows "storable j \<and> stored_job j = j \<and> job_ID j = i"
proof -
  from assms(2) obtain d where e: "entry_of s m i = Some (j, d)"
    by (auto simp: live_def split: option.splits if_splits)
  then obtain v where v: "m (getKeyForScanJob s i) = Some (v, d)"
    by (auto simp: entry_of_def split: option.splits res.splits)
  show ?thesis by (rule store_okD [OF assms(1) v]) (use e in simp)
qed

text \<open>Writing a storable job, seen through the abstraction.\<close>

lemma set_effect_store:
  assumes "store_ok s m" and "storable j" and "valid_utf8 (job_ID j)"
    and "marshal_job (errors s) j = Ok v" and m': "m' = set_effect mode t (getKeyForScanJob s (job_ID j)) v n m"
  shows "store_ok s m'"
    and "entry_of s m' = set_effect mode t (job_ID j) (stored_job j) n (entry_of s m)"
proof -
  show "store_ok s m'"
    using assms(1) good_value_marshal(1) [OF assms(2-4)]
    by (auto simp: m' set_effect_def store_ok_def)
  show "entry_of s m' = set_effect mode t (job_ID j) (stored_job j) n (entry_of s m)"
    using good_value_marshal(2) [OF assms(2-4)]
    by (auto simp: m' set_effect_def live_entry_None [OF assms(1)] entry_of_def fun_eq_iff)
qed

lemma set_effect_XX: "set_effect ''XX'' t i j ttl m = rewrite ttl t i j m"
  by (simp add: set_effect_def rewrite_def)

lemma stored_job_fixed:
  assumes "stored_job j = j"
  shows "sanitise (job_ID j) = job_ID j" "sanitise (job_Error j) = job_Error j"
    "stored_report (job_Report j) = job_Report j"
  using stored_job_sel [of j] assms by simp_all

text \<open>Both updates are a read, a change of the job, and a write under the same key.\<close>

definition modify :: "('w, 'c, 'r) store \<Rightarrow> string \<Rightarrow> (ScanJob \<Rightarrow> ScanJob) \<Rightarrow> ('w, unit) act" where
  "modify s i f = bind_act (Get s i) (\<lambda>r.
     case r of None \<Rightarrow> panicking NilDereference | Some j \<Rightarrow> update s (f j))"

lemma UpdateStatus_modify: "UpdateStatus s i st es = modify s i (with_status st es)"
  by (cases es) (simp_all add: UpdateStatus_def modify_def with_status_def Let_def cong: option.case_cong)

lemma UpdateReport_modify: "UpdateReport s i rep = modify s i (with_report rep)"
  by (simp add: UpdateReport_def modify_def with_report_def cong: option.case_cong)

locale redis_store = redis_server "pool s" db clock
  for s :: "('w, 'c, 'r) store" and db :: "'w \<Rightarrow> string expiring" and clock :: "'w \<Rightarrow> int"
begin

definition ttl_secs :: int where
  "ttl_secs = duration_seconds (st_ScanJobTTL (cfg s))"

definition jobs_in :: "'w \<Rightarrow> ScanJob expiring" where
  "jobs_in w = entry_of s (db w)"

definition ok_in :: "'w \<Rightarrow> bool" where
  "ok_in w \<longleftrightarrow> store_ok s (db w)"

lemma set_job_law:
  assumes "ok_in w" and "storable j" and utf8: "valid_utf8 (job_ID j)" and mode: "mode \<in> {''NX'', ''XX''}"
    and "set_job s mode what j w = (r, w')"
  shows "ok_in w' \<and> \<not> is_Panic r \<and>
    (\<exists>t. clock w \<le> t \<and> t \<le> clock w' \<and>
      (jobs_in w' = set_effect mode t (job_ID j) (stored_job j) ttl_secs (jobs_in w) \<or>
       (\<exists>e. r = Err e) \<and> jobs_in w' = jobs_in w))"
proof -
  obtain v where v: "marshal_job (errors s) j = Ok v"
    using unmarshal_marshal_job [OF assms(2)] by blast
  let ?k = "getKeyForScanJob s (job_ID j)"
  from assms(5) [unfolded set_job_def] obtain c w1 w2 e where
    c: "ra_Get (pool s) w = (c, w1)" and cl: "ra_Close (pool s) c w2 = (e, w')"
    and b: "bind_act (wrap_act what (lib_act (ra_Do (pool s) c ''SET''
           [?k, v, mode, ''EX'', itoa ttl_secs]))) (\<lambda>_. ret ()) w1 = (r, w2)"
    by (elim with_conn_cases) (simp add: v bind_act_def wrap_act_def lift_res_def ttl_secs_def)
  obtain dr w3 where d: "ra_Do (pool s) c ''SET'' [?k, v, mode, ''EX'', itoa ttl_secs] w1 = (dr, w3)"
    by fastforce
  from b d have w3: "w3 = w2" and r: "r = (case dr of Inl x \<Rightarrow> Err (what @ x) | Inr _ \<Rightarrow> Ok ())"
    by (cases dr; simp add: bind_act_def wrap_act_def lib_act_def ret_def)+
  from do_set [OF d mode] obtain t where t: "clock w1 \<le> t" "t \<le> clock w2"
    and eff: "db w2 = set_effect mode t ?k v ttl_secs (db w1) \<or> (\<exists>e. dr = Inl e) \<and> db w2 = db w1"
    by (auto simp: w3)
  have outer: "db w1 = db w" "clock w \<le> clock w1" "db w' = db w2" "clock w2 \<le> clock w'"
    using get_conn [OF c] close_conn [OF cl] by auto
  have ok: "store_ok s (db w)" using assms(1) by (simp add: ok_in_def)
  note se = set_effect_store [OF ok assms(2) utf8 v refl, of mode t ttl_secs]
  have "ok_in w'"
    using eff ok se(1) by (auto simp: ok_in_def outer)
  moreover have "\<not> is_Panic r" by (simp add: r split: sum.split)
  moreover have "jobs_in w' = set_effect mode t (job_ID j) (stored_job j) ttl_secs (jobs_in w) \<or>
       (\<exists>e. r = Err e) \<and> jobs_in w' = jobs_in w"
    using eff se(2) by (auto simp: jobs_in_def outer r)
  moreover have "clock w \<le> t" "t \<le> clock w'" using t outer by auto
  ultimately show ?thesis by blast
qed

lemma Get_law:
  assumes "ok_in w" and "Get s i w = (x, w')"
  shows "ok_in w' \<and> jobs_in w' = jobs_in w \<and>
      (\<exists>t. clock w \<le> t \<and> t \<le> clock w' \<and>
        (case x of Ok v \<Rightarrow> live t (jobs_in w) i = v | Err e \<Rightarrow> True | Panic p \<Rightarrow> False))"
proof -
  let ?k = "getKeyForScanJob s i"
  from assms(2) [unfolded Get_def] obtain c w1 w2 e where
    c: "ra_Get (pool s) w = (c, w1)" and cl: "ra_Close (pool s) c w2 = (e, w')"
    and b: "(let (reply, w'') = ra_Do (pool s) c ''GET'' [?k] w1 in
       case ra_String (pool s) reply of
         GotErrNil \<Rightarrow> (Ok None, w'')
       | GotErr e \<Rightarrow> (Err e, w'')
       | GotString v \<Rightarrow> (map_res Some (unmarshal_job (errors s) v), w'')) = (x, w2)"
    by (elim with_conn_cases)
  obtain reply w3 where d: "ra_Do (pool s) c ''GET'' [?k] w1 = (reply, w3)" by fastforce
  from b d have w3: "w3 = w2" by (auto split: string_reply.splits)
  from do_get [OF d] obtain t where t: "clock w1 \<le> t" "t \<le> clock w2" and m: "db w2 = db w1"
    and l: "case ra_String (pool s) reply of GotString v \<Rightarrow> live t (db w1) ?k = Some v
       | GotErrNil \<Rightarrow> live t (db w1) ?k = None | GotErr e \<Rightarrow> True"
    by (auto simp: w3)
  have outer: "db w1 = db w" "clock w \<le> clock w1" "db w' = db w2" "clock w2 \<le> clock w'"
    using get_conn [OF c] close_conn [OF cl] by auto
  have ok: "store_ok s (db w)" using assms(1) by (simp add: ok_in_def)
  have res: "case x of Ok v \<Rightarrow> live t (jobs_in w) i = v | Err e \<Rightarrow> True | Panic p \<Rightarrow> False"
  proof (cases "ra_String (pool s) reply")
    case (GotString v)
    with l outer have lv: "live t (db w) ?k = Some v" by simp
    then obtain dl where "db w ?k = Some (v, dl)"
      by (auto simp: live_def split: option.splits if_splits)
    then obtain j where "unmarshal_job (errors s) v = Ok j" by (rule store_okD [OF ok])
    with GotString b d lv show ?thesis
      by (auto simp: jobs_in_def live_entry [OF ok])
  qed (use b d l outer in \<open>auto simp: jobs_in_def live_entry [OF ok]\<close>)
  have "ok_in w'" "jobs_in w' = jobs_in w" using ok m outer by (simp_all add: ok_in_def jobs_in_def)
  moreover have "clock w \<le> t" "t \<le> clock w'" using t outer by auto
  ultimately show ?thesis using res by blast
qed

lemma modify_law:
  assumes ok: "ok_in w" and m: "modify s i f w = (r, w')"
    and f: "\<And>j. storable j \<Longrightarrow> stored_job j = j \<Longrightarrow>
       storable (f j) \<and> job_ID (f j) = job_ID j \<and> stored_job (f j) = g j"
  shows "ok_in w' \<and> clock w \<le> clock w' \<and>
    updated g ttl_secs i (clock w) (jobs_in w) r (clock w') (jobs_in w')"
proof -
  obtain x w1 where x: "Get s i w = (x, w1)" by fastforce
  from Get_law [OF ok x] obtain t where ok1: "ok_in w1" and j1: "jobs_in w1 = jobs_in w"
    and t: "clock w \<le> t" "t \<le> clock w1"
    and res: "case x of Ok v \<Rightarrow> live t (jobs_in w) i = v | Err e \<Rightarrow> True | Panic p \<Rightarrow> False"
    by blast
  show ?thesis
  proof (cases x)
    case (Err e)
    with m x have "r = Err e" "w' = w1" by (simp_all add: modify_def bind_act_def)
    with ok1 j1 t show ?thesis by simp
  next
    case (Panic p)
    with res show ?thesis by simp
  next
    case (Ok v)
    show ?thesis
    proof (cases v)
      case None
      with Ok m x have "r = Panic NilDereference" "w' = w1"
        by (simp_all add: modify_def bind_act_def panicking_def)
      with ok1 j1 t res Ok None show ?thesis by (auto intro: live_gone)
    next
      case (Some j)
      with Ok res have lj: "live t (jobs_in w) i = Some j" by simp
      with ok have sj: "storable j" "stored_job j = j" "job_ID j = i"
        using live_entry_storable [of s "db w" t i j] by (simp_all add: ok_in_def jobs_in_def)
      note fj = f [OF sj(1,2)]
      from m x Ok Some have "set_job s ''XX'' ''updating scan job: '' (f j) w1 = (r, w')"
        by (simp add: modify_def bind_act_def update_def)
      moreover have "valid_utf8 (job_ID (f j))"
        using fj stored_job_fixed(1) [OF sj(2)] by (simp add: valid_utf8_def)
      ultimately obtain t' where ok': "ok_in w'" and np: "\<not> is_Panic r"
        and t': "clock w1 \<le> t'" "t' \<le> clock w'"
        and eff: "jobs_in w' = rewrite ttl_secs t' i (g j) (jobs_in w) \<or>
           (\<exists>e. r = Err e) \<and> jobs_in w' = jobs_in w"
        using set_job_law [OF ok1, of "f j" "''XX''" "''updating scan job: ''" r w'] fj
        by (auto simp: set_effect_XX sj j1)
      have "updated g ttl_secs i (clock w) (jobs_in w) r (clock w') (jobs_in w')"
        using eff
      proof
        assume "jobs_in w' = rewrite ttl_secs t' i (g j) (jobs_in w)"
        with lj t t' np show ?thesis by (intro updated_written writtenI)
      qed auto
      with ok' t t' show ?thesis by simp
    qed
  qed
qed

end

lemma storable_with_status:
  assumes "storable j" "- (2 ^ 63) \<le> st" "st < 2 ^ 63" and "stored_job j = j"
  shows "storable (with_status st es j) \<and> job_ID (with_status st es j) = job_ID j \<and>
    stored_job (with_status st es j) = with_status st (map sanitise es) j"
  using assms(1-3) stored_job_fixed [OF assms(4)]
  by (cases j; cases es) (simp_all add: storable_def stored_job_def with_status_def)

lemma storable_with_report:
  assumes "storable j" and "valid_time (rep_GeneratedAt rep)" and "stored_job j = j"
  shows "storable (with_report rep j) \<and> job_ID (with_report rep j) = job_ID j \<and>
    stored_job (with_report rep j) = with_report (stored_report rep) j"
  using assms(1,2) stored_job_fixed [OF assms(3)]
  by (cases j) (simp add: storable_def stored_job_def with_report_def)

sublocale redis_store \<subseteq> scan_store "Create s" "Get s" "UpdateStatus s" "UpdateReport s"
  jobs_in ok_in clock ttl_secs
proof (unfold_locales, goal_cases)
  case (1 w j r w')
  then show ?case using set_job_law [of w j "''NX''" "''creating scan job: ''" r w'] by (simp add: Create_def)
next
  case (2 w i x w')
  then show ?case by (rule Get_law)
next
  case (3 w st i es r w')
  then show ?case
    by (intro modify_law [where f = "with_status st es"]) (simp_all add: UpdateStatus_modify storable_with_status)
next
  case (4 w rep i r w')
  then show ?case
    by (intro modify_law [where f = "with_report rep"]) (simp_all add: UpdateReport_modify storable_with_report)
qed

text \<open>The contract outside the locale, over the definitions it is made of.\<close>

definition jobs_of :: "('w, 'c, 'r) store \<Rightarrow> ('w \<Rightarrow> string expiring) \<Rightarrow> 'w \<Rightarrow> ScanJob expiring" where
  "jobs_of s db w = entry_of s (db w)"

definition jobs_ok :: "('w, 'c, 'r) store \<Rightarrow> ('w \<Rightarrow> string expiring) \<Rightarrow> 'w \<Rightarrow> bool" where
  "jobs_ok s db w = store_ok s (db w)"

definition ttl_of :: "('w, 'c, 'r) store \<Rightarrow> int" where
  "ttl_of s = duration_seconds (st_ScanJobTTL (cfg s))"

text \<open>The job that is live now.\<close>

definition job_now ::
  "('w, 'c, 'r) store \<Rightarrow> ('w \<Rightarrow> string expiring) \<Rightarrow> ('w \<Rightarrow> int) \<Rightarrow> 'w \<Rightarrow> string \<Rightarrow> ScanJob option" where
  "job_now s db clock w i = live (clock w) (jobs_of s db w) i"

context redis_store
begin

lemma contract:
  "scan_store (Create s) (Get s) (UpdateStatus s) (UpdateReport s) (jobs_of s db) (jobs_ok s db) clock (ttl_of s)"
proof -
  have "jobs_of s db = jobs_in" "jobs_ok s db = ok_in" "ttl_of s = ttl_secs"
    by (simp_all add: fun_eq_iff jobs_of_def jobs_in_def jobs_ok_def ok_in_def ttl_of_def ttl_secs_def)
  then show ?thesis by (simp add: scan_store_axioms)
qed

end

lemma redis_contract:
  assumes "redis_server (pool s) db clock"
  shows "scan_store (Create s) (Get s) (UpdateStatus s) (UpdateReport s) (jobs_of s db) (jobs_ok s db) clock
    (ttl_of s)"
  by (rule redis_store.contract) (simp add: redis_store_def assms)

end
