(* ===== verification/ClairModel.thy ===== *)
theory ClairModel
  imports GoDecode HarborModel
begin

text \<open>
  \<open>pkg/clair/model.go\<close>: the data of Clair's API and its JSON form. \<open>Feature\<close> and
  \<open>Vulnerability\<close> refer to each other, so they are mutual datatypes with the fields of the
  structs as selectors; the others are records. The value under a key of \<open>Metadata\<close> is an
  \<open>interface{}\<close> that nothing here looks into: it is kept as the JSON it was read from.
\<close>

definition clair_SeverityUnknown :: string where "clair_SeverityUnknown = ''unknown''"

definition clair_SeverityNegligible :: string where "clair_SeverityNegligible = ''negligible''"

definition clair_SeverityLow :: string where "clair_SeverityLow = ''low''"

definition clair_SeverityMedium :: string where "clair_SeverityMedium = ''medium''"

definition clair_SeverityHigh :: string where "clair_SeverityHigh = ''high''"

definition clair_SeverityCritical :: string where "clair_SeverityCritical = ''critical''"

lemmas clair_sev_defs = clair_SeverityUnknown_def clair_SeverityNegligible_def
  clair_SeverityLow_def clair_SeverityMedium_def clair_SeverityHigh_def clair_SeverityCritical_def

text \<open>A map with string keys; \<open>None\<close> is the nil map. A stored key keeps its place.\<close>

type_synonym 'a str_map = "(string \<times> 'a) list option"

datatype Feature =
  Feature (feat_Name: string) (feat_NamespaceName: string) (feat_VersionFormat: string)
    (feat_Version: string) (feat_Vulnerabilities: "Vulnerability list option")
    (feat_AddedBy: string)
and Vulnerability =
  Vulnerability (vul_Name: string) (vul_NamespaceName: string) (vul_Description: string)
    (vul_Link: string) (vul_Severity: string) (vul_Metadata: "(string \<times> json) list option")
    (vul_FixedBy: string) (vul_FixedIn: "Feature list option")

record Layer =
  lay_Name :: string
  lay_NamespaceNames :: "string slice"
  lay_Path :: string
  lay_Headers :: "string str_map"
  lay_ParentName :: string
  lay_Format :: string
  lay_Features :: "Feature slice"

record clair_Error =
  cerr_Message :: string

record LayerEnvelope =
  env_Layer :: "Layer option"
  env_Error :: "clair_Error option"

definition zero_Feature :: Feature where
  "zero_Feature = Feature [] [] [] [] None []"

definition zero_Vulnerability :: Vulnerability where
  "zero_Vulnerability = Vulnerability [] [] [] [] [] None [] None"

definition zero_Layer :: Layer where
  "zero_Layer = \<lparr>lay_Name = [], lay_NamespaceNames = None, lay_Path = [], lay_Headers = None,
     lay_ParentName = [], lay_Format = [], lay_Features = None\<rparr>"

definition zero_clair_Error :: clair_Error where
  "zero_clair_Error = \<lparr>cerr_Message = []\<rparr>"

definition zero_LayerEnvelope :: LayerEnvelope where
  "zero_LayerEnvelope = \<lparr>env_Layer = None, env_Error = None\<rparr>"

subsection \<open>Decoders\<close>

text \<open>The elements of a map are always decoded over a zero element.\<close>

fun dec_entries :: "'a decoder \<Rightarrow> 'a \<Rightarrow> (string \<times> json) list \<Rightarrow> (string \<times> 'a) list
    \<Rightarrow> (string \<times> 'a) list option" where
  "dec_entries f zero [] m = Some m"
| "dec_entries f zero ((k, j) # kvs) m =
     (case f j zero of None \<Rightarrow> None | Some v \<Rightarrow> dec_entries f zero kvs (map_set k v m))"

definition dec_map :: "'a decoder \<Rightarrow> 'a \<Rightarrow> 'a str_map decoder" where
  "dec_map f zero j old =
     (case j of
        JNull \<Rightarrow> Some None
      | JObj kvs \<Rightarrow> map_option Some (dec_entries f zero kvs (elems old))
      | _ \<Rightarrow> None)"

definition dec_any :: "json decoder" where
  "dec_any j old = (if dec_any_ok j then Some j else None)"

definition dec_Vulnerability :: "Feature decoder \<Rightarrow> Vulnerability decoder" where
  "dec_Vulnerability dec_feature =
     dec_struct [''Name'', ''NamespaceName'', ''Description'', ''Link'', ''Severity'', ''Metadata'',
                 ''FixedBy'', ''FixedIn'']
     (\<lambda>n j v. case v of Vulnerability nm ns d l s m fb fi \<Rightarrow>
        if n = ''Name'' then map_option (\<lambda>x. Vulnerability x ns d l s m fb fi) (dec_string j nm)
        else if n = ''NamespaceName'' then map_option (\<lambda>x. Vulnerability nm x d l s m fb fi) (dec_string j ns)
        else if n = ''Description'' then map_option (\<lambda>x. Vulnerability nm ns x l s m fb fi) (dec_string j d)
        else if n = ''Link'' then map_option (\<lambda>x. Vulnerability nm ns d x s m fb fi) (dec_string j l)
        else if n = ''Severity'' then map_option (\<lambda>x. Vulnerability nm ns d l x m fb fi) (dec_string j s)
        else if n = ''Metadata''
        then map_option (\<lambda>x. Vulnerability nm ns d l s x fb fi) (dec_map dec_any JNull j m)
        else if n = ''FixedBy'' then map_option (\<lambda>x. Vulnerability nm ns d l s m x fi) (dec_string j fb)
        else map_option (\<lambda>x. Vulnerability nm ns d l s m fb x) (dec_slice dec_feature zero_Feature j fi))"

definition dec_Feature_fields :: "Vulnerability decoder \<Rightarrow> Feature decoder" where
  "dec_Feature_fields dec_vuln =
     dec_struct [''Name'', ''NamespaceName'', ''VersionFormat'', ''Version'', ''Vulnerabilities'', ''AddedBy'']
     (\<lambda>n j f. case f of Feature nm ns vf v vs ab \<Rightarrow>
        if n = ''Name'' then map_option (\<lambda>x. Feature x ns vf v vs ab) (dec_string j nm)
        else if n = ''NamespaceName'' then map_option (\<lambda>x. Feature nm x vf v vs ab) (dec_string j ns)
        else if n = ''VersionFormat'' then map_option (\<lambda>x. Feature nm ns x v vs ab) (dec_string j vf)
        else if n = ''Version'' then map_option (\<lambda>x. Feature nm ns vf x vs ab) (dec_string j v)
        else if n = ''Vulnerabilities''
        then map_option (\<lambda>x. Feature nm ns vf v x ab) (dec_slice dec_vuln zero_Vulnerability j vs)
        else map_option (\<lambda>x. Feature nm ns vf v vs x) (dec_string j ab))"

text \<open>
  The two structs nest, so their decoders take fuel. A text nests at most \<open>max_depth\<close> deep,
  and one level of features uses at least one level of the text, so that much is enough.
\<close>

fun dec_Feature :: "nat \<Rightarrow> Feature decoder" where
  "dec_Feature 0 = (\<lambda>j old. None)"
| "dec_Feature (Suc n) = dec_Feature_fields (dec_Vulnerability (dec_Feature n))"

definition dec_Layer :: "Layer decoder" where
  "dec_Layer =
     dec_struct [''Name'', ''NamespaceNames'', ''Path'', ''Headers'', ''ParentName'', ''Format'', ''Features'']
     (\<lambda>n j l.
        if n = ''Name'' then map_option (\<lambda>x. l\<lparr>lay_Name := x\<rparr>) (dec_string j (lay_Name l))
        else if n = ''NamespaceNames''
        then map_option (\<lambda>x. l\<lparr>lay_NamespaceNames := x\<rparr>) (dec_slice dec_string [] j (lay_NamespaceNames l))
        else if n = ''Path'' then map_option (\<lambda>x. l\<lparr>lay_Path := x\<rparr>) (dec_string j (lay_Path l))
        else if n = ''Headers''
        then map_option (\<lambda>x. l\<lparr>lay_Headers := x\<rparr>) (dec_map dec_string [] j (lay_Headers l))
        else if n = ''ParentName'' then map_option (\<lambda>x. l\<lparr>lay_ParentName := x\<rparr>) (dec_string j (lay_ParentName l))
        else if n = ''Format'' then map_option (\<lambda>x. l\<lparr>lay_Format := x\<rparr>) (dec_string j (lay_Format l))
        else map_option (\<lambda>x. l\<lparr>lay_Features := x\<rparr>)
               (dec_slice (dec_Feature max_depth) zero_Feature j (lay_Features l)))"

definition dec_clair_Error :: "clair_Error decoder" where
  "dec_clair_Error = dec_struct [''Message'']
     (\<lambda>n j e. map_option (\<lambda>x. e\<lparr>cerr_Message := x\<rparr>) (dec_string j (cerr_Message e)))"

definition dec_LayerEnvelope :: "LayerEnvelope decoder" where
  "dec_LayerEnvelope = dec_struct [''Layer'', ''Error'']
     (\<lambda>n j e.
        if n = ''Layer''
        then map_option (\<lambda>x. e\<lparr>env_Layer := x\<rparr>) (dec_ptr dec_Layer zero_Layer j (env_Layer e))
        else map_option (\<lambda>x. e\<lparr>env_Error := x\<rparr>) (dec_ptr dec_clair_Error zero_clair_Error j (env_Error e)))"

subsection \<open>The JSON form of a layer without features\<close>

text \<open>
  The program prints only layers it built itself, which have no features. What the library
  prints for a \<open>Features\<close> member that is not empty is the argument \<open>features\<close>.
\<close>

definition omit_empty_list :: "string \<Rightarrow> ('a list \<Rightarrow> json) \<Rightarrow> 'a list option \<Rightarrow> (string \<times> json) list" where
  "omit_empty_list k f xs = (if elems xs = [] then [] else [(k, f (elems xs))])"

definition json_Layer :: "(Feature list \<Rightarrow> json) \<Rightarrow> Layer \<Rightarrow> json" where
  "json_Layer features l =
     JObj (omit_empty ''Name'' (lay_Name l)
           @ omit_empty_list ''NamespaceNames'' (\<lambda>xs. JArr (map JStr xs)) (lay_NamespaceNames l)
           @ omit_empty ''Path'' (lay_Path l)
           @ omit_empty_list ''Headers'' json_string_map (lay_Headers l)
           @ omit_empty ''ParentName'' (lay_ParentName l)
           @ omit_empty ''Format'' (lay_Format l)
           @ omit_empty_list ''Features'' features (lay_Features l))"

definition json_clair_Error :: "clair_Error \<Rightarrow> json" where
  "json_clair_Error e = JObj (omit_empty ''Message'' (cerr_Message e))"

definition json_LayerEnvelope :: "(Feature list \<Rightarrow> json) \<Rightarrow> LayerEnvelope \<Rightarrow> json" where
  "json_LayerEnvelope features e =
     JObj ((case env_Layer e of None \<Rightarrow> [] | Some l \<Rightarrow> [(''Layer'', json_Layer features l)])
           @ (case env_Error e of None \<Rightarrow> [] | Some x \<Rightarrow> [(''Error'', json_clair_Error x)]))"

subsection \<open>More fuel changes nothing\<close>

text \<open>A value that nests less than \<open>n\<close> deep decodes the same with any fuel from \<open>n\<close> on.\<close>

lemma dec_slice_cong:
  assumes "\<And>j old. json_depth j \<le> d \<Longrightarrow> f j old = g j old" and "json_depth j \<le> Suc d"
  shows "dec_slice f zero j old = dec_slice g zero j old"
proof (cases j)
  case (JArr js)
  have "dec_elems f zero olds js = dec_elems g zero olds js" for olds
    using assms(2) unfolding JArr json_depth_Arr
    by (induction js arbitrary: olds) (auto simp: assms(1) split: list.split option.split)
  then show ?thesis by (simp add: dec_slice_def JArr)
qed (simp_all add: dec_slice_def)

lemma dec_struct_cong:
  assumes "\<And>n j v. json_depth j \<le> d \<Longrightarrow> f n j v = g n j v" and "json_depth j \<le> Suc d"
  shows "dec_struct names f j v = dec_struct names g j v"
proof (cases j)
  case (JObj kvs)
  have "dec_fields names f kvs v = dec_fields names g kvs v" for v
    using assms(2) unfolding JObj json_depth_Obj
    by (induction kvs arbitrary: v) (auto simp: assms(1) split: option.split)
  then show ?thesis by (simp add: dec_struct_def JObj)
qed (simp_all add: dec_struct_def)

end
