(* ===== verification/RegistryClient.thy ===== *)
theory RegistryClient
  imports GoHttp Etc
begin

text \<open>
  \<open>pkg/registry/client.go\<close>: the client that fetches an image manifest, and the factory that
  hands out one client per process. A manifest is known through its references, the
  descriptors of its blobs; the parser of manifests (\<open>distribution.UnmarshalManifest\<close>) and the
  quoting of \<open>%q\<close> are arguments. The package's two variables are a part of the world.
\<close>

record Descriptor =
  desc_MediaType :: string
  desc_Digest :: string

type_synonym manifest = "Descriptor list"

definition MediaTypeManifest :: string where
  "MediaTypeManifest = ''application/vnd.docker.distribution.manifest.v2+json''"

definition MediaTypeImageConfig :: string where
  "MediaTypeImageConfig = ''application/vnd.docker.container.image.v1+json''"

record 'w registry_lib =
  rl_http :: "'w http_lib"
  rl_unmarshal_manifest :: "string \<Rightarrow> string \<Rightarrow> string + manifest"
  rl_quote :: "string \<Rightarrow> string"

type_synonym 'w registry_Client = "ScanRequest \<Rightarrow> ('w, manifest) act"

definition manifestURL :: "ScanRequest \<Rightarrow> string" where
  "manifestURL sr =
     reg_URL (req_Registry sr) @ ''/v2/'' @ art_Repository (req_Artifact sr) @ ''/manifests/''
       @ art_Digest (req_Artifact sr)"

definition GetManifest :: "'w registry_lib \<Rightarrow> http_client \<Rightarrow> 'w registry_Client" where
  "GetManifest lib c sr =
     bind_act (lift_res (new_request (rl_http lib) ''GET'' (manifestURL sr) [])) (\<lambda>req.
     bind_act (lib_act (hl_do (rl_http lib) c
         (add_header ''Authorization'' (reg_Authorization (req_Registry sr))
           (add_header ''Accept'' MediaTypeManifest req)))) (\<lambda>resp.
       case rs_Body resp of
         Inl e \<Rightarrow> throw e
       | Inr b \<Rightarrow>
           if rs_StatusCode resp \<noteq> 200 then
             throw (''fetching manifest with status '' @ rl_quote lib (rs_Status resp) @ '': '' @ b)
           else (case rl_unmarshal_manifest lib MediaTypeManifest b of
               Inl e \<Rightarrow> throw (''unmarshaling manifest: '' @ e)
             | Inr m \<Rightarrow> ret m)))"

subsection \<open>The factory\<close>

text \<open>
  \<open>once\<close> and \<open>singleton\<close>. \<open>Once.Do\<close> runs its argument in the first call only; every later
  call, of any factory, finds the client that the first one made.
\<close>

record registry_globals =
  once_done :: bool
  singleton :: "http_client option"

definition initial_globals :: registry_globals where
  "initial_globals = \<lparr>once_done = False, singleton = None\<rparr>"

definition clientFactory_Get :: "TLSConfig \<Rightarrow> registry_globals \<Rightarrow> http_client option \<times> registry_globals" where
  "clientFactory_Get tls g =
     (let g' = (if once_done g then g
                else \<lparr>once_done = True,
                      singleton = Some \<lparr>hc_InsecureSkipVerify = tls_InsecureSkipVerify tls,
                                       hc_RootCAs = tls_RootCAs tls\<rparr>\<rparr>)
      in (singleton g', g'))"

text \<open>
  The interface \<open>ClientFactory\<close>: the client it returns, in a world that holds the package's
  variables. Calling a method on the nil client dereferences it.
\<close>

type_synonym 'w ClientFactory = "('w, 'w registry_Client) act"

definition NewClientFactory ::
  "('v \<times> registry_globals) registry_lib \<Rightarrow> TLSConfig \<Rightarrow> ('v \<times> registry_globals) ClientFactory"
where
  "NewClientFactory lib tls w =
     (let (c, g) = clientFactory_Get tls (snd w) in
      case c of
        None \<Rightarrow> (Ok (\<lambda>_. panicking NilDereference), (fst w, g))
      | Some cl \<Rightarrow> (Ok (GetManifest lib cl), (fst w, g)))"

subsection \<open>What they do\<close>

definition globals_ok :: "registry_globals \<Rightarrow> bool" where
  "globals_ok g \<longleftrightarrow> (once_done g \<longrightarrow> singleton g \<noteq> None)"

lemma initial_globals_ok: "globals_ok initial_globals"
  by (simp add: globals_ok_def initial_globals_def)

lemma clientFactory_Get_ok:
  "globals_ok g \<Longrightarrow> clientFactory_Get tls g = (c, g') \<Longrightarrow>
     globals_ok g' \<and> once_done g' \<and> c \<noteq> None \<and> singleton g' = c"
  by (auto simp: clientFactory_Get_def globals_ok_def Let_def split: if_splits)

text \<open>Once made, the client stays, whatever settings a later factory has.\<close>

lemma clientFactory_Get_again:
  "once_done g \<Longrightarrow> clientFactory_Get tls g = (singleton g, g)"
  by (simp add: clientFactory_Get_def)

lemma returns_GetManifest: "returns (GetManifest lib c sr)"
  unfolding GetManifest_def
  by (intro returns_intros) (auto simp: returns_act split: sum.split)

lemma GetManifest_Ok_iff:
  "GetManifest lib c sr w = (Ok m, w') \<longleftrightarrow>
     (\<exists>resp b. hl_url_error (rl_http lib) (manifestURL sr) = None \<and>
        hl_do (rl_http lib) c
          \<lparr>rq_Method = ''GET'', rq_URL = manifestURL sr,
           rq_Header = [(''Accept'', MediaTypeManifest),
                        (''Authorization'', reg_Authorization (req_Registry sr))],
           rq_Body = []\<rparr> w = (Inr resp, w') \<and>
        rs_Body resp = Inr b \<and> rs_StatusCode resp = 200 \<and>
        rl_unmarshal_manifest lib MediaTypeManifest b = Inr m)"
proof -
  let ?rq = "\<lparr>rq_Method = ''GET'', rq_URL = manifestURL sr,
           rq_Header = [(''Accept'', MediaTypeManifest),
                        (''Authorization'', reg_Authorization (req_Registry sr))], rq_Body = []\<rparr>"
  show ?thesis
    by (cases "hl_do (rl_http lib) c ?rq w"; cases "fst (hl_do (rl_http lib) c ?rq w)")
       (auto simp: GetManifest_def new_request_def add_header_def bind_act_def lib_act_def lift_res_def
         ret_def throw_def split: option.splits sum.splits if_splits)
qed

subsection \<open>Properties\<close>

fun get_clients :: "TLSConfig list \<Rightarrow> registry_globals \<Rightarrow> http_client option list" where
  "get_clients [] g = []"
| "get_clients (t # ts) g = (let (c, g') = clientFactory_Get t g in c # get_clients ts g')"

lemma get_clients_again: "once_done g \<Longrightarrow> get_clients ts g = replicate (length ts) (singleton g)"
  by (induction ts) (simp_all add: clientFactory_Get_again)

text \<open>
  The registry client is a singleton of the process: however many factories with whatever
  TLS settings are asked, in whatever order, all get the client that the first call made, with
  the settings of that call; and none ever gets nil.
\<close>

theorem registry_singleton:
  "get_clients (t # ts) initial_globals =
     replicate (Suc (length ts))
       (Some \<lparr>hc_InsecureSkipVerify = tls_InsecureSkipVerify t, hc_RootCAs = tls_RootCAs t\<rparr>)"
  by (simp add: clientFactory_Get_def initial_globals_def get_clients_again)

text \<open>
  A manifest is returned exactly when the registry answered the one \<open>GET\<close> for it, with
  the media type of Docker manifests and the authorization of the request, with status 200, a
  body that could be read, and that the manifest parser accepts; and the call always returns.
\<close>

theorem GetManifest_fetched_iff:
  "(GetManifest lib c sr w = (Ok m, w') \<longleftrightarrow>
     (\<exists>resp b. hl_url_error (rl_http lib) (manifestURL sr) = None \<and>
        hl_do (rl_http lib) c
          \<lparr>rq_Method = ''GET'', rq_URL = manifestURL sr,
           rq_Header = [(''Accept'', MediaTypeManifest),
                        (''Authorization'', reg_Authorization (req_Registry sr))],
           rq_Body = []\<rparr> w = (Inr resp, w') \<and>
        rs_Body resp = Inr b \<and> rs_StatusCode resp = 200 \<and>
        rl_unmarshal_manifest lib MediaTypeManifest b = Inr m)) \<and>
   returns (GetManifest lib c sr)"
  by (simp only: GetManifest_Ok_iff returns_GetManifest simp_thms)

end
