(* ===== verification/Sha256.thy ===== *)
theory Sha256
  imports GoUtf8 "HOL-Library.Word"
begin

unbundle bit_operations_syntax

text \<open>
  \<open>crypto/sha256\<close>, with which the layer names are made: the FIPS 180-4 compression function on
  32-bit words, padding, and the lower-case hexadecimal text that \<open>fmt\<close> prints for \<open>%x\<close>.
\<close>

type_synonym w32 = "32 word"

definition rotr :: "nat \<Rightarrow> w32 \<Rightarrow> w32" where
  "rotr n x = drop_bit n x OR push_bit (32 - n) x"

definition Ch :: "w32 \<Rightarrow> w32 \<Rightarrow> w32 \<Rightarrow> w32" where
  "Ch x y z = (x AND y) XOR (NOT x AND z)"

definition Maj :: "w32 \<Rightarrow> w32 \<Rightarrow> w32 \<Rightarrow> w32" where
  "Maj x y z = (x AND y) XOR (x AND z) XOR (y AND z)"

definition S0 :: "w32 \<Rightarrow> w32" where
  "S0 x = rotr 2 x XOR rotr 13 x XOR rotr 22 x"

definition S1 :: "w32 \<Rightarrow> w32" where
  "S1 x = rotr 6 x XOR rotr 11 x XOR rotr 25 x"

definition s0 :: "w32 \<Rightarrow> w32" where
  "s0 x = rotr 7 x XOR rotr 18 x XOR drop_bit 3 x"

definition s1 :: "w32 \<Rightarrow> w32" where
  "s1 x = rotr 17 x XOR rotr 19 x XOR drop_bit 10 x"

text \<open>The first 32 bits of the fractional parts of the cube roots of the first 64 primes.\<close>

definition K :: "w32 list" where
  "K = [
    1116352408, 1899447441, 3049323471, 3921009573, 961987163, 1508970993, 2453635748, 2870763221,
    3624381080, 310598401, 607225278, 1426881987, 1925078388, 2162078206, 2614888103, 3248222580,
    3835390401, 4022224774, 264347078, 604807628, 770255983, 1249150122, 1555081692, 1996064986,
    2554220882, 2821834349, 2952996808, 3210313671, 3336571891, 3584528711, 113926993, 338241895,
    666307205, 773529912, 1294757372, 1396182291, 1695183700, 1986661051, 2177026350, 2456956037,
    2730485921, 2820302411, 3259730800, 3345764771, 3516065817, 3600352804, 4094571909, 275423344,
    430227734, 506948616, 659060556, 883997877, 958139571, 1322822218, 1537002063, 1747873779,
    1955562222, 2024104815, 2227730452, 2361852424, 2428436474, 2756734187, 3204031479, 3329325298]"

text \<open>The same of the square roots of the first eight.\<close>

definition H0 :: "w32 list" where
  "H0 = [1779033703, 3144134277, 1013904242, 2773480762, 1359893119, 2600822924, 528734635, 1541459225]"

text \<open>
  The message schedule is kept as a window of the last 16 words, oldest first: a round uses
  the oldest and appends the word 16 places on.
\<close>

fun rounds :: "w32 list \<Rightarrow> w32 list \<Rightarrow> w32 list \<Rightarrow> w32 list" where
  "rounds [] ws st = st"
| "rounds (k # ks) ws st =
     (let w = ws ! 0;
          w' = s1 (ws ! 14) + ws ! 9 + s0 (ws ! 1) + w;
          t1 = st ! 7 + S1 (st ! 4) + Ch (st ! 4) (st ! 5) (st ! 6) + k + w;
          t2 = S0 (st ! 0) + Maj (st ! 0) (st ! 1) (st ! 2)
      in rounds ks (tl ws @ [w'])
           [t1 + t2, st ! 0, st ! 1, st ! 2, st ! 3 + t1, st ! 4, st ! 5, st ! 6])"

fun words_of_bytes :: "int list \<Rightarrow> w32 list" where
  "words_of_bytes (a # b # c # d # bs) =
     word_of_int (((a * 256 + b) * 256 + c) * 256 + d) # words_of_bytes bs"
| "words_of_bytes _ = []"

definition compress :: "w32 list \<Rightarrow> int list \<Rightarrow> w32 list" where
  "compress h block = map2 (+) h (rounds K (words_of_bytes block) h)"

function blocks :: "w32 list \<Rightarrow> int list \<Rightarrow> w32 list" where
  "blocks h bs = (if bs = [] then h else blocks (compress h (take 64 bs)) (drop 64 bs))"
  by pat_completeness auto
termination by (relation "measure (\<lambda>(h, bs). length bs)") auto

declare blocks.simps [simp del]

text \<open>A one bit, zeros, and the length in bits as eight bytes, to a multiple of 64 bytes.\<close>

definition be_bytes :: "nat \<Rightarrow> int \<Rightarrow> int list" where
  "be_bytes k n = map (\<lambda>i. n div 256 ^ (k - 1 - i) mod 256) [0..<k]"

definition sha_pad :: "int list \<Rightarrow> int list" where
  "sha_pad bs =
     (let l = length bs in
      bs @ [128] @ replicate ((119 - l mod 64) mod 64) 0 @ be_bytes 8 (8 * int l mod 2 ^ 64))"

definition sha256 :: "string \<Rightarrow> int list" where
  "sha256 s = concat (map (\<lambda>w. be_bytes 4 (uint w)) (blocks H0 (sha_pad (map of_char s))))"

definition hex_digit :: "int \<Rightarrow> char" where
  "hex_digit n = char_of (nat (if n < 10 then 48 + n else 87 + n))"

definition hex_bytes :: "int list \<Rightarrow> string" where
  "hex_bytes bs = concat (map (\<lambda>b. [hex_digit (b div 16), hex_digit (b mod 16)]) bs)"

text \<open>\<open>fmt.Sprintf("%x", sha256.Sum256([]byte(s)))\<close>.\<close>

definition sha256_hex :: "string \<Rightarrow> string" where
  "sha256_hex s = hex_bytes (sha256 s)"

subsection \<open>The shape of a digest\<close>

lemma length_rounds: "length st = 8 \<Longrightarrow> length (rounds ks ws st) = 8"
  by (induction ks ws st rule: rounds.induct) (simp_all add: Let_def)

lemma length_compress: "length h = 8 \<Longrightarrow> length (compress h b) = 8"
  by (simp add: compress_def length_rounds)

lemma blocks_Nil [simp]: "blocks h [] = h"
  by (simp add: blocks.simps [of h "[]"])

lemma blocks_step: "bs \<noteq> [] \<Longrightarrow> blocks h bs = blocks (compress h (take 64 bs)) (drop 64 bs)"
  by (simp add: blocks.simps [of h bs])

lemma length_blocks: "length h = 8 \<Longrightarrow> length (blocks h bs) = 8"
proof (induction h bs rule: blocks.induct)
  case (1 h bs)
  then show ?case
    by (cases "bs = []") (simp_all add: blocks_step length_compress)
qed

lemma length_pad: "length (sha_pad bs) mod 64 = 0"
proof -
  define q r where "q = length bs div 64" and "r = length bs mod 64"
  have l: "length bs = 64 * q + r" and r: "r < 64" by (simp_all add: q_def r_def)
  have z: "(119 - r) mod 64 = (if r \<le> 55 then 55 - r else 119 - r)"
  proof (cases "r \<le> 55")
    case True
    then have "119 - r = (55 - r) + 64" by linarith
    then have "(119 - r) mod 64 = (55 - r) mod 64" by (simp only: mod_add_self2)
    with True show ?thesis by simp
  qed (use r in simp)
  have "length (sha_pad bs) = 64 * q + r + 1 + (119 - r) mod 64 + 8"
    by (simp add: sha_pad_def Let_def be_bytes_def l r)
  also have "\<dots> = 64 * (q + (if r \<le> 55 then 1 else 2))"
    unfolding z using r by simp
  finally show ?thesis by simp
qed

lemma be_bytes_bound: "b \<in> set (be_bytes k n) \<Longrightarrow> 0 \<le> b \<and> b < 256"
  by (auto simp: be_bytes_def)

lemma length_concat_const: "(\<And>x. x \<in> set xs \<Longrightarrow> length (f x) = k) \<Longrightarrow> length (concat (map f xs)) = k * length xs"
  by (induction xs) auto

lemma length_sha256: "length (sha256 s) = 32"
  unfolding sha256_def
  by (subst length_concat_const [where k = 4]) (simp_all add: be_bytes_def length_blocks H0_def)

lemma sha256_bound: "b \<in> set (sha256 s) \<Longrightarrow> 0 \<le> b \<and> b < 256"
  by (auto simp: sha256_def dest: be_bytes_bound)

definition is_hex :: "char \<Rightarrow> bool" where
  "is_hex c \<longleftrightarrow> 48 \<le> byte c \<and> byte c \<le> 57 \<or> 97 \<le> byte c \<and> byte c \<le> 102"

lemma is_hex_digit: "0 \<le> n \<Longrightarrow> n < 16 \<Longrightarrow> is_hex (hex_digit n)"
  by (auto simp: is_hex_def hex_digit_def)

lemma length_sha256_hex [simp]: "length (sha256_hex s) = 64"
  unfolding sha256_hex_def hex_bytes_def
  by (subst length_concat_const [where k = 2]) (simp_all add: length_sha256)

lemma sha256_hex_digits: "c \<in> set (sha256_hex s) \<Longrightarrow> is_hex c"
  by (auto simp: sha256_hex_def hex_bytes_def intro!: is_hex_digit dest!: sha256_bound)

lemma ascii_sha256_hex [simp]: "ascii (sha256_hex s)"
proof -
  have "list_all (\<lambda>c. byte c < 128) (sha256_hex s)"
    using sha256_hex_digits [of _ s] by (force simp: list_all_iff is_hex_def)
  then show ?thesis by (simp add: ascii_def list_all_iff)
qed

lemma sha256_hex_not_Nil [simp]: "sha256_hex s \<noteq> []"
  using length_sha256_hex [of s] by force

end
