(* ===== verification/Transformer.thy ===== *)
theory Transformer
  imports ClairModel RegistryClient Job Sha256
begin

text \<open>
  \<open>pkg/scanner/transformer.go\<close>: from a manifest to the layers Clair scans, and from the layer
  Clair reports on to Harbor's report. Go ranges over a map in no fixed order: the order of
  \<open>vulnMap\<close> is the argument \<open>order\<close>, of which only the set of keys matters. The clock is a
  part of the world. A nil layer pointer is \<open>None\<close>.
\<close>

definition buildBlobURL :: "string \<Rightarrow> string \<Rightarrow> string \<Rightarrow> string" where
  "buildBlobURL endpoint repository digest =
     endpoint @ ''/v2/'' @ repository @ ''/blobs/'' @ digest"

fun clair_layers_loop :: "ScanRequest \<Rightarrow> manifest \<Rightarrow> string \<Rightarrow> Layer list \<Rightarrow> Layer list" where
  "clair_layers_loop req [] shaChain layers = layers"
| "clair_layers_loop req (d # ds) shaChain layers =
     (if desc_MediaType d = MediaTypeImageConfig then clair_layers_loop req ds shaChain layers
      else
        let shaChain = shaChain @ desc_Digest d @ ''-'';
            l = \<lparr>lay_Name = sha256_hex shaChain,
                 lay_NamespaceNames = None,
                 lay_Path = buildBlobURL (reg_URL (req_Registry req))
                              (art_Repository (req_Artifact req)) (desc_Digest d),
                 lay_Headers = Some [(''Connection'', ''close''),
                                     (''Authorization'', reg_Authorization (req_Registry req))],
                 lay_ParentName = (if length layers > 0 then lay_Name (layers ! (length layers - 1)) else []),
                 lay_Format = ''Docker'',
                 lay_Features = None\<rparr>
        in clair_layers_loop req ds shaChain (layers @ [l]))"

definition ToClairLayers :: "ScanRequest \<Rightarrow> manifest \<Rightarrow> Layer list" where
  "ToClairLayers req m = clair_layers_loop req m [] []"

definition toHarborSeverity :: "string \<Rightarrow> severity" where
  "toHarborSeverity clairSev =
     (let sev = to_lower clairSev in
      if sev = clair_SeverityNegligible then SevNegligible
      else if sev = clair_SeverityLow then SevLow
      else if sev = clair_SeverityMedium then SevMedium
      else if sev = clair_SeverityHigh then SevHigh
      else if sev = clair_SeverityCritical then SevCritical
      else if sev = clair_SeverityUnknown then SevUnknown
      else SevUnknown)"

text \<open>The worst severity of a feature, and the count of features per severity.\<close>

fun worst_of :: "severity \<Rightarrow> Vulnerability list \<Rightarrow> severity" where
  "worst_of sev [] = sev"
| "worst_of sev (v # vs) =
     (let temp = toHarborSeverity (vul_Severity v) in worst_of (if temp > sev then temp else sev) vs)"

fun count_severities :: "Feature list \<Rightarrow> (severity \<times> nat) list \<Rightarrow> (severity \<times> nat) list" where
  "count_severities [] vulnMap = vulnMap"
| "count_severities (f # fs) vulnMap =
     (let sev = worst_of SevNone (elems (feat_Vulnerabilities f));
          n = (case map_of vulnMap sev of None \<Rightarrow> 0 | Some n \<Rightarrow> n)
      in count_severities fs (map_set sev (n + 1) vulnMap))"

fun overall :: "severity \<Rightarrow> severity list \<Rightarrow> severity" where
  "overall sev [] = sev"
| "overall sev (k # ks) = overall (if k > sev then k else sev) ks"

definition toComponentsOverview ::
  "(severity list \<Rightarrow> severity list) \<Rightarrow> Layer option \<Rightarrow> severity res" where
  "toComponentsOverview order layer =
     (case layer of
        None \<Rightarrow> Panic NilDereference
      | Some l \<Rightarrow>
          Ok (overall SevNone (order (map fst (count_severities (elems (lay_Features l)) [])))))"

definition toLinks :: "string \<Rightarrow> string slice" where
  "toLinks link = (if link = [] then Some [] else Some [link])"

definition append_slice :: "'a slice \<Rightarrow> 'a \<Rightarrow> 'a slice" where
  "append_slice xs x = Some (elems xs @ [x])"

definition vulnerability_item :: "Feature \<Rightarrow> Vulnerability \<Rightarrow> VulnerabilityItem" where
  "vulnerability_item f v =
     \<lparr>vi_ID = vul_Name v, vi_Pkg = feat_Name f, vi_Version = feat_Version f,
      vi_FixVersion = vul_FixedBy v, vi_Severity = toHarborSeverity (vul_Severity v),
      vi_Description = vul_Description v, vi_Links = toLinks (vul_Link v)\<rparr>"

fun add_items :: "Feature \<Rightarrow> Vulnerability list \<Rightarrow> VulnerabilityItem slice \<Rightarrow> VulnerabilityItem slice" where
  "add_items f [] r = r"
| "add_items f (v # vs) r = add_items f vs (append_slice r (vulnerability_item f v))"

fun add_features :: "Feature list \<Rightarrow> VulnerabilityItem slice \<Rightarrow> VulnerabilityItem slice" where
  "add_features [] r = r"
| "add_features (f # fs) r =
     (case feat_Vulnerabilities f of
        None \<Rightarrow> add_features fs r
      | Some vs \<Rightarrow> add_features fs (add_items f vs r))"

definition toVulnerabilityItems :: "Layer option \<Rightarrow> VulnerabilityItem slice" where
  "toVulnerabilityItems l =
     (case l of
        None \<Rightarrow> None
      | Some l \<Rightarrow> (case lay_Features l of None \<Rightarrow> None | Some features \<Rightarrow> add_features features None))"

definition ToHarborScanReport ::
  "('w \<Rightarrow> go_time \<times> 'w) \<Rightarrow> (severity list \<Rightarrow> severity list) \<Rightarrow> Artifact \<Rightarrow> Layer option
     \<Rightarrow> ('w, ScanReport) act"
where
  "ToHarborScanReport now order artifact source w =
     (let (t, w') = now w in
      case toComponentsOverview order source of
        Ok sev \<Rightarrow>
          (Ok \<lparr>rep_GeneratedAt = t, rep_Artifact = artifact, rep_Scanner = GetScannerMetadata,
               rep_Severity = sev, rep_Vulnerabilities = toVulnerabilityItems source\<rparr>, w')
      | Err e \<Rightarrow> (Err e, w')
      | Panic p \<Rightarrow> (Panic p, w'))"

text \<open>The interface \<open>Transformer\<close>.\<close>

record 'w Transformer =
  tr_ToClairLayers :: "ScanRequest \<Rightarrow> manifest \<Rightarrow> Layer list"
  tr_ToHarborScanReport :: "Artifact \<Rightarrow> Layer option \<Rightarrow> ('w, ScanReport) act"

definition NewTransformer ::
  "('w \<Rightarrow> go_time \<times> 'w) \<Rightarrow> (severity list \<Rightarrow> severity list) \<Rightarrow> 'w Transformer" where
  "NewTransformer now order =
     \<lparr>tr_ToClairLayers = ToClairLayers, tr_ToHarborScanReport = ToHarborScanReport now order\<rparr>"

subsection \<open>Layers\<close>

text \<open>
  The layers of an image, stated without the loop: one per blob that is not the image
  configuration, named by the hash of the digests up to it, with the one before as parent.
\<close>

definition blobs :: "manifest \<Rightarrow> Descriptor list" where
  "blobs m = filter (\<lambda>d. desc_MediaType d \<noteq> MediaTypeImageConfig) m"

definition chain :: "Descriptor list \<Rightarrow> string" where
  "chain ds = concat (map (\<lambda>d. desc_Digest d @ ''-'') ds)"

definition layer_spec :: "ScanRequest \<Rightarrow> Descriptor list \<Rightarrow> nat \<Rightarrow> Layer" where
  "layer_spec req ds i =
     \<lparr>lay_Name = sha256_hex (chain (take (Suc i) ds)),
      lay_NamespaceNames = None,
      lay_Path = buildBlobURL (reg_URL (req_Registry req)) (art_Repository (req_Artifact req))
                   (desc_Digest (ds ! i)),
      lay_Headers = Some [(''Connection'', ''close''),
                          (''Authorization'', reg_Authorization (req_Registry req))],
      lay_ParentName = (if i = 0 then [] else sha256_hex (chain (take i ds))),
      lay_Format = ''Docker'',
      lay_Features = None\<rparr>"

lemma chain_simps [simp]: "chain [] = []" "chain (d # ds) = desc_Digest d @ ''-'' @ chain ds"
  "chain (ds @ ds') = chain ds @ chain ds'"
  by (simp_all add: chain_def)

lemma blobs_simps [simp]: "blobs [] = []"
  "blobs (d # ds) = (if desc_MediaType d = MediaTypeImageConfig then blobs ds else d # blobs ds)"
  "blobs (ds @ ds') = blobs ds @ blobs ds'"
  by (simp_all add: blobs_def)

lemma layer_spec_append: "i < length ds \<Longrightarrow> layer_spec req (ds @ ds') i = layer_spec req ds i"
  by (simp add: layer_spec_def nth_append)

lemma clair_layers_loop_spec:
  "clair_layers_loop req ds (chain pre) (map (layer_spec req (pre @ blobs ds)) [0..<length pre]) =
     map (layer_spec req (pre @ blobs ds)) [0..<length (pre @ blobs ds)]"
proof (induction ds arbitrary: pre)
  case Nil
  then show ?case by simp
next
  case (Cons d ds)
  show ?case
  proof (cases "desc_MediaType d = MediaTypeImageConfig")
    case True
    with Cons [of pre] show ?thesis by simp
  next
    case False
    let ?all = "pre @ d # blobs ds"
    let ?new = "\<lparr>lay_Name = sha256_hex (chain pre @ desc_Digest d @ ''-''),
                 lay_NamespaceNames = None,
                 lay_Path = buildBlobURL (reg_URL (req_Registry req))
                              (art_Repository (req_Artifact req)) (desc_Digest d),
                 lay_Headers = Some [(''Connection'', ''close''),
                                     (''Authorization'', reg_Authorization (req_Registry req))],
                 lay_ParentName = (if length pre > 0
                    then lay_Name (map (layer_spec req ?all) [0..<length pre] ! (length pre - 1)) else []),
                 lay_Format = ''Docker'', lay_Features = None\<rparr>"
    have new: "?new = layer_spec req ?all (length pre)"
      by (cases "pre = []") (simp_all add: layer_spec_def nth_append)
    have "clair_layers_loop req (d # ds) (chain pre) (map (layer_spec req ?all) [0..<length pre]) =
        clair_layers_loop req ds (chain (pre @ [d]))
          (map (layer_spec req ?all) [0..<length pre] @ [?new])"
      using False by (simp add: Let_def)
    also have "map (layer_spec req ?all) [0..<length pre] @ [?new] =
        map (layer_spec req ((pre @ [d]) @ blobs ds)) [0..<length (pre @ [d])]"
      unfolding new by simp
    also have "clair_layers_loop req ds (chain (pre @ [d])) \<dots> =
        map (layer_spec req ((pre @ [d]) @ blobs ds)) [0..<length ((pre @ [d]) @ blobs ds)]"
      by (rule Cons.IH)
    finally show ?thesis using False by simp
  qed
qed

lemma ToClairLayers_spec: "ToClairLayers req m = map (layer_spec req (blobs m)) [0..<length (blobs m)]"
  using clair_layers_loop_spec [of req m "[]"] by (simp add: ToClairLayers_def)

lemma length_ToClairLayers [simp]: "length (ToClairLayers req m) = length (blobs m)"
  by (simp add: ToClairLayers_spec)

lemma ToClairLayers_nth: "i < length (blobs m) \<Longrightarrow> ToClairLayers req m ! i = layer_spec req (blobs m) i"
  by (simp add: ToClairLayers_spec)

lemma ToClairLayers_Nil_iff: "ToClairLayers req m = [] \<longleftrightarrow> blobs m = []"
  using length_ToClairLayers [of req m] by (metis length_0_conv)

lemma ToClairLayers_append: "\<exists>rest. ToClairLayers req (m @ m') = ToClairLayers req m @ rest"
proof -
  have "take (length (blobs m)) (ToClairLayers req (m @ m')) = ToClairLayers req m"
    by (rule nth_equalityI) (simp_all add: ToClairLayers_nth layer_spec_append)
  then show ?thesis by (metis append_take_drop_id)
qed

lemma split_chain:
  "\<forall>d \<in> set ds. CHR ''-'' \<notin> set (desc_Digest d) \<Longrightarrow>
     split_on (CHR ''-'') (chain ds) = map desc_Digest ds @ [[]]"
  by (induction ds) (simp_all add: split_on_append)

lemma chain_inject:
  assumes "\<forall>d \<in> set ds. CHR ''-'' \<notin> set (desc_Digest d)"
    and "\<forall>d \<in> set ds'. CHR ''-'' \<notin> set (desc_Digest d)"
    and "chain ds = chain ds'"
  shows "map desc_Digest ds = map desc_Digest ds'"
  using split_chain [OF assms(1)] split_chain [OF assms(2)] assms(3) by simp

lemma chain_take_length: "i < j \<Longrightarrow> j \<le> length ds \<Longrightarrow> length (chain (take i ds)) < length (chain (take j ds))"
proof (induction ds arbitrary: i j)
  case (Cons d ds)
  then show ?case by (cases i; cases j) auto
qed simp

subsection \<open>Severities\<close>

lemma toHarborSeverity_range: "toHarborSeverity s \<in> {SevUnknown..SevCritical}"
  by (simp add: toHarborSeverity_def Let_def sev_defs)

lemma toHarborSeverity_known: "known_severity (toHarborSeverity s)"
  using toHarborSeverity_range [of s] by (simp add: known_severity_def sev_defs)

lemma toHarborSeverity_lower: "toHarborSeverity (to_lower s) = toHarborSeverity s"
  by (simp add: toHarborSeverity_def to_lower_idem)

lemma worst_of_Max: "worst_of sev vs = Max (insert sev (toHarborSeverity ` vul_Severity ` set vs))"
proof (induction vs arbitrary: sev)
  case (Cons v vs)
  let ?t = "toHarborSeverity (vul_Severity v)"
  have "Max (insert sev (insert ?t A)) = Max (insert (if ?t > sev then ?t else sev) A)"
    if "finite A" for A
    using that by (cases "A = {}") (auto simp: max_def)
  with Cons show ?case by (simp add: Let_def)
qed simp

lemma overall_Max: "overall sev ks = Max (insert sev (set ks))"
proof (induction ks arbitrary: sev)
  case (Cons k ks)
  have "Max (insert sev (insert k A)) = Max (insert (if k > sev then k else sev) A)"
    if "finite A" for A
    using that by (cases "A = {}") (auto simp: max_def)
  with Cons show ?case by simp
qed simp

lemma count_severities_keys:
  "set (map fst (count_severities fs m)) =
     set (map fst m) \<union> (\<lambda>f. worst_of SevNone (elems (feat_Vulnerabilities f))) ` set fs"
  by (induction fs arbitrary: m) (simp_all only: count_severities.simps Let_def set_keys_map_set, auto)

definition vulnerabilities :: "Layer \<Rightarrow> (Feature \<times> Vulnerability) list" where
  "vulnerabilities l =
     concat (map (\<lambda>f. map (Pair f) (elems (feat_Vulnerabilities f))) (elems (lay_Features l)))"

lemma Max_insert_UN:
  assumes "finite I" and "\<And>i. i \<in> I \<Longrightarrow> finite (A i)"
  shows "Max (insert (a::int) ((\<lambda>i. Max (insert a (A i))) ` I)) = Max (insert a (\<Union>i\<in>I. A i))"
  using assms
proof (induction I)
  case (insert i I)
  have e: "Max (insert a (x \<union> y)) = max (Max (insert a x)) (Max (insert a y))"
    if "finite x" "finite y" for x y
    using Max_Un [of "insert a x" "insert a y"] that by simp
  have "Max (insert a ((\<lambda>i. Max (insert a (A i))) ` insert i I)) =
      Max (insert a ({Max (insert a (A i))} \<union> (\<lambda>i. Max (insert a (A i))) ` I))"
    by simp
  also have "\<dots> = max (Max (insert a {Max (insert a (A i))})) (Max (insert a (\<Union>i\<in>I. A i)))"
    unfolding insert(3) [symmetric] using insert by (subst e) simp_all
  also have "Max (insert a {Max (insert a (A i))}) = Max (insert a (A i))"
    using insert by simp
  also have "max (Max (insert a (A i))) (Max (insert a (\<Union>i\<in>I. A i))) =
      Max (insert a (\<Union>i\<in>insert i I. A i))"
    using e [of "A i" "\<Union>i\<in>I. A i"] insert by simp
  finally show ?case .
qed simp

lemma overview_Max:
  assumes "\<And>ks. set (order ks) = set ks"
  shows "toComponentsOverview order (Some l) =
     Ok (Max (insert SevNone (set (map (\<lambda>(f, v). toHarborSeverity (vul_Severity v)) (vulnerabilities l)))))"
proof -
  have "set (map (\<lambda>(f, v). toHarborSeverity (vul_Severity v)) (vulnerabilities l)) =
      (\<Union>f\<in>set (elems (lay_Features l)). toHarborSeverity ` vul_Severity ` set (elems (feat_Vulnerabilities f)))"
    by (force simp: vulnerabilities_def)
  moreover have "set (map fst (count_severities (elems (lay_Features l)) [])) =
      (\<lambda>f. worst_of SevNone (elems (feat_Vulnerabilities f))) ` set (elems (lay_Features l))"
    by (simp only: count_severities_keys) simp
  ultimately show ?thesis
    by (simp only: toComponentsOverview_def option.case overall_Max assms worst_of_Max)
       (simp add: Max_insert_UN)
qed

subsection \<open>Items\<close>

lemma add_items_spec:
  "add_items f vs r = (if vs = [] then r else Some (elems r @ map (vulnerability_item f) vs))"
  by (induction vs arbitrary: r) (simp_all add: append_slice_def)

lemma add_features_elems:
  "elems (add_features fs r) = elems r @ map (\<lambda>(f, v). vulnerability_item f v)
     (concat (map (\<lambda>f. map (Pair f) (elems (feat_Vulnerabilities f))) fs))"
  by (induction fs arbitrary: r) (auto simp: add_items_spec comp_def split: option.split)

lemma add_features_None:
  "add_features fs r = None \<longleftrightarrow> r = None \<and> (\<forall>f \<in> set fs. elems (feat_Vulnerabilities f) = [])"
  by (induction fs arbitrary: r) (auto simp: add_items_spec split: option.split)

lemma items_elems:
  "elems (toVulnerabilityItems (Some l)) = map (\<lambda>(f, v). vulnerability_item f v) (vulnerabilities l)"
  by (cases "lay_Features l") (simp_all add: toVulnerabilityItems_def vulnerabilities_def add_features_elems)

lemma items_None_iff: "toVulnerabilityItems (Some l) = None \<longleftrightarrow> vulnerabilities l = []"
  by (cases "lay_Features l") (auto simp: toVulnerabilityItems_def vulnerabilities_def add_features_None)

lemma report_Ok:
  assumes "\<And>ks. set (order ks) = set ks"
  shows "ToHarborScanReport now order a (Some l) w =
     (Ok \<lparr>rep_GeneratedAt = fst (now w), rep_Artifact = a, rep_Scanner = GetScannerMetadata,
          rep_Severity = Max (insert SevNone (set (map (\<lambda>(f, v). toHarborSeverity (vul_Severity v)) (vulnerabilities l)))),
          rep_Vulnerabilities = toVulnerabilityItems (Some l)\<rparr>, snd (now w))"
  by (simp add: ToHarborScanReport_def overview_Max [OF assms] split: prod.split)

lemma report_nil: "ToHarborScanReport now order a None w = (Panic NilDereference, snd (now w))"
  by (simp add: ToHarborScanReport_def toComponentsOverview_def split: prod.split)

text \<open>Every severity of a report has a name, so a report is never changed by being stored.\<close>

lemma report_named:
  assumes "\<And>ks. set (order ks) = set ks"
    and "ToHarborScanReport now order a src w = (Ok r, w')"
  shows "named_severities r"
proof (cases src)
  case None
  with assms(2) show ?thesis by (simp add: report_nil)
next
  case (Some l)
  let ?S = "insert SevNone (set (map (\<lambda>(f, v). toHarborSeverity (vul_Severity v)) (vulnerabilities l)))"
  have "Max ?S \<in> ?S" by (rule Max_in) simp_all
  moreover have "known_severity s" if "s \<in> ?S" for s
    using that by (auto simp: toHarborSeverity_known) (simp add: known_severity_def sev_defs)
  ultimately have "known_severity (Max ?S)" by blast
  moreover have "known_severity (vi_Severity v)" if "v \<in> set (elems (toVulnerabilityItems src))" for v
    using that by (auto simp: Some items_elems vulnerability_item_def toHarborSeverity_known)
  moreover have "rep_Severity r = Max ?S" "rep_Vulnerabilities r = toVulnerabilityItems src"
    using assms(2) unfolding Some report_Ok [OF assms(1)] by auto
  ultimately show ?thesis by (simp add: named_severities_def)
qed

subsection \<open>Properties\<close>

text \<open>
  C15. The loop over the references of a manifest builds exactly the layers of the loop-free
  specification: one per blob that is not the image configuration, in order, named by the hash
  of all digests up to it, with the previous one as its parent and the blob's URL as its path.
\<close>

theorem layers_meet_spec:
  "ToClairLayers req m = map (layer_spec req (blobs m)) [0..<length (blobs m)]"
  by (rule ToClairLayers_spec)

text \<open>
  The layers form a chain: the first has no parent, each other names the one before it, and
  every name is the hash in 64 lower-case hexadecimal digits.
\<close>

theorem layers_chained:
  assumes "i < length (ToClairLayers req m)"
  shows "length (lay_Name (ToClairLayers req m ! i)) = 64 \<and>
    list_all is_hex (lay_Name (ToClairLayers req m ! i)) \<and>
    lay_ParentName (ToClairLayers req m ! i) = (if i = 0 then [] else lay_Name (ToClairLayers req m ! (i - 1)))"
proof -
  from assms have i: "i < length (blobs m)" by simp
  then have "lay_ParentName (ToClairLayers req m ! i) = (if i = 0 then [] else lay_Name (ToClairLayers req m ! (i - 1)))"
    by (cases i) (simp_all add: ToClairLayers_nth layer_spec_def)
  moreover have "lay_Name (ToClairLayers req m ! i) = sha256_hex (chain (take (Suc i) (blobs m)))"
    using i by (simp add: ToClairLayers_nth layer_spec_def)
  ultimately show ?thesis by (simp add: list_all_iff sha256_hex_digits)
qed

definition demo_manifest :: manifest where
  "demo_manifest =
     [\<lparr>desc_MediaType = MediaTypeImageConfig, desc_Digest = ''sha256:c0''\<rparr>,
      \<lparr>desc_MediaType = ''layer'', desc_Digest = ''sha256:l1''\<rparr>,
      \<lparr>desc_MediaType = ''layer'', desc_Digest = ''sha256:l2''\<rparr>]"

lemma demo_blobs: "blobs demo_manifest =
  [\<lparr>desc_MediaType = ''layer'', desc_Digest = ''sha256:l1''\<rparr>, \<lparr>desc_MediaType = ''layer'', desc_Digest = ''sha256:l2''\<rparr>]"
  by (simp add: demo_manifest_def MediaTypeImageConfig_def)

lemma layers_chained_witness:
  "lay_ParentName (ToClairLayers zero_ScanRequest demo_manifest ! 1) =
     lay_Name (ToClairLayers zero_ScanRequest demo_manifest ! 0)"
  using layers_chained [of 1 zero_ScanRequest demo_manifest] by (simp add: demo_blobs)

text \<open>
  C16. A layer's name is shared between two images exactly when they agree on all digests up to
  it, so a layer of a base image is scanned once for every image built on it: two layers have
  the same name if and only if the digests up to them are the same, or the two different
  chains of digests collide under SHA-256. Digests contain no dash.
\<close>

theorem layer_names_shared:
  assumes "\<forall>d \<in> set (blobs m). CHR ''-'' \<notin> set (desc_Digest d)"
    and "\<forall>d \<in> set (blobs m'). CHR ''-'' \<notin> set (desc_Digest d)"
    and "i < length (blobs m)" and "j < length (blobs m')"
  shows "lay_Name (ToClairLayers req m ! i) = lay_Name (ToClairLayers req' m' ! j) \<longleftrightarrow>
    map desc_Digest (take (Suc i) (blobs m)) = map desc_Digest (take (Suc j) (blobs m')) \<or>
    (chain (take (Suc i) (blobs m)) \<noteq> chain (take (Suc j) (blobs m')) \<and>
     sha256_hex (chain (take (Suc i) (blobs m))) = sha256_hex (chain (take (Suc j) (blobs m'))))"
proof -
  let ?a = "take (Suc i) (blobs m)" and ?b = "take (Suc j) (blobs m')"
  have "\<forall>d \<in> set ?a. CHR ''-'' \<notin> set (desc_Digest d)" "\<forall>d \<in> set ?b. CHR ''-'' \<notin> set (desc_Digest d)"
    using assms(1,2) by (meson in_set_takeD)+
  then have "chain ?a = chain ?b \<Longrightarrow> map desc_Digest ?a = map desc_Digest ?b"
    by (rule chain_inject)
  moreover have "chain ?a = chain ?b" if "map desc_Digest ?a = map desc_Digest ?b"
  proof -
    have "chain ds = concat (map (\<lambda>s. s @ ''-'') (map desc_Digest ds))" for ds
      by (simp add: chain_def comp_def)
    then show ?thesis unfolding that by (metis that)
  qed
  ultimately show ?thesis
    using assms(3,4) by (auto simp: ToClairLayers_nth layer_spec_def)
qed

lemma layer_names_shared_witness:
  "lay_Name (ToClairLayers zero_ScanRequest demo_manifest ! 0) =
   lay_Name (ToClairLayers zero_ScanRequest (take 2 demo_manifest) ! 0)"
proof -
  have b: "blobs (take 2 demo_manifest) = [\<lparr>desc_MediaType = ''layer'', desc_Digest = ''sha256:l1''\<rparr>]"
    by (simp add: demo_manifest_def MediaTypeImageConfig_def)
  show ?thesis
    using layer_names_shared [of demo_manifest "take 2 demo_manifest" 0 0 zero_ScanRequest zero_ScanRequest]
    by (simp add: demo_blobs b)
qed

text \<open>
  C17. The severity of a report is that of its worst vulnerability, and \<open>None\<close> when it has
  none: the code computes it from Clair's layer through a map of counts whose iteration order
  is unspecified, and the result agrees with the items listed, in every order.
\<close>

theorem report_severity_is_worst_item:
  assumes "\<And>ks. set (order ks) = set ks"
    and "ToHarborScanReport now order a src w = (Ok r, w')"
  shows "rep_Severity r = Max (insert SevNone (vi_Severity ` set (elems (rep_Vulnerabilities r))))"
proof (cases src)
  case None
  with assms(2) show ?thesis by (simp add: report_nil)
next
  case (Some l)
  have "vi_Severity ` set (elems (toVulnerabilityItems (Some l))) =
      set (map (\<lambda>(f, v). toHarborSeverity (vul_Severity v)) (vulnerabilities l))"
    unfolding items_elems by (force simp: vulnerability_item_def)
  then show ?thesis
    using assms(2) unfolding Some report_Ok [OF assms(1)] by auto
qed

definition demo_layer :: Layer where
  "demo_layer = zero_Layer\<lparr>lay_Features :=
     Some [Feature ''zlib'' [] [] ''1.2'' (Some [Vulnerability ''CVE-1'' [] [] [] ''Low'' None ''1.3'' None,
                                                 Vulnerability ''CVE-2'' [] [] ''https://cve/2'' ''HIGH'' None [] None]) [],
           Feature ''bash'' [] [] ''5.0'' None []]\<rparr>"

lemma report_severity_is_worst_item_witness:
  "\<exists>r. ToHarborScanReport (\<lambda>w. (zero_time, w)) rev zero_Artifact (Some demo_layer) () = (Ok r, ()) \<and>
     rep_Severity r = Max (insert SevNone (vi_Severity ` set (elems (rep_Vulnerabilities r)))) \<and>
     rep_Severity r = SevHigh"
proof -
  obtain r where r: "ToHarborScanReport (\<lambda>w. (zero_time, w)) rev zero_Artifact (Some demo_layer) () = (Ok r, ())"
    by (simp add: report_Ok)
  have "map (\<lambda>(f, v). toHarborSeverity (vul_Severity v)) (vulnerabilities demo_layer) =
      [toHarborSeverity ''Low'', toHarborSeverity ''HIGH'']"
    by (simp add: vulnerabilities_def demo_layer_def)
  moreover have "toHarborSeverity ''Low'' = SevLow" "toHarborSeverity ''HIGH'' = SevHigh"
    by (simp_all add: toHarborSeverity_def Let_def clair_sev_defs rune_to_lower_def char_of_def bit_0)
  ultimately have "rep_Severity r = SevHigh"
    using r by (auto simp: report_Ok sev_defs)
  with r report_severity_is_worst_item [OF _ r] show ?thesis by auto
qed

text \<open>
  C18. Every vulnerability of every feature gives one item, in Clair's order, with its name, the
  feature's name and version, the fixed version, the mapped severity, and its link if there is
  one; and the list is nil, which prints as \<open>null\<close>, exactly when there is none.
\<close>

theorem report_items_complete:
  "elems (toVulnerabilityItems (Some l)) = map (\<lambda>(f, v). vulnerability_item f v) (vulnerabilities l) \<and>
   (toVulnerabilityItems (Some l) = None \<longleftrightarrow> vulnerabilities l = [])"
  by (simp add: items_elems items_None_iff)

text \<open>
  A report survives being stored: all its severities are among the seven with a name, so
  what the store reads back differs at most in bytes that are not UTF-8.
\<close>

theorem report_survives_storage:
  assumes "\<And>ks. set (order ks) = set ks"
    and "ToHarborScanReport now order a src w = (Ok r, w')"
  shows "stored_report r = san_report r"
  by (rule stored_report_named, rule report_named [OF assms])

lemma report_survives_storage_witness:
  "\<exists>r. ToHarborScanReport (\<lambda>w. (zero_time, w)) rev zero_Artifact (Some demo_layer) () = (Ok r, ()) \<and>
     stored_report r = san_report r"
proof -
  obtain r where r: "ToHarborScanReport (\<lambda>w. (zero_time, w)) rev zero_Artifact (Some demo_layer) () = (Ok r, ())"
    by (simp add: report_Ok)
  with report_survives_storage [OF _ r] show ?thesis by auto
qed

end
