(* ===== verification/ClairClient.thy ===== *)
theory ClairClient
  imports ClairModel GoHttp Etc Job
begin

text \<open>
  \<open>pkg/clair/client.go\<close>: the client of Clair's REST API and of its database. The HTTP
  library, the database driver and the time zone of the host are arguments. A database is
  what \<open>Query\<close> does: an error, or the rows, each of which \<open>Scan\<close> reads or fails to read.
\<close>

type_synonym 'w sql_db = "string \<Rightarrow> string \<Rightarrow> ('w, (string + string) list) lib_call"

record 'w clair_client =
  cc_db :: "'w sql_db option"
  cc_endpointURL :: string
  cc_client :: http_client

text \<open>The interface \<open>clair.Client\<close>.\<close>

record 'w clair_Client =
  ScanLayer_of :: "Layer \<Rightarrow> ('w, unit) act"
  GetLayer_of :: "string \<Rightarrow> ('w, LayerEnvelope) act"
  GetVulnerabilityDatabaseUpdatedAt_of :: "('w, go_time option) act"

record 'w clair_lib =
  cl_http :: "'w http_lib"
  cl_errors :: json_errors
  cl_features :: "Feature list \<Rightarrow> json"
  cl_local_offset :: "int \<Rightarrow> int"    \<comment> \<open>seconds east of UTC at an instant\<close>

definition updaterLast :: string where "updaterLast = ''updater/last''"

definition clair_NewClient ::
  "(string \<Rightarrow> string + 'w sql_db) \<Rightarrow> TLSConfig \<Rightarrow> ClairConfig \<Rightarrow> 'w clair_client res" where
  "clair_NewClient db_open tls cfg =
     (let mk = (\<lambda>db. \<lparr>cc_db = db, cc_endpointURL = trim_suffix ''/'' (clair_URL cfg),
                     cc_client = \<lparr>hc_InsecureSkipVerify = tls_InsecureSkipVerify tls,
                                  hc_RootCAs = tls_RootCAs tls\<rparr>\<rparr>)
      in if clair_DatabaseURL cfg \<noteq> [] then
           (case db_open (clair_DatabaseURL cfg) of Inl e \<Rightarrow> Err e | Inr db \<Rightarrow> Ok (mk (Some db)))
         else Ok (mk None))"

definition send ::
  "'w clair_lib \<Rightarrow> 'w clair_client \<Rightarrow> http_request \<Rightarrow> int \<Rightarrow> ('w, string) act" where
  "send lib c req expectedStatus =
     bind_act (lib_act (hl_do (cl_http lib) (cc_client c) req)) (\<lambda>resp.
       case rs_Body resp of
         Inl e \<Rightarrow> throw e
       | Inr b \<Rightarrow>
           if rs_StatusCode resp \<noteq> expectedStatus then
             throw (''unexpected status code: '' @ itoa (rs_StatusCode resp) @ '', text: '' @ b)
           else ret b)"

definition ScanLayer :: "'w clair_lib \<Rightarrow> 'w clair_client \<Rightarrow> Layer \<Rightarrow> ('w, unit) act" where
  "ScanLayer lib c layer =
     bind_act (lift_res (marshal (cl_errors lib)
         (Some (json_LayerEnvelope (cl_features lib) \<lparr>env_Layer = Some layer, env_Error = None\<rparr>))))
       (\<lambda>data.
     bind_act (lift_res (new_request (cl_http lib) ''POST'' (cc_endpointURL c @ ''/v1/layers'') data))
       (\<lambda>req.
     bind_act (send lib c (set_header ''Content-Type'' ''application/json'' req) 201)
       (\<lambda>_. ret ())))"

definition GetLayer :: "'w clair_lib \<Rightarrow> 'w clair_client \<Rightarrow> string \<Rightarrow> ('w, LayerEnvelope) act" where
  "GetLayer lib c layerName =
     bind_act (lift_res (new_request (cl_http lib) ''GET''
         (cc_endpointURL c @ ''/v1/layers/'' @ layerName @ ''?features&vulnerabilities'') []))
       (\<lambda>req.
     bind_act (send lib c req 200)
       (\<lambda>b. lift_res (unmarshal (je_unmarshal (cl_errors lib)) dec_LayerEnvelope zero_LayerEnvelope b)))"

text \<open>Reading the rows: the first that cannot be read ends the process.\<close>

fun scan_rows :: "(string + string) list \<Rightarrow> string list res" where
  "scan_rows [] = Ok []"
| "scan_rows (Inl e # rows) = Panic (FatalExit e)"
| "scan_rows (Inr v # rows) = map_res ((#) v) (scan_rows rows)"

fun num_error_text :: "string \<Rightarrow> num_error \<Rightarrow> string" where
  "num_error_text s ErrSyntax = s @ '': invalid syntax''"
| "num_error_text s ErrRange = s @ '': value out of range''"

definition GetVulnerabilityDatabaseUpdatedAt ::
  "'w clair_lib \<Rightarrow> (string \<Rightarrow> string) \<Rightarrow> 'w clair_client \<Rightarrow> ('w, go_time option) act"
where
  "GetVulnerabilityDatabaseUpdatedAt lib quote c =
     (case cc_db c of
        None \<Rightarrow> ret None
      | Some db \<Rightarrow>
          bind_act (lib_act (db ''SELECT value from keyvalue where key = $1'' updaterLast)) (\<lambda>rows.
          bind_act (lift_res (scan_rows rows)) (\<lambda>values.
            if length values = 0 then ret None
            else if length values > 1 then
              throw (''multiple entries for '' @ updaterLast @ '' in Clair DB'')
            else (case parse_int 0 (values ! 0) of
                Inl e \<Rightarrow> throw (''strconv.ParseInt: parsing '' @ num_error_text (quote (values ! 0)) e)
              | Inr t \<Rightarrow> ret (Some \<lparr>unix_sec = t, nanos = 0, zone_off = cl_local_offset lib t\<rparr>)))))"

definition clair_iface ::
  "'w clair_lib \<Rightarrow> (string \<Rightarrow> string) \<Rightarrow> 'w clair_client \<Rightarrow> 'w clair_Client" where
  "clair_iface lib quote c =
     \<lparr>ScanLayer_of = ScanLayer lib c, GetLayer_of = GetLayer lib c,
      GetVulnerabilityDatabaseUpdatedAt_of = GetVulnerabilityDatabaseUpdatedAt lib quote c\<rparr>"

subsection \<open>What the operations do\<close>

lemma returns_send [returns_intros]: "returns (send lib c req n)"
  unfolding send_def by (intro returns_intros) (simp split: sum.split add: returns_act)

lemma marshal_not_Panic [simp]: "\<not> is_Panic (marshal je j)"
  by (simp add: marshal_def split: option.split)

lemma unmarshal_returns [simp]: "\<not> is_Panic (unmarshal je f z s)"
  by (metis is_Panic_iff unmarshal_not_Panic)

lemma returns_ScanLayer: "returns (ScanLayer lib c l)"
  unfolding ScanLayer_def by (intro returns_intros) (simp_all add: returns_act)

lemma returns_GetLayer: "returns (GetLayer lib c n)"
  unfolding GetLayer_def by (intro returns_intros) (simp_all add: returns_act)

text \<open>A response is used only when its status is the expected one and its body was read.\<close>

lemma send_Ok_iff:
  "send lib c req n w = (Ok b, w') \<longleftrightarrow>
     (\<exists>resp. hl_do (cl_http lib) (cc_client c) req w = (Inr resp, w') \<and>
             rs_Body resp = Inr b \<and> rs_StatusCode resp = n)"
  by (cases "hl_do (cl_http lib) (cc_client c) req w"; cases "fst (hl_do (cl_http lib) (cc_client c) req w)")
     (auto simp: send_def bind_act_def lib_act_def ret_def throw_def split: sum.splits if_splits)

text \<open>The last update is known exactly when the one row of the table is an integer.\<close>

lemma scan_rows_Ok_iff: "scan_rows rows = Ok vs \<longleftrightarrow> rows = map Inr vs"
proof (induction rows arbitrary: vs)
  case (Cons r rows)
  then show ?case by (cases r) (auto simp: Cons_eq_map_conv eq_commute [of "_ # _" "map _ _"])
qed auto

lemma scan_rows_not_Err: "scan_rows rows \<noteq> Err e"
proof (induction rows)
  case (Cons r rows)
  then show ?case by (cases r) auto
qed simp

text \<open>
  The time of the last update of Clair's database is known exactly when the database is
  configured, the query gives one row, the row can be read, and its text is a 64-bit integer in
  Go's notation with a base prefix; it is then that many seconds, in the zone of the host.
\<close>

theorem UpdatedAt_Some_iff:
  "GetVulnerabilityDatabaseUpdatedAt lib quote c w = (Ok (Some t), w') \<longleftrightarrow>
     (\<exists>db v. cc_db c = Some db \<and>
        db ''SELECT value from keyvalue where key = $1'' updaterLast w = (Inr [Inr v], w') \<and>
        parse_int 0 v = Inr (unix_sec t) \<and> nanos t = 0 \<and>
        zone_off t = cl_local_offset lib (unix_sec t))"
proof (cases "cc_db c")
  case None
  then show ?thesis by (simp add: GetVulnerabilityDatabaseUpdatedAt_def ret_def)
next
  case (Some db)
  obtain r w1 where q: "db ''SELECT value from keyvalue where key = $1'' updaterLast w = (r, w1)"
    by fastforce
  show ?thesis
  proof (cases r)
    case (Inl e)
    with q Some show ?thesis
      by (simp add: GetVulnerabilityDatabaseUpdatedAt_def bind_act_def lib_act_def)
  next
    case (Inr rows)
    show ?thesis
    proof (cases "scan_rows rows")
      case (Ok vs)
      have single: "map Inr vs = [Inr v] \<longleftrightarrow> vs = [v]" for v :: string
        by (cases vs) auto
      from Ok have rows: "rows = map Inr vs" by (simp add: scan_rows_Ok_iff)
      show ?thesis
      proof (cases vs)
        case Nil
        with q Some Inr Ok rows show ?thesis
          by (simp add: GetVulnerabilityDatabaseUpdatedAt_def bind_act_def lib_act_def lift_res_def ret_def)
      next
        case (Cons v vs')
        with q Some Inr Ok rows show ?thesis
          by (cases t) (auto simp: GetVulnerabilityDatabaseUpdatedAt_def bind_act_def lib_act_def
              lift_res_def ret_def throw_def split: sum.split)
      qed
    next
      case (Err e)
      then show ?thesis using scan_rows_not_Err by blast
    next
      case (Panic p)
      with q Some Inr show ?thesis
        by (auto simp: GetVulnerabilityDatabaseUpdatedAt_def bind_act_def lib_act_def lift_res_def)
    qed
  qed
qed

subsection \<open>Properties\<close>

definition scan_layer_request :: "'w clair_lib \<Rightarrow> 'w clair_client \<Rightarrow> Layer \<Rightarrow> http_request" where
  "scan_layer_request lib c layer =
     \<lparr>rq_Method = ''POST'', rq_URL = cc_endpointURL c @ ''/v1/layers'',
      rq_Header = [(''Content-Type'', ''application/json'')],
      rq_Body = print_json (json_LayerEnvelope (cl_features lib) \<lparr>env_Layer = Some layer, env_Error = None\<rparr>)\<rparr>"

text \<open>
  A layer counts as sent exactly when Clair answered the one \<open>POST\<close> to its endpoint, with
  the layer's JSON as the body, with status 201 and a body that could be read; any other status
  is an error that carries the status and the text of the answer.
\<close>

theorem ScanLayer_accepted_iff:
  "(ScanLayer lib c layer w = (Ok (), w') \<longleftrightarrow>
     hl_url_error (cl_http lib) (cc_endpointURL c @ ''/v1/layers'') = None \<and>
     (\<exists>resp b. hl_do (cl_http lib) (cc_client c) (scan_layer_request lib c layer) w = (Inr resp, w') \<and>
        rs_Body resp = Inr b \<and> rs_StatusCode resp = 201)) \<and>
   returns (ScanLayer lib c layer)"
proof
  show "returns (ScanLayer lib c layer)" by (rule returns_ScanLayer)
  show "ScanLayer lib c layer w = (Ok (), w') \<longleftrightarrow>
     hl_url_error (cl_http lib) (cc_endpointURL c @ ''/v1/layers'') = None \<and>
     (\<exists>resp b. hl_do (cl_http lib) (cc_client c) (scan_layer_request lib c layer) w = (Inr resp, w') \<and>
        rs_Body resp = Inr b \<and> rs_StatusCode resp = 201)"
    by (cases "hl_url_error (cl_http lib) (cc_endpointURL c @ ''/v1/layers'')")
       (auto simp: ScanLayer_def bind_act_Ok_iff lift_res_def marshal_def new_request_def set_header_def
         send_Ok_iff ret_def scan_layer_request_def)
qed

text \<open>
  C32. One row that cannot be read ends the whole process: asking for the last update exits
  with \<open>log.Fatal\<close> exactly when the query succeeded and some row failed to scan, with the error
  of the first such row, whatever the rows after it.
\<close>

theorem UpdatedAt_fatal_iff:
  "(GetVulnerabilityDatabaseUpdatedAt lib quote c w = (Panic p, w')) \<longleftrightarrow>
     (\<exists>db vs e rows. cc_db c = Some db \<and>
        db ''SELECT value from keyvalue where key = $1'' updaterLast w = (Inr (map Inr vs @ Inl e # rows), w') \<and>
        p = FatalExit e)"
proof -
  have fatal: "scan_rows rows = Panic p \<longleftrightarrow> (\<exists>vs e rest. rows = map Inr vs @ Inl e # rest \<and> p = FatalExit e)" for rows
  proof (induction rows)
    case (Cons r rows)
    show ?case
    proof (cases r)
      case (Inl e)
      have "(Inl e # rows = map Inr vs @ Inl e' # rest) = (vs = [] \<and> e' = e \<and> rest = rows)" for vs e' rest
        by (cases vs) auto
      with Inl show ?thesis by auto
    next
      case (Inr v)
      have "(Inr v # rows = map Inr vs @ Inl e # rest) = (\<exists>vs'. vs = v # vs' \<and> rows = map Inr vs' @ Inl e # rest)" for vs e rest
        by (cases vs) auto
      with Inr Cons show ?thesis by auto
    qed
  qed simp
  have num: "(case x of Inl e \<Rightarrow> throw (g e) | Inr t \<Rightarrow> ret (h t)) u \<noteq> (Panic p, u')"
    for x :: "num_error + int" and g and h :: "int \<Rightarrow> go_time option" and u u'
    by (cases x) simp_all
  show ?thesis
    by (cases "cc_db c")
       (auto simp: GetVulnerabilityDatabaseUpdatedAt_def bind_act_Panic_iff lift_res_def fatal lib_act_Ok_iff
         num split: if_splits)
qed

end
