(* ===== verification/Adapter.thy ===== *)
theory Adapter
  imports Transformer ClairClient
begin

text \<open>
  \<open>pkg/scanner/adapter.go\<close>: a scan fetches the manifest, sends every layer to Clair in order
  and asks for the vulnerabilities of the last one. The adapter works on the three interfaces
  it is built from. An image without layers, and an answer of Clair without a layer, make it
  panic, as the code does.
\<close>

record 'w adapter =
  ad_registryClientFactory :: "'w ClientFactory"
  ad_clairClient :: "'w clair_Client"
  ad_transformer :: "'w Transformer"

definition NewAdapter :: "'w ClientFactory \<Rightarrow> 'w clair_Client \<Rightarrow> 'w Transformer \<Rightarrow> 'w adapter" where
  "NewAdapter f c t =
     \<lparr>ad_registryClientFactory = f, ad_clairClient = c, ad_transformer = t\<rparr>"

definition prepareLayers :: "'w adapter \<Rightarrow> ScanRequest \<Rightarrow> ('w, Layer list) act" where
  "prepareLayers s req =
     bind_act (ad_registryClientFactory s) (\<lambda>client.
     bind_act (client req) (\<lambda>manifest.
       ret (tr_ToClairLayers (ad_transformer s) req manifest)))"

fun send_layers :: "'w adapter \<Rightarrow> Layer list \<Rightarrow> ('w, unit) act" where
  "send_layers s [] = ret ()"
| "send_layers s (l # ls) =
     bind_act (ScanLayer_of (ad_clairClient s) l) (\<lambda>_. send_layers s ls)"

definition getReport :: "'w adapter \<Rightarrow> Artifact \<Rightarrow> string \<Rightarrow> ('w, ScanReport) act" where
  "getReport s artifact layerName =
     bind_act (wrap_act (''getting layer '' @ layerName @ '': '')
         (GetLayer_of (ad_clairClient s) layerName)) (\<lambda>envelope.
       tr_ToHarborScanReport (ad_transformer s) artifact (env_Layer envelope))"

text \<open>Indexing with \<open>len(layers)-1\<close>.\<close>

definition last_layer :: "Layer list \<Rightarrow> ('w, Layer) act" where
  "last_layer layers =
     (let i = int (length layers) - 1 in
      if 0 \<le> i \<and> i < int (length layers) then ret (layers ! nat i) else panicking IndexOutOfRange)"

definition Scan :: "'w adapter \<Rightarrow> ScanRequest \<Rightarrow> ('w, ScanReport) act" where
  "Scan s req =
     bind_act (wrap_act ''preparing layers: '' (prepareLayers s req)) (\<lambda>layers.
     bind_act (send_layers s layers) (\<lambda>_.
     bind_act (last_layer layers) (\<lambda>l.
       getReport s (req_Artifact req) (lay_Name l))))"

text \<open>The interface \<open>Adapter\<close>.\<close>

type_synonym 'w Adapter = "ScanRequest \<Rightarrow> ('w, ScanReport) act"

subsection \<open>Lemmas\<close>

lemma last_layer_Nil [simp]: "last_layer [] = panicking IndexOutOfRange"
  by (simp add: last_layer_def)

lemma last_layer_not_Nil [simp]: "ls \<noteq> [] \<Longrightarrow> last_layer ls = ret (last ls)"
  by (cases ls) (simp_all add: last_layer_def Let_def last_conv_nth nat_diff_distrib)

lemma last_layer_Ok: "last_layer ls w = (Ok l, w') \<longleftrightarrow> ls \<noteq> [] \<and> l = last ls \<and> w' = w"
  by (cases "ls = []") (auto simp: ret_def panicking_def)

lemma send_layers_append:
  "send_layers s (xs @ ys) = bind_act (send_layers s xs) (\<lambda>_. send_layers s ys)"
proof (induction xs)
  case Nil
  show ?case by (rule ext) (simp add: bind_act_def ret_def)
next
  case (Cons x xs)
  then show ?case by (simp add: bind_act_assoc)
qed

text \<open>
  Sending succeeds when every layer was accepted, each in the world that the one before it
  left: \<open>ws\<close> has the worlds between.
\<close>

lemma send_layers_Ok_iff:
  "send_layers s ls w = (Ok u, w') \<longleftrightarrow>
     (\<exists>ws. ws 0 = w \<and> ws (length ls) = w' \<and>
        (\<forall>k < length ls. ScanLayer_of (ad_clairClient s) (ls ! k) (ws k) = (Ok (), ws (Suc k))))"
proof (induction ls arbitrary: w)
  case Nil
  show ?case by (auto simp: ret_def)
next
  case (Cons l ls)
  let ?send = "ScanLayer_of (ad_clairClient s)"
  show ?case
  proof
    assume "send_layers s (l # ls) w = (Ok u, w')"
    then obtain w1 where 1: "?send l w = (Ok (), w1)" and rest: "send_layers s ls w1 = (Ok u, w')"
      by (auto simp: bind_act_Ok_iff)
    from rest obtain ws where ws: "ws 0 = w1" "ws (length ls) = w'"
      "\<forall>k < length ls. ?send (ls ! k) (ws k) = (Ok (), ws (Suc k))"
      unfolding Cons.IH by blast
    have "?send ((l # ls) ! k) (case_nat w ws k) = (Ok (), case_nat w ws (Suc k))" if "k < length (l # ls)" for k
      using that 1 ws by (cases k) simp_all
    with ws(2) show "\<exists>ws. ws 0 = w \<and> ws (length (l # ls)) = w' \<and>
        (\<forall>k < length (l # ls). ?send ((l # ls) ! k) (ws k) = (Ok (), ws (Suc k)))"
      by (intro exI [of _ "case_nat w ws"]) simp
  next
    assume "\<exists>ws. ws 0 = w \<and> ws (length (l # ls)) = w' \<and>
        (\<forall>k < length (l # ls). ?send ((l # ls) ! k) (ws k) = (Ok (), ws (Suc k)))"
    then obtain ws where ws: "ws 0 = w" "ws (Suc (length ls)) = w'"
      and all: "\<And>k. k < Suc (length ls) \<Longrightarrow> ?send ((l # ls) ! k) (ws k) = (Ok (), ws (Suc k))" by auto
    have "?send (ls ! k) (ws (Suc k)) = (Ok (), ws (Suc (Suc k)))" if "k < length ls" for k
      using all [of "Suc k"] that by simp
    then have "send_layers s ls (ws 1) = (Ok u, w')"
      unfolding Cons.IH using ws(2) by (intro exI [of _ "\<lambda>k. ws (Suc k)"]) simp
    with all [of 0] ws(1) show "send_layers s (l # ls) w = (Ok u, w')" by (simp add: bind_act_ok)
  qed
qed

lemma returns_send_layers:
  "(\<And>l. returns (ScanLayer_of (ad_clairClient s) l)) \<Longrightarrow> returns (send_layers s ls)"
  by (induction ls) (simp_all add: returns_act returns_bind)

lemma Scan_Ok_iff:
  "Scan s req w = (Ok r, w') \<longleftrightarrow>
     (\<exists>client wa manifest w1 w2 w3 env.
        ad_registryClientFactory s w = (Ok client, wa) \<and> client req wa = (Ok manifest, w1) \<and>
        tr_ToClairLayers (ad_transformer s) req manifest \<noteq> [] \<and>
        send_layers s (tr_ToClairLayers (ad_transformer s) req manifest) w1 = (Ok (), w2) \<and>
        GetLayer_of (ad_clairClient s)
          (lay_Name (last (tr_ToClairLayers (ad_transformer s) req manifest))) w2 = (Ok env, w3) \<and>
        tr_ToHarborScanReport (ad_transformer s) (req_Artifact req) (env_Layer env) w3 = (Ok r, w'))"
  by (auto simp: Scan_def prepareLayers_def getReport_def bind_act_Ok_iff wrap_act_iff last_layer_Ok ret_def)

lemma new_adapter_sel:
  "ad_registryClientFactory (NewAdapter f c t) = f" "ad_clairClient (NewAdapter f c t) = c"
  "ad_transformer (NewAdapter f c t) = t"
  "tr_ToClairLayers (NewTransformer now order) = ToClairLayers"
  "tr_ToHarborScanReport (NewTransformer now order) = ToHarborScanReport now order"
  by (simp_all add: NewAdapter_def NewTransformer_def)

text \<open>How a scan succeeds: every step did.\<close>

lemma Scan_OkE:
  assumes "Scan s req w = (Ok r, w')"
  obtains layers w1 w2 w3 env where
    "prepareLayers s req w = (Ok layers, w1)" and "layers \<noteq> []"
    and "send_layers s layers w1 = (Ok (), w2)"
    and "GetLayer_of (ad_clairClient s) (lay_Name (last layers)) w2 = (Ok env, w3)"
    and "tr_ToHarborScanReport (ad_transformer s) (req_Artifact req) (env_Layer env) w3 = (Ok r, w')"
  using assms
  by (auto simp: Scan_def getReport_def bind_act_Ok_iff wrap_act_iff last_layer_Ok)

text \<open>A layer that Clair refuses is the last one sent, and its error is the scan's.\<close>

lemma send_layers_stop:
  assumes "send_layers s xs w = (Ok (), w1)" and "ScanLayer_of (ad_clairClient s) l w1 = (Err e, w2)"
  shows "send_layers s (xs @ l # ys) w = (Err e, w2)"
  using assms by (simp add: send_layers_append bind_act_ok bind_act_err)

subsection \<open>What a scan leaves alone\<close>

text \<open>If the libraries keep a relation of worlds, so does a scan with the clients of this program.\<close>

definition http_keeps :: "('w \<Rightarrow> 'w \<Rightarrow> bool) \<Rightarrow> 'w http_lib \<Rightarrow> bool" where
  "http_keeps R lib \<longleftrightarrow> (\<forall>c rq w. R w (snd (hl_do lib c rq w)))"

lemma keeps_send:
  "preorder_rel R \<Longrightarrow> http_keeps R (cl_http lib) \<Longrightarrow> keeps R (send lib c rq n)"
  unfolding send_def
  by (intro keeps_bind) (auto simp: keeps_lib http_keeps_def keeps_act split: sum.split)

lemma keeps_ScanLayer:
  "preorder_rel R \<Longrightarrow> http_keeps R (cl_http lib) \<Longrightarrow> keeps R (ScanLayer lib c l)"
  unfolding ScanLayer_def by (intro keeps_bind keeps_send) (auto simp: keeps_act)

lemma keeps_GetLayer:
  "preorder_rel R \<Longrightarrow> http_keeps R (cl_http lib) \<Longrightarrow> keeps R (GetLayer lib c n)"
  unfolding GetLayer_def by (intro keeps_bind keeps_send) (auto simp: keeps_act)

lemma keeps_GetManifest:
  "preorder_rel R \<Longrightarrow> http_keeps R (rl_http lib) \<Longrightarrow> keeps R (GetManifest lib c sr)"
  unfolding GetManifest_def
  by (intro keeps_bind) (auto simp: keeps_lib http_keeps_def keeps_act split: sum.split)

lemma keeps_ToHarborScanReport:
  "(\<And>w. R w (snd (now w))) \<Longrightarrow> keeps R (ToHarborScanReport now order a l)"
  by (simp add: keeps_def ToHarborScanReport_def split: prod.split res.split) (metis snd_conv)

lemma keeps_send_layers:
  "preorder_rel R \<Longrightarrow> (\<And>l. keeps R (ScanLayer_of (ad_clairClient s) l)) \<Longrightarrow> keeps R (send_layers s ls)"
  by (induction ls) (simp_all add: keeps_act keeps_bind)

lemma keeps_Scan:
  assumes R: "preorder_rel R"
    and factory: "keeps R (ad_registryClientFactory s)"
    and client: "\<And>client w w' sr. ad_registryClientFactory s w = (Ok client, w') \<Longrightarrow> keeps R (client sr)"
    and scan_layer: "\<And>l. keeps R (ScanLayer_of (ad_clairClient s) l)"
    and get_layer: "\<And>n. keeps R (GetLayer_of (ad_clairClient s) n)"
    and report: "\<And>a l. keeps R (tr_ToHarborScanReport (ad_transformer s) a l)"
  shows "keeps R (Scan s req)"
proof -
  have "keeps R (prepareLayers s req)"
    unfolding keeps_def
  proof
    fix w
    obtain r w1 where f: "ad_registryClientFactory s w = (r, w1)" by fastforce
    have 1: "R w w1" by (rule keepsD [OF factory f])
    show "R w (snd (prepareLayers s req w))"
    proof (cases r)
      case (Ok c)
      have "keeps R (bind_act (c req) (\<lambda>m. ret (tr_ToClairLayers (ad_transformer s) req m)))"
        using client [OF f [unfolded Ok]] by (intro keeps_bind R) (auto simp: keeps_act R)
      then have "R w1 (snd (bind_act (c req) (\<lambda>m. ret (tr_ToClairLayers (ad_transformer s) req m)) w1))"
        by (simp add: keeps_def)
      with 1 R have "R w (snd (bind_act (c req) (\<lambda>m. ret (tr_ToClairLayers (ad_transformer s) req m)) w1))"
        unfolding preorder_rel_def by blast
      with f Ok show ?thesis by (simp add: prepareLayers_def bind_act_def)
    qed (use 1 f in \<open>simp_all add: prepareLayers_def bind_act_def\<close>)
  qed
  moreover have "keeps R (last_layer ls)" for ls
    using R by (cases "ls = []") (simp_all add: keeps_act)
  ultimately show ?thesis
    unfolding Scan_def getReport_def
    by (intro keeps_bind keeps_wrap keeps_send_layers R scan_layer get_layer report)
qed

text \<open>The report of a scan carries the time the clock showed.\<close>

lemma Scan_time:
  assumes "Scan s req w = (Ok r, w')" and "ad_transformer s = NewTransformer now order"
  shows "\<exists>w1. rep_GeneratedAt r = fst (now w1)"
proof -
  from assms(1) obtain env :: LayerEnvelope and w3 where
    "tr_ToHarborScanReport (ad_transformer s) (req_Artifact req) (env_Layer env) w3 = (Ok r, w')"
    by (rule Scan_OkE)
  then have "ToHarborScanReport now order (req_Artifact req) (env_Layer env) w3 = (Ok r, w')"
    by (simp add: assms(2) NewTransformer_def)
  then have "rep_GeneratedAt r = fst (now w3)"
    by (auto simp: ToHarborScanReport_def split: prod.splits res.splits)
  then show ?thesis by blast
qed

text \<open>Its severities all have names, so storing it loses only bytes that are not UTF-8.\<close>

lemma Scan_named:
  assumes "Scan s req w = (Ok r, w')" and "ad_transformer s = NewTransformer now order"
    and "\<And>ks. set (order ks) = set ks"
  shows "stored_report r = san_report r"
proof -
  from assms(1) obtain env :: LayerEnvelope and w3 where
    "tr_ToHarborScanReport (ad_transformer s) (req_Artifact req) (env_Layer env) w3 = (Ok r, w')"
    by (rule Scan_OkE)
  then have "ToHarborScanReport now order (req_Artifact req) (env_Layer env) w3 = (Ok r, w')"
    by (simp add: assms(2) NewTransformer_def)
  then show ?thesis by (rule stored_report_named [OF report_named [OF assms(3)]])
qed

subsection \<open>Properties\<close>

text \<open>
  C13. A scan returns a report exactly when the manifest was fetched with the client of the factory
  and has a layer; Clair accepted every layer made of it, the first one first, each sent when the
  one below it had been accepted; Clair's answer about the topmost layer has a layer; and the
  report is the one made of it, for the artifact of the request.
\<close>

theorem scan_protocol:
  "Scan (NewAdapter factory clair (NewTransformer now order)) req w = (Ok r, w') \<longleftrightarrow>
     (\<exists>client wa manifest ls ws env w3 l.
        factory w = (Ok client, wa) \<and> client req wa = (Ok manifest, ws 0) \<and>
        ls = ToClairLayers req manifest \<and> ls \<noteq> [] \<and>
        (\<forall>k < length ls. ScanLayer_of clair (ls ! k) (ws k) = (Ok (), ws (Suc k))) \<and>
        GetLayer_of clair (lay_Name (ls ! (length ls - 1))) (ws (length ls)) = (Ok env, w3) \<and>
        env_Layer env = Some l \<and>
        ToHarborScanReport now order (req_Artifact req) (Some l) w3 = (Ok r, w'))"
  (is "_ \<longleftrightarrow> (\<exists>client wa manifest ls ws env w3 l. ?protocol client wa manifest ls ws env w3 l)")
proof
  assume "Scan (NewAdapter factory clair (NewTransformer now order)) req w = (Ok r, w')"
  then obtain client wa manifest ls ws env w3 where
    1: "factory w = (Ok client, wa)" "client req wa = (Ok manifest, ws 0)" "ls = ToClairLayers req manifest" "ls \<noteq> []"
      "\<forall>k < length ls. ScanLayer_of clair (ls ! k) (ws k) = (Ok (), ws (Suc k))"
      "GetLayer_of clair (lay_Name (last ls)) (ws (length ls)) = (Ok env, w3)"
    and 2: "ToHarborScanReport now order (req_Artifact req) (env_Layer env) w3 = (Ok r, w')"
    unfolding Scan_Ok_iff send_layers_Ok_iff new_adapter_sel by blast
  from 2 obtain l where l: "env_Layer env = Some l" by (cases "env_Layer env") (simp_all add: report_nil)
  with 1 2 have "?protocol client wa manifest ls ws env w3 l" by (simp add: last_conv_nth)
  then show "\<exists>client wa manifest ls ws env w3 l. ?protocol client wa manifest ls ws env w3 l" by blast
next
  assume "\<exists>client wa manifest ls ws env w3 l. ?protocol client wa manifest ls ws env w3 l"
  then obtain client wa manifest ls ws env w3 l where p: "?protocol client wa manifest ls ws env w3 l" by blast
  then have "ls \<noteq> []" and g: "GetLayer_of clair (lay_Name (ls ! (length ls - 1))) (ws (length ls)) = (Ok env, w3)"
    by blast+
  then have "GetLayer_of clair (lay_Name (last ls)) (ws (length ls)) = (Ok env, w3)" using last_conv_nth [of ls] by simp
  with p show "Scan (NewAdapter factory clair (NewTransformer now order)) req w = (Ok r, w')"
    unfolding Scan_Ok_iff send_layers_Ok_iff new_adapter_sel by metis
qed

text \<open>
  Layers are sent in order and one at a time: when Clair refuses one, the ones below it
  were accepted, none above it is sent, and the scan fails with Clair's error as it is.
\<close>

theorem scan_stops_at_refused_layer:
  assumes "prepareLayers s req w = (Ok (lower @ l # upper), w1)"
    and "send_layers s lower w1 = (Ok (), w2)"
    and "ScanLayer_of (ad_clairClient s) l w2 = (Err e, w3)"
  shows "Scan s req w = (Err e, w3)"
  using assms send_layers_stop [OF assms(2,3), of upper]
  by (simp add: Scan_def bind_act_def wrap_act_def)

text \<open>A Clair that keeps the names of the layers it was sent, and refuses one after some.\<close>

definition demo_clair :: "nat \<Rightarrow> string list clair_Client" where
  "demo_clair n =
     \<lparr>ScanLayer_of = (\<lambda>l w. if length w = n then (Err ''refused'', w) else (Ok (), w @ [lay_Name l])),
      GetLayer_of = (\<lambda>name w. (Ok zero_LayerEnvelope, w)),
      GetVulnerabilityDatabaseUpdatedAt_of = ret None\<rparr>"

definition demo_adapter_refused :: "string list adapter" where
  "demo_adapter_refused =
     NewAdapter (ret (\<lambda>req. ret demo_manifest)) (demo_clair 1) (NewTransformer (\<lambda>w. (zero_time, w)) id)"

lemma scan_protocol_witness:
  fixes factory :: "string list ClientFactory"
  defines "factory \<equiv> ret (\<lambda>req. ret demo_manifest)"
    and "clair \<equiv> (demo_clair 5)\<lparr>GetLayer_of := \<lambda>name w. (Ok \<lparr>env_Layer = Some zero_Layer, env_Error = None\<rparr>, w @ [name])\<rparr>"
  shows "\<exists>r bottom top. map lay_Name (ToClairLayers zero_ScanRequest demo_manifest) = [bottom, top] \<and>
    Scan (NewAdapter factory clair (NewTransformer (\<lambda>w. (zero_time, w)) id)) zero_ScanRequest [] = (Ok r, [bottom, top, top])"
proof -
  let ?L = "ToClairLayers zero_ScanRequest demo_manifest"
  have len: "length ?L = 2" by (simp add: demo_blobs)
  then obtain a b where L: "?L = [a, b]"
    by (cases ?L; cases "tl ?L") auto
  have art: "req_Artifact zero_ScanRequest = zero_Artifact" by (simp add: zero_ScanRequest_def)
  let ?ws = "\<lambda>k. take k [lay_Name a, lay_Name b]"
  obtain r where r: "ToHarborScanReport (\<lambda>w. (zero_time, w)) id zero_Artifact (Some zero_Layer) [lay_Name a, lay_Name b, lay_Name b] =
      (Ok r, [lay_Name a, lay_Name b, lay_Name b])"
    using report_Ok [of id "\<lambda>w. (zero_time, w)" zero_Artifact zero_Layer "[lay_Name a, lay_Name b, lay_Name b]"] by simp
  have "Scan (NewAdapter factory clair (NewTransformer (\<lambda>w. (zero_time, w)) id)) zero_ScanRequest [] =
      (Ok r, [lay_Name a, lay_Name b, lay_Name b])"
    unfolding scan_protocol
    by (rule exI [of _ "\<lambda>req. ret demo_manifest"], rule exI [of _ "[]"], rule exI [of _ demo_manifest], rule exI [of _ "[a, b]"],
        rule exI [of _ ?ws])
       (use r in \<open>auto simp: L art factory_def clair_def demo_clair_def ret_def less_Suc_eq\<close>)
  with L show ?thesis by auto
qed

lemma scan_stops_at_refused_layer_witness:
  "Scan demo_adapter_refused zero_ScanRequest [] =
     (Err ''refused'', [lay_Name (ToClairLayers zero_ScanRequest demo_manifest ! 0)])"
proof -
  let ?L = "ToClairLayers zero_ScanRequest demo_manifest"
  have "length ?L = 2" by (simp add: demo_blobs)
  then have L: "?L = [?L ! 0] @ ?L ! 1 # []"
    by (cases ?L; cases "tl ?L") auto
  have "prepareLayers demo_adapter_refused zero_ScanRequest [] = (Ok ?L, [])"
    by (simp add: prepareLayers_def demo_adapter_refused_def NewAdapter_def NewTransformer_def bind_act_def ret_def)
  then have "prepareLayers demo_adapter_refused zero_ScanRequest [] = (Ok ([?L ! 0] @ ?L ! 1 # []), [])"
    using L by metis
  then show ?thesis
    by (rule scan_stops_at_refused_layer)
       (auto simp: demo_adapter_refused_def NewAdapter_def demo_clair_def bind_act_def ret_def)
qed

text \<open>
  C14. When a scan does not return. The registry and Clair clients of this program always
  return, with a value or an error. So a scan panics in two cases, and in these always: the
  image has no layers, where the code indexes the empty slice with -1, and Clair's last answer
  has no layer, where the transformer dereferences nil.
\<close>

theorem scan_panics_iff:
  assumes "s = NewAdapter (NewClientFactory rlib tls) (clair_iface clib quote c) (NewTransformer now order)"
    and "globals_ok (snd w)"
  shows "Scan s req w = (Panic p, w') \<longleftrightarrow>
     (prepareLayers s req w = (Ok [], w') \<and> p = IndexOutOfRange) \<or>
     (\<exists>layers w1 w2 w3 env.
        prepareLayers s req w = (Ok layers, w1) \<and> layers \<noteq> [] \<and> send_layers s layers w1 = (Ok (), w2) \<and>
        GetLayer clib c (lay_Name (last layers)) w2 = (Ok env, w3) \<and> env_Layer env = None \<and>
        w' = snd (now w3) \<and> p = NilDereference)"
proof -
  have sel: "ad_registryClientFactory s = NewClientFactory rlib tls"
    "ScanLayer_of (ad_clairClient s) = ScanLayer clib c" "GetLayer_of (ad_clairClient s) = GetLayer clib c"
    "tr_ToHarborScanReport (ad_transformer s) = ToHarborScanReport now order"
    by (simp_all add: assms(1) NewAdapter_def clair_iface_def NewTransformer_def)
  obtain cl g where f: "NewClientFactory rlib tls w = (Ok (GetManifest rlib cl), (fst w, g))"
    using clientFactory_Get_ok [OF assms(2), of tls]
    by (cases "clientFactory_Get tls (snd w)") (auto simp: NewClientFactory_def)
  have p: "prepareLayers s req w \<noteq> (Panic p, v)" for p v
    using f by (auto simp: prepareLayers_def sel bind_act_Panic_iff ret_def returnsD [OF returns_GetManifest])
  have l: "send_layers s ls u \<noteq> (Panic p, v)" for ls u p v
    by (rule returnsD, rule returns_send_layers) (simp add: sel returns_ScanLayer)
  have g: "GetLayer clib c n u \<noteq> (Panic p, v)" for n u p v
    by (rule returnsD) (rule returns_GetLayer)
  have t: "ToHarborScanReport now order a src u = (Panic p, v) \<longleftrightarrow>
      src = None \<and> v = snd (now u) \<and> p = NilDereference" for a src u p v
    by (cases src) (auto simp: ToHarborScanReport_def toComponentsOverview_def split: prod.splits)
  have last: "last_layer ls u = (Panic p, v) \<longleftrightarrow> ls = [] \<and> p = IndexOutOfRange \<and> v = u" for ls :: "Layer list" and u p v
    by (cases "ls = []") (auto simp: panicking_def ret_def)
  show ?thesis
    unfolding Scan_def getReport_def bind_act_Panic_iff wrap_act_iff sel t last last_layer_Ok
    by (auto simp: p l g ret_def)
qed

text \<open>A registry that answers every request with the same manifest.\<close>

definition demo_registry :: "manifest \<Rightarrow> 'w registry_lib" where
  "demo_registry m =
     \<lparr>rl_http = \<lparr>hl_url_error = (\<lambda>u. None),
                hl_do = (\<lambda>c rq w. (Inr \<lparr>rs_StatusCode = 200, rs_Status = ''200 OK'', rs_Body = Inr ''{}''\<rparr>, w))\<rparr>,
      rl_unmarshal_manifest = (\<lambda>mt b. Inr m), rl_quote = id\<rparr>"

definition demo_clair_lib :: "'w clair_lib" where
  "demo_clair_lib =
     \<lparr>cl_http = \<lparr>hl_url_error = (\<lambda>u. None), hl_do = (\<lambda>c rq w. (Inl ''refused'', w))\<rparr>,
      cl_errors = \<lparr>je_marshal = ''unsupported value'', je_unmarshal = (\<lambda>s. ''invalid character'')\<rparr>,
      cl_features = (\<lambda>fs. JNull), cl_local_offset = (\<lambda>t. 0)\<rparr>"

definition demo_clair_client :: "'w clair_client" where
  "demo_clair_client =
     \<lparr>cc_db = None, cc_endpointURL = ''http://clair:6060'',
      cc_client = \<lparr>hc_InsecureSkipVerify = False, hc_RootCAs = None\<rparr>\<rparr>"

definition demo_tls :: TLSConfig where
  "demo_tls = \<lparr>tls_ClientCAs = [], tls_InsecureSkipVerify = False, tls_RootCAs = None\<rparr>"

definition demo_adapter_empty :: "(unit \<times> registry_globals) adapter" where
  "demo_adapter_empty =
     NewAdapter (NewClientFactory (demo_registry [\<lparr>desc_MediaType = MediaTypeImageConfig, desc_Digest = ''sha256:c0''\<rparr>]) demo_tls)
       (clair_iface demo_clair_lib id demo_clair_client) (NewTransformer (\<lambda>w. (zero_time, w)) id)"

lemma scan_panics_iff_witness:
  "\<exists>w'. Scan demo_adapter_empty zero_ScanRequest ((), initial_globals) = (Panic IndexOutOfRange, w')"
proof -
  have "\<exists>w'. prepareLayers demo_adapter_empty zero_ScanRequest ((), initial_globals) = (Ok [], w')"
    by (simp add: prepareLayers_def demo_adapter_empty_def NewAdapter_def NewTransformer_def NewClientFactory_def
        clientFactory_Get_def initial_globals_def GetManifest_def demo_registry_def new_request_def add_header_def
        bind_act_def lift_res_def lib_act_def ret_def ToClairLayers_def)
  with scan_panics_iff [OF demo_adapter_empty_def, of "((), initial_globals)" zero_ScanRequest IndexOutOfRange]
  show ?thesis by (auto simp: initial_globals_ok)
qed

end
