(* ===== verification/Worker.thy ===== *)
theory Worker
  imports RedisContract Adapter
begin

text \<open>
  \<open>pkg/scanner/worker.go\<close> and \<open>pkg/scanner/enqueuer.go\<close>: the task of one scan job and how a
  job is created and handed to the pool. The lemmas about a task are proved in the contract
  \<open>scan_store\<close>, for every store that keeps it, with an adapter that leaves the jobs alone.
\<close>

record 'w worker =
  wk_store :: "'w Store"
  wk_adapter :: "'w Adapter"
  wk_jobID :: string
  wk_request :: ScanRequest

definition scan :: "'w worker \<Rightarrow> ('w, unit) act" where
  "scan wk =
     bind_act (UpdateStatus_of (wk_store wk) (wk_jobID wk) Running []) (\<lambda>_.
     bind_act (wk_adapter wk (wk_request wk)) (\<lambda>report.
     bind_act (UpdateReport_of (wk_store wk) (wk_jobID wk) report) (\<lambda>_.
     bind_act (UpdateStatus_of (wk_store wk) (wk_jobID wk) Finished []) (\<lambda>_.
       ret ()))))"

text \<open>A failed scan sets the status to failed; an error of that is only logged.\<close>

definition Task :: "'w worker \<Rightarrow> ('w, unit) act" where
  "Task wk w =
     (case scan wk w of
        (Ok _, w1) \<Rightarrow> (Ok (), w1)
      | (Panic p, w1) \<Rightarrow> (Panic p, w1)
      | (Err e, w1) \<Rightarrow>
          (case UpdateStatus_of (wk_store wk) (wk_jobID wk) Failed [e] w1 of
             (Panic p, w2) \<Rightarrow> (Panic p, w2)
           | (_, w2) \<Rightarrow> (Ok (), w2)))"

subsection \<open>Enqueuing\<close>

text \<open>The library gives fresh identifiers; handing a worker to the pool is an action.\<close>

record 'w enqueuer =
  en_store :: "'w Store"
  en_run :: "'w worker \<Rightarrow> ('w, unit) act"
  en_adapter :: "'w Adapter"

definition NewEnqueuer :: "('w worker \<Rightarrow> ('w, unit) act) \<Rightarrow> 'w Adapter \<Rightarrow> 'w Store \<Rightarrow> 'w enqueuer" where
  "NewEnqueuer run ad st = \<lparr>en_store = st, en_run = run, en_adapter = ad\<rparr>"

definition pending_job :: "string \<Rightarrow> ScanJob" where
  "pending_job jobID = \<lparr>job_ID = jobID, job_Status = Pending, job_Error = [], job_Report = zero_ScanReport\<rparr>"

definition Enqueue ::
  "('w \<Rightarrow> string \<times> 'w) \<Rightarrow> 'w enqueuer \<Rightarrow> ScanRequest \<Rightarrow> ('w, string) act" where
  "Enqueue uuid e request w =
     (let (jobID, w1) = uuid w in
      bind_act (wrap_act ''creating scan job: '' (Create_of (en_store e) (pending_job jobID))) (\<lambda>_.
      bind_act (en_run e \<lparr>wk_store = en_store e, wk_adapter = en_adapter e, wk_jobID = jobID,
                          wk_request = request\<rparr>) (\<lambda>_.
        ret jobID)) w1)"

lemma Enqueue_Ok_iff:
  "Enqueue uuid e request w = (Ok jobID, w') \<longleftrightarrow>
     (\<exists>w1 w2. uuid w = (jobID, w1) \<and> Create_of (en_store e) (pending_job jobID) w1 = (Ok (), w2) \<and>
        en_run e \<lparr>wk_store = en_store e, wk_adapter = en_adapter e, wk_jobID = jobID,
                  wk_request = request\<rparr> w2 = (Ok (), w'))"
  by (auto simp: Enqueue_def bind_act_Ok_iff wrap_act_iff ret_def split: prod.splits)

text \<open>The job a request starts as can be stored.\<close>

lemma storable_pending: "storable (pending_job i)"
  by (simp add: storable_def pending_job_def Pending_def zero_ScanReport_def)

lemma stored_zero_report: "stored_report zero_ScanReport = zero_ScanReport"
  by (rule stored_clean_report)
     (simp add: clean_report_def zero_ScanReport_def san_Artifact_def zero_Artifact_def san_Scanner_def
       zero_Scanner_def stored_severity_def)

lemma stored_pending: "valid_utf8 i \<Longrightarrow> stored_job (pending_job i) = pending_job i"
  by (simp add: stored_job_def pending_job_def stored_zero_report valid_utf8_def)

subsection \<open>What a task does to its job\<close>

context scan_store
begin

text \<open>One update, seen through the jobs that are live before and after it.\<close>

lemma updated_step:
  assumes "updated f ttl i t0 m r t1 m'" and "live t1 m' i = Some j'" and "t0 \<le> t1"
  obtains j where "live t0 m i = Some j" and
    "case r of Ok u \<Rightarrow> j' = f j | Err e \<Rightarrow> j' = j \<or> j' = f j | Panic p \<Rightarrow> False"
proof (cases r)
  case (Ok u)
  with assms(1) have "updated f ttl i t0 m (Ok u) t1 m'" by simp
  then show thesis by (rule updated_ok [OF _ assms(2)]) (use Ok that in auto)
next
  case (Err e)
  with assms(1) consider "m' = m" | "written f ttl i t0 m t1 m'" by auto
  then show thesis
  proof cases
    case 1
    with assms(2,3) have "live t0 m i = Some j'" by (auto dest: live_mono)
    with Err show thesis by (intro that) auto
  next
    case 2
    then have "updated f ttl i t0 m (Ok ()) t1 m'" by simp
    then show thesis by (rule updated_ok [OF _ assms(2)]) (use Err that in auto)
  qed
next
  case (Panic p)
  with assms show thesis by simp
qed

definition step_ok :: "'w \<Rightarrow> (ScanJob \<Rightarrow> ScanJob) \<Rightarrow> string \<Rightarrow> unit res \<Rightarrow> 'w \<Rightarrow> bool" where
  "step_ok w f i r w' \<longleftrightarrow>
     ok w' \<and>
     (\<forall>j'. job_at w' i = Some j' \<longrightarrow>
        (\<exists>j. job_at w i = Some j \<and>
           (case r of Ok u \<Rightarrow> j' = f j | Err e \<Rightarrow> j' = j \<or> j' = f j | Panic p \<Rightarrow> False))) \<and>
     (is_Panic r \<longrightarrow> job_at w' i = None)"

lemma updated_step_ok:
  "ok w' \<and> clock w \<le> clock w' \<and> updated f ttl i (clock w) (jobs w) r (clock w') (jobs w') \<Longrightarrow>
     step_ok w f i r w'"
proof -
  assume a: "ok w' \<and> clock w \<le> clock w' \<and> updated f ttl i (clock w) (jobs w) r (clock w') (jobs w')"
  have "\<exists>j. live (clock w) (jobs w) i = Some j \<and>
      (case r of Ok u \<Rightarrow> j' = f j | Err e \<Rightarrow> j' = j \<or> j' = f j | Panic p \<Rightarrow> False)"
    if "live (clock w') (jobs w') i = Some j'" for j'
    by (rule updated_step [of f i "clock w" "jobs w" r "clock w'" "jobs w'" j']) (use a that in auto)
  then show ?thesis
    using a by (cases r) (auto simp: step_ok_def job_at_def)
qed

lemma status_step:
  assumes "ok w" and "st \<in> {Running, Finished, Failed}"
    and "update_status i st es w = (r, w')"
  shows "step_ok w (with_status st (map sanitise es)) i r w'"
  by (rule updated_step_ok, rule status_law)
     (use assms in \<open>auto simp: status_defs\<close>)

lemma report_step:
  assumes "ok w" and "valid_time (rep_GeneratedAt rep)" and "update_report i rep w = (r, w')"
  shows "step_ok w (with_report (stored_report rep)) i r w'"
  by (rule updated_step_ok, rule report_law) (use assms in auto)

text \<open>An adapter that leaves the jobs alone, and whose reports have a time that prints.\<close>

definition adapter_frame :: "(ScanRequest \<Rightarrow> ('w, ScanReport) act) \<Rightarrow> bool" where
  "adapter_frame ad \<longleftrightarrow>
     (\<forall>req w r w'. ok w \<longrightarrow> ad req w = (r, w') \<longrightarrow>
        ok w' \<and> jobs w' = jobs w \<and> clock w \<le> clock w' \<and>
        (\<forall>rep. r = Ok rep \<longrightarrow> valid_time (rep_GeneratedAt rep)))"

lemma adapter_job_at:
  assumes "adapter_frame ad" and "ok w" and "ad req w = (r, w')"
  shows "ok w'" and "job_at w' i = Some j \<Longrightarrow> job_at w i = Some j"
  using assms unfolding adapter_frame_def job_at_def by (metis, metis live_mono)

definition store_iface :: "'w Store" where
  "store_iface = \<lparr>Create_of = create, Get_of = get, UpdateStatus_of = update_status,
                  UpdateReport_of = update_report\<rparr>"

text \<open>A scan that succeeded left the report of the adapter in a finished job.\<close>

lemma scan_ok:
  assumes "adapter_frame ad" and "ok w"
    and "scan \<lparr>wk_store = store_iface, wk_adapter = ad, wk_jobID = i, wk_request = req\<rparr> w = (Ok u, w')"
    and "job_at w' i = Some j'"
  shows "\<exists>j rep w1 w2. job_at w i = Some j \<and> ad req w1 = (Ok rep, w2) \<and>
     j' = with_status Finished [] (with_report (stored_report rep) (with_status Running [] j))"
proof -
  from assms(3) obtain w1 w2 w3 u1 u2 u3 rep where
    s1: "update_status i Running [] w = (Ok u1, w1)" and a: "ad req w1 = (Ok rep, w2)" and
    s2: "update_report i rep w2 = (Ok u2, w3)" and s3: "update_status i Finished [] w3 = (Ok u3, w')"
    by (auto simp: scan_def bind_act_Ok_iff ret_def store_iface_def)
  have st1: "step_ok w (with_status Running []) i (Ok u1) w1"
    using status_step [OF assms(2) _ s1] by simp
  then have ok1: "ok w1" by (simp add: step_ok_def)
  from assms(1) a ok1 have ok2: "ok w2" and rep: "valid_time (rep_GeneratedAt rep)"
    unfolding adapter_frame_def by fastforce+
  have st2: "step_ok w2 (with_report (stored_report rep)) i (Ok u2) w3"
    by (rule report_step [OF ok2 rep s2])
  then have ok3: "ok w3" by (simp add: step_ok_def)
  have "step_ok w3 (with_status Finished []) i (Ok u3) w'"
    using status_step [OF ok3 _ s3] by simp
  with assms(4) obtain j3 where j3: "job_at w3 i = Some j3" "j' = with_status Finished [] j3"
    by (auto simp: step_ok_def)
  with st2 obtain j2 where j2: "job_at w2 i = Some j2" "j3 = with_report (stored_report rep) j2"
    by (auto simp: step_ok_def)
  have "job_at w1 i = Some j2" by (rule adapter_job_at(2) [OF assms(1) ok1 a j2(1)])
  with st1 obtain j where "job_at w i = Some j" "j2 = with_status Running [] j"
    by (auto simp: step_ok_def)
  with a j2 j3 show ?thesis by blast
qed

text \<open>A step keeps a property of the job that its change keeps.\<close>

definition all_job :: "(ScanJob \<Rightarrow> bool) \<Rightarrow> string \<Rightarrow> 'w \<Rightarrow> bool" where
  "all_job P i w \<longleftrightarrow> (\<forall>j. job_at w i = Some j \<longrightarrow> P j)"

lemma step_ok_all:
  "step_ok w f i r w' \<Longrightarrow> all_job P i w \<Longrightarrow> (\<And>j. P j \<Longrightarrow> P (f j)) \<Longrightarrow> all_job P i w'"
  by (cases r) (fastforce simp: step_ok_def all_job_def)+

lemma step_okD: "step_ok w f i r w' \<Longrightarrow> ok w'"
  by (simp add: step_ok_def)

lemma adapter_all: "adapter_frame ad \<Longrightarrow> ok w \<Longrightarrow> ad req w = (r, w') \<Longrightarrow> all_job P i w \<Longrightarrow> all_job P i w'"
  unfolding all_job_def using adapter_job_at(2) by blast

text \<open>
  However a task ends, a job that was not finished before is finished only with a report
  that the adapter returned for the request.
\<close>

definition reported :: "(ScanRequest \<Rightarrow> ('w, ScanReport) act) \<Rightarrow> ScanRequest \<Rightarrow> ScanJob \<Rightarrow> bool" where
  "reported ad req j \<longleftrightarrow> (job_Status j = Finished \<longrightarrow> (\<exists>rep w1 w2. ad req w1 = (Ok rep, w2) \<and> job_Report j = stored_report rep))"

abbreviation the_worker :: "(ScanRequest \<Rightarrow> ('w, ScanReport) act) \<Rightarrow> string \<Rightarrow> ScanRequest \<Rightarrow> 'w worker" where
  "the_worker ad i req \<equiv> \<lparr>wk_store = store_iface, wk_adapter = ad, wk_jobID = i, wk_request = req\<rparr>"

lemma scan_reported:
  assumes ad: "adapter_frame ad" and ok: "ok w" and start: "all_job (reported ad req) i w"
    and r: "scan (the_worker ad i req) w = (r, w')"
  shows "ok w' \<and> all_job (reported ad req) i w'"
proof -
  obtain r1 w1 where s1: "update_status i Running [] w = (r1, w1)" by fastforce
  have st1: "step_ok w (with_status Running []) i r1 w1" using status_step [OF ok _ s1] by simp
  then have ok1: "ok w1" and p1: "all_job (reported ad req) i w1"
    using step_ok_all [OF st1 start] by (auto simp: step_ok_def reported_def status_defs)
  note defs = scan_def store_iface_def bind_act_def ret_def
  show ?thesis
  proof (cases r1)
    case (Ok u1)
    obtain r2 w2 where a: "ad req w1 = (r2, w2)" by fastforce
    have ok2: "ok w2" by (rule adapter_job_at(1) [OF ad ok1 a])
    have p2: "all_job (reported ad req) i w2" by (rule adapter_all [OF ad ok1 a p1])
    show ?thesis
    proof (cases r2)
      case (Ok rep)
      with ad a ok1 have rep: "valid_time (rep_GeneratedAt rep)"
        unfolding adapter_frame_def by fastforce+
      obtain r3 w3 where s3: "update_report i rep w2 = (r3, w3)" by fastforce
      have st3: "step_ok w2 (with_report (stored_report rep)) i r3 w3"
        by (rule report_step [OF ok2 rep s3])
      note ok3 = step_okD [OF st3]
      have p3: "all_job (reported ad req) i w3"
        by (rule step_ok_all [OF st3 p2]) (use a Ok in \<open>auto simp: reported_def\<close>)
      show ?thesis
      proof (cases r3)
        case (Ok u3)
        obtain r4 w4 where s4: "update_status i Finished [] w3 = (r4, w4)" by fastforce
        have st4: "step_ok w3 (with_status Finished []) i r4 w4"
          using status_step [OF ok3 _ s4] by simp
        from st3 Ok have "all_job (\<lambda>j. job_Report j = stored_report rep) i w3"
          by (auto simp: step_ok_def all_job_def)
        then have "all_job (\<lambda>j. job_Report j = stored_report rep) i w4"
          by (rule step_ok_all [OF st4]) simp
        then have "all_job (reported ad req) i w4"
          using a \<open>r2 = Ok rep\<close> by (auto simp: all_job_def reported_def)
        moreover have "w' = w4"
          using r s1 a s3 s4 \<open>r1 = Ok u1\<close> \<open>r2 = Ok rep\<close> Ok by (cases r4) (simp_all add: defs)
        ultimately show ?thesis using step_okD [OF st4] by simp
      qed (use r s1 a s3 \<open>r1 = Ok u1\<close> \<open>r2 = Ok rep\<close> ok3 p3 in \<open>simp_all add: defs\<close>)
    qed (use r s1 a \<open>r1 = Ok u1\<close> ok2 p2 in \<open>simp_all add: defs\<close>)
  qed (use r s1 ok1 p1 in \<open>simp_all add: defs\<close>)
qed

lemma task_reported:
  assumes ad: "adapter_frame ad" and ok: "ok w" and start: "all_job (reported ad req) i w"
    and r: "Task (the_worker ad i req) w = (r, w')"
  shows "ok w' \<and> all_job (reported ad req) i w'"
proof -
  obtain r1 w1 where s: "scan (the_worker ad i req) w = (r1, w1)" by fastforce
  have 1: "ok w1" "all_job (reported ad req) i w1" using scan_reported [OF ad ok start s] by auto
  show ?thesis
  proof (cases r1)
    case (Err e)
    obtain r2 w2 where u: "update_status i Failed [e] w1 = (r2, w2)" by fastforce
    have st: "step_ok w1 (with_status Failed [sanitise e]) i r2 w2"
      using status_step [OF 1(1) _ u] by simp
    have "all_job (reported ad req) i w2"
      by (rule step_ok_all [OF st 1(2)]) (simp add: reported_def status_defs)
    moreover have "w' = w2"
      using r s u Err by (cases r2) (simp_all add: Task_def store_iface_def)
    ultimately show ?thesis using step_okD [OF st] by simp
  qed (use r s 1 in \<open>simp_all add: Task_def\<close>)
qed

text \<open>However a scan ends, the store stays well formed.\<close>

lemma scan_keeps_ok:
  assumes ad: "adapter_frame ad" and ok: "ok w" and r: "scan (the_worker ad i req) w = (r, w')"
  shows "ok w'"
proof -
  have st: "update_status i st [] u = (x, v) \<Longrightarrow> st \<in> {Running, Finished, Failed} \<Longrightarrow> ok u \<Longrightarrow> ok v" for st u x v
    by (rule step_okD [OF status_step])
  have a: "ad req u = (x, v) \<Longrightarrow> ok u \<Longrightarrow> ok v" for u x v
    using ad unfolding adapter_frame_def by blast
  have "ad req u = (Ok rep, v) \<Longrightarrow> ok u \<Longrightarrow> valid_time (rep_GeneratedAt rep)" for u v rep
    using ad unfolding adapter_frame_def by blast
  then have rp: "ad req u = (Ok rep, v) \<Longrightarrow> update_report i rep v = (x, v') \<Longrightarrow> ok u \<Longrightarrow> ok v'" for rep u v x v'
    using a by (blast intro: step_okD [OF report_step])
  from r show ?thesis
    unfolding scan_def store_iface_def
    by (auto elim!: bind_act_cases simp: ret_def) (metis st a rp ok insertI1 insertI2)+
qed

text \<open>A task leaves a live job that failed with the error of the scan, when it can write it.\<close>

lemma failed_status:
  assumes "ok w" and "update_status i Failed [e] w = (Ok u, w')" and "job_at w' i = Some j'"
  shows "job_Status j' = Failed \<and> job_Error j' = sanitise e"
proof -
  have "step_ok w (with_status Failed [sanitise e]) i (Ok u) w'"
    using status_step [OF assms(1) _ assms(2)] by simp
  with assms(3) show ?thesis by (auto simp: step_ok_def)
qed

text \<open>The task crashes only in the adapter, or when its job has expired.\<close>

lemma scan_panic:
  assumes ad: "adapter_frame ad" and ok: "ok w"
    and r: "scan (the_worker ad i req) w = (Panic p, w')"
  shows "(\<exists>w1. ad req w1 = (Panic p, w')) \<or> job_at w' i = None"
proof -
  note defs = scan_def store_iface_def bind_act_Panic_iff ret_def
  from r consider
      (run) "update_status i Running [] w = (Panic p, w')"
    | (adapter) w1 where "ad req w1 = (Panic p, w')"
    | (report) u1 w1 rep w2 where "update_status i Running [] w = (Ok u1, w1)"
        "ad req w1 = (Ok rep, w2)" "update_report i rep w2 = (Panic p, w')"
    | (finish) u1 w1 rep w2 u2 w3 where "update_status i Running [] w = (Ok u1, w1)"
        "ad req w1 = (Ok rep, w2)" "update_report i rep w2 = (Ok u2, w3)"
        "update_status i Finished [] w3 = (Panic p, w')"
    by (auto simp: defs)
  then show ?thesis
  proof cases
    case run
    then show ?thesis using status_step [OF ok _ run] by (simp add: step_ok_def)
  next
    case adapter
    then show ?thesis by blast
  next
    case report
    have ok1: "ok w1" using status_step [OF ok _ report(1)] by (simp add: step_ok_def)
    have ok2: "ok w2" and rep: "valid_time (rep_GeneratedAt rep)"
      using ad report(2) ok1 unfolding adapter_frame_def by fastforce+
    show ?thesis using report_step [OF ok2 rep report(3)] by (simp add: step_ok_def)
  next
    case finish
    have ok1: "ok w1" using status_step [OF ok _ finish(1)] by (simp add: step_ok_def)
    have ok2: "ok w2" and rep: "valid_time (rep_GeneratedAt rep)"
      using ad finish(2) ok1 unfolding adapter_frame_def by fastforce+
    have ok3: "ok w3" using report_step [OF ok2 rep finish(3)] by (simp add: step_ok_def)
    show ?thesis using status_step [OF ok3 _ finish(4)] by (simp add: step_ok_def)
  qed
qed

lemma task_panic:
  assumes ad: "adapter_frame ad" and ok: "ok w"
    and r: "Task (the_worker ad i req) w = (Panic p, w')"
  shows "(\<exists>w1. ad req w1 = (Panic p, w')) \<or> job_at w' i = None"
proof -
  obtain x w1 where s: "scan (the_worker ad i req) w = (x, w1)" by fastforce
  show ?thesis
  proof (cases x)
    case (Ok u)
    with r s show ?thesis by (simp add: Task_def)
  next
    case (Panic q)
    with r s have "scan (the_worker ad i req) w = (Panic p, w')" by (simp add: Task_def)
    then show ?thesis by (rule scan_panic [OF ad ok])
  next
    case (Err e)
    with r s have "update_status i Failed [e] w1 = (Panic p, w')"
      by (auto simp: Task_def store_iface_def split: prod.splits res.splits)
    then show ?thesis
      using status_step [OF scan_keeps_ok [OF ad ok s]] by (fastforce simp: step_ok_def)
  qed
qed

text \<open>
  A scan that takes as long as jobs are kept: its job has expired when it returns, storing the
  report cannot succeed, and nothing the task does brings the job back.
\<close>

lemma late_scan:
  assumes ad: "adapter_frame ad" and ok: "ok w"
    and s1: "update_status i Running [] w = (Ok u, w1)" and a: "ad req w1 = (Ok rep, w2)"
    and late: "clock w1 + 1000 * ttl \<le> clock w2"
  shows "ok w2" and "valid_time (rep_GeneratedAt rep)" and "job_at w2 i = None"
proof -
  have ok1: "ok w1" using status_step [OF ok _ s1] by (simp add: step_ok_def)
  have f: "ok w2 \<and> jobs w2 = jobs w1 \<and> clock w1 \<le> clock w2 \<and> (\<forall>rp. Ok rep = Ok rp \<longrightarrow> valid_time (rep_GeneratedAt rp))"
    using ad ok1 a unfolding adapter_frame_def by blast
  then show "ok w2" "valid_time (rep_GeneratedAt rep)" by simp_all
  have "updated (with_status Running []) ttl i (clock w) (jobs w) (Ok u) (clock w1) (jobs w1)"
    using status_law [OF ok _ _ s1] by (simp add: status_defs)
  then obtain t j where t: "t \<le> clock w1" and m: "jobs w1 = rewrite ttl t i (with_status Running [] j) (jobs w)"
    by (auto simp: written_def)
  have "live t (jobs w1) i = None \<or> (\<exists>j d. jobs w1 i = Some (j, d) \<and> d \<le> clock w2)"
    using m t late by (auto simp: rewrite_def)
  then show "job_at w2 i = None"
    using f t live_gone [of t "jobs w1" i "clock w2"] by (auto simp: job_at_def live_def)
qed

lemma late_report:
  assumes "ok w" and "valid_time (rep_GeneratedAt rep)" and "job_at w i = None"
    and "update_report i rep w = (r, w')"
  shows "ok w'" and "job_at w' i = None" and "r \<noteq> Ok u"
proof -
  have st: "step_ok w (with_report (stored_report rep)) i r w'" by (rule report_step [OF assms(1,2,4)])
  then show "ok w'" by (rule step_okD)
  show "job_at w' i = None" using st assms(3) by (cases "job_at w' i") (auto simp: step_ok_def)
  show "r \<noteq> Ok u"
  proof
    assume "r = Ok u"
    then obtain t j where "clock w \<le> t" "live t (jobs w) i = Some j"
      using report_law [OF assms(1,2,4)] by (auto simp: written_def)
    then show False using assms(3) live_mono [of t "jobs w" i j "clock w"] by (simp add: job_at_def)
  qed
qed

lemma late_task:
  assumes ad: "adapter_frame ad" and ok: "ok w"
    and s1: "update_status i Running [] w = (Ok u, w1)" and a: "ad req w1 = (Ok rep, w2)"
    and late: "clock w1 + 1000 * ttl \<le> clock w2"
    and r: "Task (the_worker ad i req) w = (r, w')"
  shows "job_at w' i = None"
proof -
  note l = late_scan [OF ad ok s1 a late]
  obtain r3 w3 where s3: "update_report i rep w2 = (r3, w3)" by fastforce
  note g = late_report [OF l s3]
  have sc: "r3 = Err e \<Longrightarrow> scan (the_worker ad i req) w = (Err e, w3)"
    "r3 = Panic p \<Longrightarrow> scan (the_worker ad i req) w = (Panic p, w3)" for e p
    by (simp_all add: scan_def store_iface_def bind_act_def s1 a s3)
  show ?thesis
  proof (cases r3)
    case (Ok v)
    with g(3) show ?thesis by blast
  next
    case (Panic p)
    with sc(2) r g(2) show ?thesis by (simp add: Task_def)
  next
    case (Err e)
    obtain r4 w4 where s4: "update_status i Failed [e] w3 = (r4, w4)" by fastforce
    have "step_ok w3 (with_status Failed (map sanitise [e])) i r4 w4" by (rule status_step [OF g(1) _ s4]) simp
    with g(2) have "job_at w4 i = None" by (cases "job_at w4 i") (auto simp: step_ok_def)
    moreover have "w' = w4"
      using sc(1) [OF Err] r s4 by (cases r4) (simp_all add: Task_def store_iface_def)
    ultimately show ?thesis by simp
  qed
qed

end

subsection \<open>The worker on the store in Redis\<close>

definition scan_worker :: "('w, 'c, 'r) store \<Rightarrow> 'w Adapter \<Rightarrow> string \<Rightarrow> ScanRequest \<Rightarrow> 'w worker" where
  "scan_worker s ad i req = \<lparr>wk_store = NewStore s, wk_adapter = ad, wk_jobID = i, wk_request = req\<rparr>"

text \<open>The adapter leaves the jobs in the server alone, and its reports have a time that prints.\<close>

definition leaves_jobs :: "('w \<Rightarrow> string expiring) \<Rightarrow> ('w \<Rightarrow> int) \<Rightarrow> 'w Adapter \<Rightarrow> bool" where
  "leaves_jobs db clock ad \<longleftrightarrow>
     (\<forall>req w r w'. ad req w = (r, w') \<longrightarrow>
        db w' = db w \<and> clock w \<le> clock w' \<and>
        (\<forall>rep. r = Ok rep \<longrightarrow> valid_time (rep_GeneratedAt rep)))"

end
