(* ===== verification/ApiHandler.thy ===== *)
theory ApiHandler
  imports BaseHandler Worker
begin

text \<open>
  \<open>pkg/http/api/v1/handler.go\<close>: the REST API. Each handler is an action that turns the
  response writer it is given into the one it leaves. The router is the table of its routes;
  how a request is matched with them is the library's (\<open>gorilla/mux\<close>), and so is the check
  of a URL that \<open>url.ParseRequestURI\<close> makes.
\<close>

record 'w requestHandler =
  h_clair :: "'w clair_Client"
  h_enqueue :: "ScanRequest \<Rightarrow> ('w, string) act"
  h_store :: "'w Store"

record http_in =
  in_Body :: reader
  in_Vars :: "string \<rightharpoonup> string"
  in_URL :: string

record api_lib =
  al_decode_error :: "reader \<Rightarrow> string"   \<comment> \<open>of \<open>Decoder.Decode\<close>\<close>
  al_uri_error :: "string \<Rightarrow> string option"
  al_order :: order

definition pathVarScanRequestID :: string where "pathVarScanRequestID = ''scan_request_id''"

definition http_error :: "int \<Rightarrow> string \<Rightarrow> HarborError" where
  "http_error code msg = \<lparr>err_HTTPCode = code, err_Message = msg\<rparr>"

definition validate :: "api_lib \<Rightarrow> ScanRequest \<Rightarrow> HarborError option" where
  "validate lib req =
     (if reg_URL (req_Registry req) = [] then Some (http_error 422 ''missing registry.url'')
      else if al_uri_error lib (reg_URL (req_Registry req)) \<noteq> None
      then Some (http_error 422 ''invalid registry.url'')
      else if art_Repository (req_Artifact req) = [] then Some (http_error 422 ''missing artifact.repository'')
      else if art_Digest (req_Artifact req) = [] then Some (http_error 422 ''missing artifact.digest'')
      else None)"

definition AcceptScanRequest ::
  "api_lib \<Rightarrow> 'w requestHandler \<Rightarrow> http_in \<Rightarrow> response \<Rightarrow> ('w, response) act" where
  "AcceptScanRequest lib h req res w =
     (case decode_first (al_decode_error lib) dec_ScanRequest zero_ScanRequest (in_Body req) of
        Err e \<Rightarrow>
          (Ok (WriteJSONError (al_order lib) (http_error 400 (''unmarshalling scan request: '' @ e)) res), w)
      | Panic p \<Rightarrow> (Panic p, w)
      | Ok scanRequest \<Rightarrow>
          (case validate lib scanRequest of
             Some validationError \<Rightarrow> (Ok (WriteJSONError (al_order lib) validationError res), w)
           | None \<Rightarrow>
               (case h_enqueue h scanRequest w of
                  (Err e, w') \<Rightarrow>
                    (Ok (WriteJSONError (al_order lib) (http_error 500 (''performing scan: '' @ e)) res), w')
                | (Panic p, w') \<Rightarrow> (Panic p, w')
                | (Ok jobID, w') \<Rightarrow>
                    (Ok (WriteJSON (al_order lib) (Some (json_ScanResponse \<lparr>resp_ID = jobID\<rparr>))
                           MimeTypeScanResponse 202 res), w'))))"

definition GetScanReport ::
  "api_lib \<Rightarrow> 'w requestHandler \<Rightarrow> http_in \<Rightarrow> response \<Rightarrow> ('w, response) act" where
  "GetScanReport lib h req res w =
     (case in_Vars req pathVarScanRequestID of
        None \<Rightarrow> (Ok (WriteJSONError (al_order lib) (http_error 400 ''missing scan_request_id'') res), w)
      | Some jobID \<Rightarrow>
          (case Get_of (h_store h) jobID w of
             (Err e, w') \<Rightarrow>
               (Ok (WriteJSONError (al_order lib) (http_error 500 (''getting scan job: '' @ e)) res), w')
           | (Panic p, w') \<Rightarrow> (Panic p, w')
           | (Ok None, w') \<Rightarrow>
               (Ok (WriteJSONError (al_order lib) (http_error 404 (''cannot find scan job: '' @ jobID)) res), w')
           | (Ok (Some scanJob), w') \<Rightarrow>
               (Ok (if job_Status scanJob = Pending \<or> job_Status scanJob = Running
                    then WriteHeader 302 (header_add ''Location'' (in_URL req) res)
                    else if job_Status scanJob = Failed
                    then WriteJSONError (al_order lib) (http_error 500 (job_Error scanJob)) res
                    else if job_Status scanJob \<noteq> Finished
                    then WriteJSONError (al_order lib)
                           (http_error 500 (''unexpected status '' @ Status_String (job_Status scanJob)
                              @ '' of scan job '' @ job_ID scanJob)) res
                    else WriteJSON (al_order lib) (json_ScanReport (job_Report scanJob))
                           MimeTypeScanReport 200 res), w')))"

definition GetMetadata ::
  "api_lib \<Rightarrow> 'w requestHandler \<Rightarrow> http_in \<Rightarrow> response \<Rightarrow> ('w, response) act" where
  "GetMetadata lib h req res w =
     (let properties =
        [(''harbor.scanner-adapter/scanner-type'', ''os-package-vulnerability''),
         (''harbor.scanner-adapter/registry-authorization-type'', ''Bearer'')];
          answer = (\<lambda>properties. WriteJSON (al_order lib)
             (Some (json_ScannerMetadata
                \<lparr>md_Scanner = GetScannerMetadata,
                 md_Capabilities =
                   [\<lparr>cap_Consumes = [MimeType_String (al_order lib) MimeTypeOCIImageManifest,
                                    MimeType_String (al_order lib) MimeTypeDockerDistributionManifest],
                     cap_Produces = [MimeType_String (al_order lib) MimeTypeScanReport]\<rparr>],
                 md_Properties = properties\<rparr>))
             MimeTypeMetadata 200 res)
      in case GetVulnerabilityDatabaseUpdatedAt_of (h_clair h) w of
           (Panic p, w') \<Rightarrow> (Panic p, w')
         | (Err e, w') \<Rightarrow> (Ok (answer properties), w')
         | (Ok None, w') \<Rightarrow> (Ok (answer properties), w')
         | (Ok (Some updatedAt), w') \<Rightarrow>
             (Ok (answer (properties @
                [(''harbor.scanner-adapter/vulnerability-database-updated-at'',
                  format_rfc3339 False updatedAt)])), w'))"

definition GetHealthy :: "http_in \<Rightarrow> response \<Rightarrow> ('w, response) act" where
  "GetHealthy req res = ret (WriteHeader 200 res)"

definition GetReady :: "http_in \<Rightarrow> response \<Rightarrow> ('w, response) act" where
  "GetReady req res = ret (WriteHeader 200 res)"

subsection \<open>Routes\<close>

datatype endpoint = EpMetadata | EpScan | EpReport | EpHealthy | EpReady | EpMetrics

definition routes :: "(string \<times> string \<times> endpoint) list" where
  "routes =
     [(''GET'', ''/api/v1/metadata'', EpMetadata),
      (''POST'', ''/api/v1/scan'', EpScan),
      (''GET'', ''/api/v1/scan/{scan_request_id}/report'', EpReport),
      (''GET'', ''/probe/healthy'', EpHealthy),
      (''GET'', ''/probe/ready'', EpReady),
      (''GET'', ''/metrics'', EpMetrics)]"

text \<open>The middleware: it writes a log line and calls the next handler.\<close>

definition logRequest ::
  "(http_in \<Rightarrow> response \<Rightarrow> ('w, response) act) \<Rightarrow> http_in \<Rightarrow> response \<Rightarrow> ('w, response) act" where
  "logRequest next_handler req res = next_handler req res"

text \<open>The handler behind a route; the one of the metrics is a library's.\<close>

fun serve ::
  "api_lib \<Rightarrow> 'w requestHandler \<Rightarrow> (http_in \<Rightarrow> response \<Rightarrow> ('w, response) act) \<Rightarrow> endpoint
     \<Rightarrow> http_in \<Rightarrow> response \<Rightarrow> ('w, response) act"
where
  "serve lib h metrics EpMetadata = logRequest (GetMetadata lib h)"
| "serve lib h metrics EpScan = logRequest (AcceptScanRequest lib h)"
| "serve lib h metrics EpReport = logRequest (GetScanReport lib h)"
| "serve lib h metrics EpHealthy = logRequest GetHealthy"
| "serve lib h metrics EpReady = logRequest GetReady"
| "serve lib h metrics EpMetrics = logRequest metrics"

definition NewAPIHandler ::
  "'w clair_Client \<Rightarrow> (ScanRequest \<Rightarrow> ('w, string) act) \<Rightarrow> 'w Store \<Rightarrow> 'w requestHandler" where
  "NewAPIHandler clair enqueue st = \<lparr>h_clair = clair, h_enqueue = enqueue, h_store = st\<rparr>"

subsection \<open>Lemmas\<close>

text \<open>The status code of a response.\<close>

definition status_of :: "response \<Rightarrow> int option" where
  "status_of res = map_option fst (rw_sent res)"

lemma status_WriteJSON [simp]: "rw_sent r = None \<Longrightarrow> status_of (WriteJSON ord data mt code r) = Some code"
  by (simp add: status_of_def WriteJSON_sent)

lemma status_WriteHeader [simp]: "rw_sent r = None \<Longrightarrow> status_of (WriteHeader code r) = Some code"
  by (simp add: status_of_def)

lemma rw_sent_header_add [simp]: "rw_sent (header_add k v r) = rw_sent r"
  by (simp add: header_add_def)

lemma status_WriteJSONError [simp]:
  "rw_sent r = None \<Longrightarrow> status_of (WriteJSONError ord e r) = Some (err_HTTPCode e)"
  by (simp add: WriteJSONError_def)

lemma http_error_sel [simp]: "err_HTTPCode (http_error c m) = c" "err_Message (http_error c m) = m"
  by (simp_all add: http_error_def)

lemma validate_code: "validate lib req = Some e \<Longrightarrow> err_HTTPCode e = 422"
  by (auto simp: validate_def split: if_splits)

lemma validate_None_iff:
  "validate lib req = None \<longleftrightarrow>
     reg_URL (req_Registry req) \<noteq> [] \<and> al_uri_error lib (reg_URL (req_Registry req)) = None \<and>
     art_Repository (req_Artifact req) \<noteq> [] \<and> art_Digest (req_Artifact req) \<noteq> []"
  by (auto simp: validate_def)

text \<open>The answer for a job, by its status.\<close>

definition report_code :: "status \<Rightarrow> int" where
  "report_code st = (if st = Pending \<or> st = Running then 302 else if st = Finished then 200 else 500)"

lemma GetScanReport_found:
  assumes "in_Vars req pathVarScanRequestID = Some i" and "Get_of (h_store h) i w = (Ok (Some j), w')"
    and "rw_sent res = None"
  obtains res' where "GetScanReport lib h req res w = (Ok res', w')"
    and "status_of res' = Some (report_code (job_Status j))"
  using assms by (auto simp: GetScanReport_def report_code_def status_defs)

text \<open>A request that is not a valid one never reaches the queue.\<close>

lemma AcceptScanRequest_Ok:
  assumes "AcceptScanRequest lib h req res w = (Ok res', w')" and "rw_sent res = None"
  shows "status_of res' = Some 202 \<longleftrightarrow>
    (\<exists>sr i. decode_first (al_decode_error lib) dec_ScanRequest zero_ScanRequest (in_Body req) = Ok sr \<and>
       validate lib sr = None \<and> h_enqueue h sr w = (Ok i, w') \<and>
       res' = WriteJSON (al_order lib) (Some (json_ScanResponse \<lparr>resp_ID = i\<rparr>)) MimeTypeScanResponse 202 res)"
proof (cases "decode_first (al_decode_error lib) dec_ScanRequest zero_ScanRequest (in_Body req)")
  case (Ok sr)
  show ?thesis
  proof (cases "validate lib sr")
    case None
    with Ok assms show ?thesis
      by (cases "h_enqueue h sr w"; cases "fst (h_enqueue h sr w)") (auto simp: AcceptScanRequest_def)
  next
    case (Some e)
    with Ok assms validate_code [OF Some] show ?thesis by (auto simp: AcceptScanRequest_def)
  qed
next
  case (Err e)
  with assms show ?thesis by (auto simp: AcceptScanRequest_def)
next
  case (Panic p)
  with assms show ?thesis by simp
qed

subsection \<open>Properties\<close>

text \<open>
  C23. What a scan request is answered. With status 400 exactly when its body cannot be read up to
  a JSON value that decodes as a request; with 422 exactly when it decodes and its registry URL, repository
  or digest is missing or the URL is not one; else it is enqueued, and the answer is 202 with
  the identifier of the job when that succeeds and 500 when it fails.
\<close>

theorem scan_request_answers:
  assumes "AcceptScanRequest lib h req res w = (Ok res', w')" and "rw_sent res = None"
  shows "(case decode_first (al_decode_error lib) dec_ScanRequest zero_ScanRequest (in_Body req) of
      Err e \<Rightarrow> status_of res' = Some 400 \<and> w' = w
    | Panic p \<Rightarrow> False
    | Ok sr \<Rightarrow>
        if reg_URL (req_Registry sr) = [] \<or> al_uri_error lib (reg_URL (req_Registry sr)) \<noteq> None \<or>
           art_Repository (req_Artifact sr) = [] \<or> art_Digest (req_Artifact sr) = []
        then status_of res' = Some 422 \<and> w' = w
        else (\<exists>i. h_enqueue h sr w = (Ok i, w') \<and>
               res' = WriteJSON (al_order lib) (Some (json_ScanResponse \<lparr>resp_ID = i\<rparr>)) MimeTypeScanResponse 202 res \<and>
               status_of res' = Some 202) \<or>
             (\<exists>e. h_enqueue h sr w = (Err e, w') \<and> status_of res' = Some 500))"
proof (cases "decode_first (al_decode_error lib) dec_ScanRequest zero_ScanRequest (in_Body req)")
  case (Ok sr)
  have none: "validate lib sr = None \<longleftrightarrow> \<not> (reg_URL (req_Registry sr) = [] \<or>
      al_uri_error lib (reg_URL (req_Registry sr)) \<noteq> None \<or>
      art_Repository (req_Artifact sr) = [] \<or> art_Digest (req_Artifact sr) = [])"
    unfolding validate_None_iff by auto
  show ?thesis
  proof (cases "validate lib sr")
    case None
    then have v: "\<not> (reg_URL (req_Registry sr) = [] \<or> al_uri_error lib (reg_URL (req_Registry sr)) \<noteq> None \<or>
      art_Repository (req_Artifact sr) = [] \<or> art_Digest (req_Artifact sr) = [])"
      using none by blast
    show ?thesis
      unfolding Ok res.case if_not_P [OF v] using None Ok assms
      by (cases "h_enqueue h sr w"; cases "fst (h_enqueue h sr w)") (auto simp: AcceptScanRequest_def)
  next
    case (Some e)
    then have v: "reg_URL (req_Registry sr) = [] \<or> al_uri_error lib (reg_URL (req_Registry sr)) \<noteq> None \<or>
      art_Repository (req_Artifact sr) = [] \<or> art_Digest (req_Artifact sr) = []"
      using none by simp
    show ?thesis
      unfolding Ok res.case if_P [OF v]
      using Some Ok assms validate_code [OF Some] by (auto simp: AcceptScanRequest_def)
  qed
next
  case (Err e)
  with assms show ?thesis by (auto simp: AcceptScanRequest_def)
next
  case (Panic p)
  with assms show ?thesis by simp
qed

definition demo_api :: api_lib where
  "demo_api =
     \<lparr>al_decode_error = (\<lambda>r. ''EOF''),
      al_uri_error = (\<lambda>u. if u = ''registry'' then Some ''invalid URI'' else None), al_order = id\<rparr>"

definition demo_handler :: "ScanJob option \<Rightarrow> unit requestHandler" where
  "demo_handler j =
     \<lparr>h_clair = \<lparr>ScanLayer_of = (\<lambda>l. ret ()), GetLayer_of = (\<lambda>n. ret zero_LayerEnvelope),
                GetVulnerabilityDatabaseUpdatedAt_of = ret None\<rparr>,
      h_enqueue = (\<lambda>sr. ret ''job-1''),
      h_store = \<lparr>Create_of = (\<lambda>j. ret ()), Get_of = (\<lambda>i. ret j), UpdateStatus_of = (\<lambda>i st es. ret ()),
                UpdateReport_of = (\<lambda>i r. ret ())\<rparr>\<rparr>"

definition demo_in :: "string \<Rightarrow> http_in" where
  "demo_in body = \<lparr>in_Body = (body, None), in_Vars = [''scan_request_id'' \<mapsto> ''job-1''], in_URL = ''/api/v1/scan''\<rparr>"

lemma scan_request_answers_witness:
  "\<exists>res'. AcceptScanRequest demo_api (demo_handler None) (demo_in ''{}'') (new_response False) () = (Ok res', ()) \<and>
     status_of res' = Some 422"
proof -
  have d: "decode_first (al_decode_error demo_api) dec_ScanRequest zero_ScanRequest (in_Body (demo_in ''{}'')) =
      Ok zero_ScanRequest"
    by code_simp
  have u: "reg_URL (req_Registry zero_ScanRequest) = []"
    by (simp add: zero_ScanRequest_def zero_Registry_def)
  obtain res' where a:
    "AcceptScanRequest demo_api (demo_handler None) (demo_in ''{}'') (new_response False) () = (Ok res', ())"
    by (simp add: AcceptScanRequest_def d validate_def u)
  moreover have "rw_sent (new_response False) = None" by (simp add: new_response_def)
  ultimately show ?thesis
    using scan_request_answers [OF a] by (simp add: d u)
qed

text \<open>
  C24. What asking for a report is answered, by the job in the store: 404 without one, a redirect
  to the same URL while it is pending or running, its error with 500 when it failed, 500 when its
  status is none of the four, the report with 200 when it finished; and 500 when the store
  fails, 400 without an identifier.
\<close>

theorem report_request_answers:
  assumes "GetScanReport lib h req res w = (Ok res', w')" and "rw_sent res = None"
  shows "(case in_Vars req pathVarScanRequestID of
      None \<Rightarrow> status_of res' = Some 400 \<and> w' = w
    | Some i \<Rightarrow>
        (case Get_of (h_store h) i w of
           (Err e, w'') \<Rightarrow> status_of res' = Some 500 \<and> w' = w''
         | (Panic p, w'') \<Rightarrow> False
         | (Ok None, w'') \<Rightarrow> status_of res' = Some 404 \<and> w' = w''
         | (Ok (Some j), w'') \<Rightarrow>
             w' = w'' \<and>
             (if job_Status j \<in> {Pending, Running}
              then res' = WriteHeader 302 (header_add ''Location'' (in_URL req) res) \<and> status_of res' = Some 302
              else if job_Status j = Finished
              then res' = WriteJSON (al_order lib) (json_ScanReport (job_Report j)) MimeTypeScanReport 200 res \<and>
                   status_of res' = Some 200
              else status_of res' = Some 500)))"
proof (cases "in_Vars req pathVarScanRequestID")
  case None
  with assms show ?thesis by (auto simp: GetScanReport_def)
next
  case (Some i)
  obtain r w1 where g: "Get_of (h_store h) i w = (r, w1)" by fastforce
  show ?thesis
  proof (cases r)
    case (Ok x)
    with Some g assms show ?thesis
      by (cases x) (auto simp: GetScanReport_def status_defs)
  qed (use Some g assms in \<open>auto simp: GetScanReport_def\<close>)
qed

lemma report_request_answers_witness:
  "\<exists>res'. GetScanReport demo_api (demo_handler (Some (pending_job ''job-1''))) (demo_in []) (new_response False) () =
     (Ok res', ()) \<and> status_of res' = Some 302"
proof -
  let ?h = "demo_handler (Some (pending_job ''job-1''))"
  have s: "Get_of (h_store ?h) ''job-1'' () = (Ok (Some (pending_job ''job-1'')), ())"
    by (simp add: demo_handler_def ret_def)
  have v: "in_Vars (demo_in []) pathVarScanRequestID = Some ''job-1''"
    by (simp add: demo_in_def pathVarScanRequestID_def)
  obtain res' where a: "GetScanReport demo_api ?h (demo_in []) (new_response False) () = (Ok res', ())"
    by (simp add: GetScanReport_def s v)
  moreover have "rw_sent (new_response False) = None" by (simp add: new_response_def)
  ultimately show ?thesis
    using report_request_answers [OF a] s v by (simp add: pending_job_def Pending_def)
qed

end
