(* ===== verification/MemRedis.thy ===== *)
theory MemRedis
  imports Worker
begin

text \<open>
  A Redis server in memory that meets the laws of \<open>redis_server\<close>, on which the operations of
  the store run as they are. It has the two commands the program sends, with their documented
  behaviour: \<open>SET\<close> needs a positive expiry that is an integer and obeys \<open>NX\<close> and \<open>XX\<close>, \<open>GET\<close>
  reads a live key. Each command takes a millisecond, and fails when the next entry of the
  script is an error. The borrowed connections are counted.
\<close>

datatype mem_reply = RNil | ROk | RBulk string

record mem =
  m_db :: "string expiring"
  m_clock :: int
  m_held :: int
  m_faults :: "string option list"

definition mem_set :: "string list \<Rightarrow> mem \<Rightarrow> (string + mem_reply) \<times> mem" where
  "mem_set args w =
     (case args of
        [k, v, mode, ex, nstr] \<Rightarrow>
          (case atoi nstr of
             Inl _ \<Rightarrow> (Inl ''ERR value is not an integer or out of range'', w)
           | Inr n \<Rightarrow>
               if itoa n \<noteq> nstr then (Inl ''ERR value is not an integer or out of range'', w)
               else if ex \<noteq> ''EX'' \<or> mode \<notin> {''NX'', ''XX''} then (Inl ''ERR syntax error'', w)
               else if n \<le> 0 then (Inl ''ERR invalid expire time in 'set' command'', w)
               else (Inr (if (mode = ''NX'') = (live (m_clock w) (m_db w) k = None) then ROk else RNil),
                     w\<lparr>m_db := set_effect mode (m_clock w) k v n (m_db w)\<rparr>))
      | _ \<Rightarrow> (Inl ''ERR wrong number of arguments for 'set' command'', w))"

definition mem_get :: "string list \<Rightarrow> mem \<Rightarrow> (string + mem_reply) \<times> mem" where
  "mem_get args w =
     (case args of
        [k] \<Rightarrow> (Inr (case live (m_clock w) (m_db w) k of None \<Rightarrow> RNil | Some v \<Rightarrow> RBulk v), w)
      | _ \<Rightarrow> (Inl ''ERR wrong number of arguments for 'get' command'', w))"

definition mem_tick :: "mem \<Rightarrow> mem" where
  "mem_tick w = w\<lparr>m_clock := m_clock w + 1, m_faults := tl (m_faults w)\<rparr>"

definition mem_do :: "unit \<Rightarrow> string \<Rightarrow> string list \<Rightarrow> (mem, mem_reply) lib_call" where
  "mem_do c cmd args w =
     (let fault = (case m_faults w of [] \<Rightarrow> None | f # _ \<Rightarrow> f);
          (r, w') =
            (case fault of
               Some e \<Rightarrow> (Inl e, w)
             | None \<Rightarrow>
                 if cmd = ''SET'' then mem_set args w
                 else if cmd = ''GET'' then mem_get args w
                 else (Inl ''ERR unknown command'', w))
      in (r, mem_tick w'))"

fun mem_String :: "string + mem_reply \<Rightarrow> string_reply" where
  "mem_String (Inl e) = GotErr e"
| "mem_String (Inr RNil) = GotErrNil"
| "mem_String (Inr ROk) = GotString ''OK''"
| "mem_String (Inr (RBulk v)) = GotString v"

definition mem_lib :: "(mem, unit, mem_reply) redis_lib" where
  "mem_lib =
     \<lparr>ra_Get = (\<lambda>w. ((), w\<lparr>m_held := m_held w + 1\<rparr>)),
      ra_Close = (\<lambda>c w. (None, w\<lparr>m_held := m_held w - 1\<rparr>)),
      ra_Do = mem_do,
      ra_String = mem_String\<rparr>"

lemma mem_tick_sel [simp]: "m_db (mem_tick w) = m_db w" "m_clock (mem_tick w) = m_clock w + 1"
  "m_held (mem_tick w) = m_held w"
  by (simp_all add: mem_tick_def)

lemma mem_do_set:
  assumes "mem_do c ''SET'' [k, v, mode, ''EX'', itoa n] w = (r, w1)"
  shows "m_db w1 = set_effect mode (m_clock w) k v n (m_db w) \<or> (\<exists>e. r = Inl e) \<and> m_db w1 = m_db w"
    and "m_clock w1 = m_clock w + 1"
  using assms
  by (auto simp: mem_do_def mem_set_def Let_def split: option.splits list.splits sum.splits if_splits)

lemma mem_do_get:
  assumes "mem_do c ''GET'' [k] w = (r, w1)"
  shows "m_db w1 = m_db w" and "m_clock w1 = m_clock w + 1"
    and "case mem_String r of
           GotString v \<Rightarrow> live (m_clock w) (m_db w) k = Some v
         | GotErrNil \<Rightarrow> live (m_clock w) (m_db w) k = None
         | GotErr e \<Rightarrow> True"
  using assms
  by (auto simp: mem_do_def mem_get_def Let_def split: option.splits list.splits)

interpretation mem: redis_server mem_lib m_db m_clock
proof (unfold_locales, goal_cases)
  case (3 c k v mode n w r w1)
  then have "mem_do c ''SET'' [k, v, mode, ''EX'', itoa n] w = (r, w1)" by (simp add: mem_lib_def)
  from mem_do_set [OF this] show ?case by (intro exI [of _ "m_clock w"]) simp
next
  case (4 c k w r w1)
  then have "mem_do c ''GET'' [k] w = (r, w1)" by (simp add: mem_lib_def)
  from mem_do_get [OF this] show ?case by (intro conjI exI [of _ "m_clock w"]) (simp_all add: mem_lib_def)
qed (auto simp: mem_lib_def)

definition mem_store :: "RedisStoreConfig \<Rightarrow> json_errors \<Rightarrow> (mem, unit, mem_reply) store" where
  "mem_store c je = \<lparr>pool = mem_lib, cfg = c, errors = je\<rparr>"

lemma pool_mem_store [simp]: "pool (mem_store c je) = mem_lib"
  by (simp add: mem_store_def)

interpretation memstore: redis_store "mem_store c je" m_db m_clock for c je
  by (simp add: redis_store_def mem.redis_server_axioms)

definition mem_world :: "string option list \<Rightarrow> mem" where
  "mem_world faults = \<lparr>m_db = Map.empty, m_clock = 0, m_held = 0, m_faults = faults\<rparr>"

lemma mem_world_ok [simp]: "store_ok s (m_db (mem_world faults))"
  by (simp add: store_ok_def mem_world_def)

subsection \<open>Runs of the store in memory\<close>

text \<open>
  A store with an expiry of an hour, and the world that holds one job under its key until the
  time \<open>d\<close>. On it every operation has a closed form, as long as no command fails.
\<close>

definition mem_errors :: json_errors where
  "mem_errors = \<lparr>je_marshal = ''json: unsupported value'', je_unmarshal = (\<lambda>s. ''invalid character'')\<rparr>"

definition hour_store :: "(mem, unit, mem_reply) store" where
  "hour_store = mem_store \<lparr>st_Namespace = ''harbor.scanner.clair:store'', st_ScanJobTTL = 3600 * 1000000000\<rparr> mem_errors"

definition job_bytes :: "ScanJob \<Rightarrow> string" where
  "job_bytes j = (case marshal_job mem_errors j of Ok b \<Rightarrow> b | _ \<Rightarrow> [])"

definition one_job :: "ScanJob \<Rightarrow> int \<Rightarrow> int \<Rightarrow> mem" where
  "one_job j t d =
     \<lparr>m_db = [getKeyForScanJob hour_store (job_ID j) \<mapsto> (job_bytes j, d)], m_clock = t, m_held = 0,
      m_faults = []\<rparr>"

lemma job_bytes:
  assumes "storable j"
  shows "marshal_job mem_errors j = Ok (job_bytes j)"
    and "unmarshal_job mem_errors (job_bytes j) = Ok (stored_job j)"
proof -
  obtain b where "marshal_job mem_errors j = Ok b" "unmarshal_job mem_errors b = Ok (stored_job j)"
    by (rule unmarshal_marshal_job [OF assms])
  then show "marshal_job mem_errors j = Ok (job_bytes j)"
    "unmarshal_job mem_errors (job_bytes j) = Ok (stored_job j)"
    by (simp_all add: job_bytes_def)
qed

lemma hour_store_sel [simp]: "pool hour_store = mem_lib" "errors hour_store = mem_errors"
  by (simp_all add: hour_store_def mem_store_def)

lemma hour_ttl: "st_ScanJobTTL (cfg hour_store) = 3600 * 1000000000"
  by (simp add: hour_store_def mem_store_def)

lemma hour_seconds: "duration_seconds (3600 * 1000000000) = 3600"
  by (rule duration_seconds_whole) simp_all

lemma ttl_hour [simp]: "ttl_of hour_store = 3600"
  unfolding ttl_of_def by (simp only: hour_ttl hour_seconds)

lemma mem_server: "redis_server (pool hour_store) m_db m_clock"
  unfolding hour_store_sel by (rule mem.redis_server_axioms)

lemma atoi_hour: "atoi (itoa 3600) = Inr 3600"
  by (rule atoi_itoa) simp_all

lemma hour_set_job:
  assumes "storable j" and "m_faults w = []" and "mode \<in> {''NX'', ''XX''}"
  shows "set_job hour_store mode what j w =
    (Ok (), w\<lparr>m_db := set_effect mode (m_clock w) (getKeyForScanJob hour_store (job_ID j)) (job_bytes j) 3600 (m_db w),
             m_clock := m_clock w + 1\<rparr>)"
proof -
  have d: "duration_seconds (st_ScanJobTTL (cfg hour_store)) = 3600"
    by (simp only: hour_ttl hour_seconds)
  show ?thesis
    unfolding set_job_def d hour_store_sel job_bytes(1) [OF assms(1)]
    using assms(2,3)
    by (auto simp: with_conn_def mem_lib_def bind_act_def wrap_act_def lift_res_def lib_act_def mem_do_def
        mem_set_def atoi_hour mem_tick_def ret_def)
qed

lemma hour_Get:
  assumes "m_faults w = []"
  shows "Get hour_store i w =
    (case live (m_clock w) (m_db w) (getKeyForScanJob hour_store i) of
       None \<Rightarrow> Ok None
     | Some v \<Rightarrow> map_res Some (unmarshal_job mem_errors v),
     w\<lparr>m_clock := m_clock w + 1\<rparr>)"
  using assms
  by (simp add: Get_def with_conn_def mem_lib_def mem_do_def mem_get_def mem_tick_def split: option.split)

lemma one_job_sel [simp]:
  "m_clock (one_job j t d) = t" "m_faults (one_job j t d) = []"
  "m_db (one_job j t d) = [getKeyForScanJob hour_store (job_ID j) \<mapsto> (job_bytes j, d)]"
  by (simp_all add: one_job_def)

lemma one_job_Get:
  assumes "storable j" and "t < d"
  shows "Get hour_store (job_ID j) (one_job j t d) = (Ok (Some (stored_job j)), one_job j (t + 1) d)"
  using assms by (simp add: hour_Get live_def job_bytes) (simp add: one_job_def)

lemma one_job_update:
  assumes "storable j'" and "job_ID j' = job_ID j" and "t < d"
  shows "update hour_store j' (one_job j t d) = (Ok (), one_job j' (t + 1) (t + 3600000))"
  using assms
  by (simp add: update_def hour_set_job set_effect_def live_def) (simp add: one_job_def)

lemma one_job_UpdateStatus:
  assumes "storable j" and "stored_job j = j" and "t + 1 < d" and "- (2 ^ 63) \<le> st" "st < 2 ^ 63"
  shows "UpdateStatus hour_store (job_ID j) st es (one_job j t d) =
    (Ok (), one_job (with_status st es j) (t + 2) (t + 3600001))"
proof -
  have "storable (with_status st es j)" "job_ID (with_status st es j) = job_ID j"
    using storable_with_status [OF assms(1,4,5,2)] by auto
  then have "update hour_store (with_status st es j) (one_job j (t + 1) d) =
      (Ok (), one_job (with_status st es j) (t + 1 + 1) (t + 1 + 3600000))"
    by (rule one_job_update) (use assms(3) in simp)
  then show ?thesis
    using one_job_Get [OF assms(1), of t d] assms(2,3)
    by (cases es) (simp_all add: UpdateStatus_def bind_act_def with_status_def Let_def add.commute)
qed

lemma one_job_UpdateReport:
  assumes "storable j" and "stored_job j = j" and "t + 1 < d" and "valid_time (rep_GeneratedAt rep)"
  shows "UpdateReport hour_store (job_ID j) rep (one_job j t d) =
    (Ok (), one_job (with_report rep j) (t + 2) (t + 3600001))"
proof -
  have "storable (with_report rep j)" "job_ID (with_report rep j) = job_ID j"
    using storable_with_report [OF assms(1,4,2)] by auto
  then have "update hour_store (with_report rep j) (one_job j (t + 1) d) =
      (Ok (), one_job (with_report rep j) (t + 1 + 1) (t + 1 + 3600000))"
    by (rule one_job_update) (use assms(3) in simp)
  then show ?thesis
    using one_job_Get [OF assms(1), of t d] assms(2,3)
    by (simp add: UpdateReport_def bind_act_def with_report_def add.commute)
qed

lemma one_job_ok:
  assumes "storable j" and "valid_utf8 (job_ID j)"
  shows "jobs_ok hour_store m_db (one_job j t d)"
    and "t < d \<Longrightarrow> job_now hour_store m_db m_clock (one_job j t d) (job_ID j) = Some (stored_job j)"
proof -
  have "good_value mem_errors (job_ID j) (job_bytes j)"
    by (rule good_value_marshal [OF assms job_bytes(1) [OF assms(1)]])
  then show ok: "jobs_ok hour_store m_db (one_job j t d)"
    by (auto simp: jobs_ok_def store_ok_def)
  then show "t < d \<Longrightarrow> job_now hour_store m_db m_clock (one_job j t d) (job_ID j) = Some (stored_job j)"
    by (simp add: job_now_def jobs_of_def live_def entry_of_def job_bytes(2) [OF assms(1)])
qed

subsection \<open>Properties\<close>

text \<open>A job of the demonstrations.\<close>

definition demo_job :: ScanJob where
  "demo_job = pending_job ''job-1''"

lemma demo_job [simp]: "storable demo_job" "stored_job demo_job = demo_job" "job_ID demo_job = ''job-1''"
  "valid_utf8 ''job-1''" "job_Status demo_job = Pending"
proof -
  show v: "valid_utf8 ''job-1''" by (simp add: valid_utf8_def)
  then show "stored_job demo_job = demo_job" unfolding demo_job_def by (rule stored_pending)
qed (simp_all add: demo_job_def pending_job_def storable_pending [unfolded pending_job_def])

lemma mem_counts: "counts_connections mem_lib m_held"
  by (auto simp: counts_connections_def mem_lib_def mem_do_def mem_set_def mem_get_def Let_def
      split: option.split list.split sum.split)

lemma connections_balanced_witness:
  "m_held (snd (Create hour_store demo_job (mem_world [Some ''ERR timeout'']))) = 0"
  using connections_balanced [of hour_store m_held demo_job "mem_world [Some ''ERR timeout'']"] mem_counts
  by (simp add: mem_world_def)

text \<open>
  C7. The store on Redis refines the abstract store of jobs. On a server that meets the
  documented behaviour of \<open>SET\<close> with \<open>NX\<close>, \<open>XX\<close> and \<open>EX\<close> and of \<open>GET\<close>, the operations
  of \<open>redis/store.go\<close> meet the contract \<open>scan_store\<close> over the map from identifiers to jobs with
  an expiry that the keys and their JSON values stand for: a job is created only where none is
  live, a read returns the live job, an update rewrites the job that was read and keeps all
  others, every write sets the configured expiry, and every value stays decodable.
\<close>

theorem redis_store_refines_contract:
  assumes "redis_server (pool s) db clock"
  shows "scan_store (Create s) (Get s) (UpdateStatus s) (UpdateReport s) (jobs_of s db) (jobs_ok s db)
    clock (ttl_of s)"
  by (rule redis_contract [OF assms])

lemma redis_store_refines_contract_witness:
  "scan_store (Create hour_store) (Get hour_store) (UpdateStatus hour_store) (UpdateReport hour_store)
    (jobs_of hour_store m_db) (jobs_ok hour_store m_db) m_clock 3600"
  using redis_store_refines_contract [OF mem_server] by simp

text \<open>
  C20. A job that was created without an error under a new identifier is the one that is read
  back, in its stored form, by any later read that returns no error before the job expires.
\<close>

theorem create_then_get:
  assumes "redis_server (pool s) db clock" and "jobs_ok s db w"
    and "storable j" and "valid_utf8 (job_ID j)" and "jobs_of s db w (job_ID j) = None"
    and "Create s j w = (Ok (), w1)" and "Get s (job_ID j) w1 = (Ok x, w2)"
    and "clock w2 < clock w + 1000 * ttl_of s"
  shows "x = Some (stored_job j)"
  by (rule scan_store.create_get [OF redis_contract [OF assms(1)] assms(2-8)])

lemma mem_create: "Create hour_store demo_job (mem_world []) = (Ok (), one_job demo_job 1 3600000)"
  unfolding Create_def
  by (simp add: hour_set_job mem_world_def) (simp add: one_job_def set_effect_def live_def)

lemma create_then_get_witness:
  "Some demo_job = Some (stored_job demo_job) \<and>
   Get hour_store ''job-1'' (one_job demo_job 1 3600000) = (Ok (Some demo_job), one_job demo_job 2 3600000)"
proof -
  have g: "Get hour_store (job_ID demo_job) (one_job demo_job 1 3600000) =
      (Ok (Some demo_job), one_job demo_job 2 3600000)"
    using one_job_Get [of demo_job 1 3600000] by simp
  have n: "jobs_of hour_store m_db (mem_world []) (job_ID demo_job) = None"
    by (simp add: jobs_of_def entry_of_def mem_world_def)
  have ok: "jobs_ok hour_store m_db (mem_world [])" by (simp add: jobs_ok_def)
  have v: "valid_utf8 (job_ID demo_job)" by simp
  have t: "m_clock (one_job demo_job 2 3600000) < m_clock (mem_world []) + 1000 * ttl_of hour_store"
    by (simp add: mem_world_def)
  have "Some demo_job = Some (stored_job demo_job)"
    by (rule create_then_get [OF mem_server ok demo_job(1) v n mem_create g t])
  with g show ?thesis unfolding demo_job(3) by (intro conjI)
qed

text \<open>
  Creating a job under the identifier of a live one changes nothing and is not an error:
  \<open>SET\<close> with \<open>NX\<close> answers nil, which the code does not look at.
\<close>

theorem create_over_live_job:
  assumes "redis_server (pool s) db clock" and "jobs_ok s db w"
    and "storable j" and "valid_utf8 (job_ID j)"
    and "Create s j w = (r, w')" and "live (clock w') (jobs_of s db w) (job_ID j) = Some old"
  shows "\<not> is_Panic r \<and> jobs_of s db w' = jobs_of s db w \<and> job_now s db clock w' (job_ID j) = Some old"
proof -
  from scan_store.create_law [OF redis_contract [OF assms(1)] assms(2-5)] obtain t where
    r: "\<not> is_Panic r" and t: "t \<le> clock w'"
    and eff: "jobs_of s db w' = set_effect ''NX'' t (job_ID j) (stored_job j) (ttl_of s) (jobs_of s db w) \<or>
      jobs_of s db w' = jobs_of s db w"
    by auto
  have "live t (jobs_of s db w) (job_ID j) \<noteq> None" using live_mono [OF assms(6) t] by simp
  with eff have "jobs_of s db w' = jobs_of s db w" by (auto simp: set_effect_def)
  with r assms(6) show ?thesis by (simp add: job_now_def)
qed

lemma mem_create_again:
  "Create hour_store (demo_job\<lparr>job_Status := Finished\<rparr>) (one_job demo_job 1 3600000) =
     (Ok (), one_job demo_job 2 3600000)"
proof -
  have "storable (demo_job\<lparr>job_Status := Finished\<rparr>)"
    using demo_job(1) by (simp add: storable_def Finished_def)
  then show ?thesis
    unfolding Create_def by (simp add: hour_set_job) (simp add: one_job_def set_effect_def live_def)
qed

lemma create_over_live_job_witness:
  "job_now hour_store m_db m_clock (one_job demo_job 2 3600000) ''job-1'' = Some demo_job"
proof -
  have "jobs_of hour_store m_db (one_job demo_job 1 3600000) ''job-1'' = Some (demo_job, 3600000)"
    by (simp add: jobs_of_def entry_of_def job_bytes)
  moreover have "storable (demo_job\<lparr>job_Status := Finished\<rparr>)"
    using demo_job(1) by (simp add: storable_def Finished_def)
  ultimately show ?thesis
    using create_over_live_job [OF mem_server one_job_ok(1) _ _ mem_create_again]
    by (simp add: live_def)
qed

end
