(* ===== verification/Interleave.thy ===== *)
theory Interleave
  imports ApiHandler MemRedis
begin

text \<open>
  Many scans at once. The goroutines of the tasks, the handlers that create jobs and those that
  read them all work on one store, and a command of one may reach Redis between any two commands
  of another. \<open>task_step\<close> is \<open>Task\<close> cut into its commands: an update is a read that leaves the
  changed job in the task, and a later write of it, and what other goroutines do comes between
  the two. A \<open>service\<close> is the world, the tasks with the stage each has reached, and the requests
  of all the jobs so far; a crash ends all tasks, and the process may be started again on the
  jobs that Redis still holds.
\<close>

subsection \<open>A task in steps\<close>

datatype stage =
    ToRun
  | WriteRunning ScanJob
  | ToScan
  | ToReport ScanReport
  | WriteReport ScanJob
  | ToFinish
  | WriteFinished ScanJob
  | ToFail string
  | WriteFailed ScanJob
  | Ended
  | Crashed panic

text \<open>
  The two halves of an update: \<open>s.Get\<close> with the change of the job it returned, where a job that
  is gone is the nil that the change dereferences, and \<open>s.update\<close>.
\<close>

definition read_half ::
  "('w, 'c, 'r) store \<Rightarrow> string \<Rightarrow> (ScanJob \<Rightarrow> stage) \<Rightarrow> (string \<Rightarrow> stage) \<Rightarrow> 'w \<Rightarrow> stage \<times> 'w"
where
  "read_half s i after failed w =
     (case Get s i w of
        (Ok (Some j), w') \<Rightarrow> (after j, w')
      | (Ok None, w') \<Rightarrow> (Crashed NilDereference, w')
      | (Err e, w') \<Rightarrow> (failed e, w')
      | (Panic p, w') \<Rightarrow> (Crashed p, w'))"

definition write_half ::
  "('w, 'c, 'r) store \<Rightarrow> ScanJob \<Rightarrow> stage \<Rightarrow> (string \<Rightarrow> stage) \<Rightarrow> 'w \<Rightarrow> stage \<times> 'w"
where
  "write_half s j after failed w =
     (case update s j w of
        (Ok _, w') \<Rightarrow> (after, w') | (Err e, w') \<Rightarrow> (failed e, w') | (Panic p, w') \<Rightarrow> (Crashed p, w'))"

definition task_step ::
  "('w, 'c, 'r) store \<Rightarrow> 'w Adapter \<Rightarrow> string \<Rightarrow> ScanRequest \<Rightarrow> stage \<times> 'w \<Rightarrow> stage \<times> 'w"
where
  "task_step s ad i req sw =
     (let w = snd sw in
      case fst sw of
        ToRun \<Rightarrow> read_half s i (\<lambda>j. WriteRunning (with_status Running [] j)) ToFail w
      | WriteRunning j \<Rightarrow> write_half s j ToScan ToFail w
      | ToScan \<Rightarrow>
          (case ad req w of
             (Ok report, w') \<Rightarrow> (ToReport report, w')
           | (Err e, w') \<Rightarrow> (ToFail e, w') | (Panic p, w') \<Rightarrow> (Crashed p, w'))
      | ToReport report \<Rightarrow> read_half s i (\<lambda>j. WriteReport (with_report report j)) ToFail w
      | WriteReport j \<Rightarrow> write_half s j ToFinish ToFail w
      | ToFinish \<Rightarrow> read_half s i (\<lambda>j. WriteFinished (with_status Finished [] j)) ToFail w
      | WriteFinished j \<Rightarrow> write_half s j Ended ToFail w
      | ToFail e \<Rightarrow> read_half s i (\<lambda>j. WriteFailed (with_status Failed [e] j)) (\<lambda>_. Ended) w
      | WriteFailed j \<Rightarrow> write_half s j Ended (\<lambda>_. Ended) w
      | Ended \<Rightarrow> sw
      | Crashed p \<Rightarrow> sw)"

definition final :: "stage \<Rightarrow> bool" where
  "final st \<longleftrightarrow> (case st of Ended \<Rightarrow> True | Crashed p \<Rightarrow> True | _ \<Rightarrow> False)"

lemmas task_step_simps = task_step_def [of s ad i req "(ToRun, w)"] task_step_def [of s ad i req "(WriteRunning j, w)"]
  task_step_def [of s ad i req "(ToScan, w)"] task_step_def [of s ad i req "(ToReport rep, w)"]
  task_step_def [of s ad i req "(WriteReport j, w)"] task_step_def [of s ad i req "(ToFinish, w)"]
  task_step_def [of s ad i req "(WriteFinished j, w)"] task_step_def [of s ad i req "(ToFail e, w)"]
  task_step_def [of s ad i req "(WriteFailed j, w)"] task_step_def [of s ad i req "(Ended, w)"]
  task_step_def [of s ad i req "(Crashed p, w)"] for s ad i req j rep e p w

subsection \<open>Left alone, the steps are the task\<close>

text \<open>A task that has come to \<open>r\<close> after \<open>n\<close> steps stays there.\<close>

definition ends :: "(stage \<times> 'w \<Rightarrow> stage \<times> 'w) \<Rightarrow> nat \<Rightarrow> stage \<times> 'w \<Rightarrow> stage \<times> 'w \<Rightarrow> bool" where
  "ends f n x r \<longleftrightarrow> (\<forall>m\<ge>n. (f ^^ m) x = r)"

lemma ends_run: "ends f n x r \<Longrightarrow> (f ^^ n) x = r"
  by (simp add: ends_def)

lemma ends_step: "ends f n (f x) r \<Longrightarrow> ends f (Suc n) x r"
  unfolding ends_def by (metis Suc_le_D Suc_le_mono comp_apply funpow_Suc_right)

lemma ends_mono: "ends f n x r \<Longrightarrow> n \<le> n' \<Longrightarrow> ends f n' x r"
  by (simp add: ends_def)

lemma ends_final: "f x = x \<Longrightarrow> ends f 0 x x"
proof -
  assume "f x = x"
  then have "(f ^^ m) x = x" for m by (induction m) simp_all
  then show ?thesis by (simp add: ends_def)
qed

definition outcome :: "unit res \<times> 'w \<Rightarrow> stage \<times> 'w" where
  "outcome x = (case x of (Panic p, w) \<Rightarrow> (Crashed p, w) | (_, w) \<Rightarrow> (Ended, w))"

lemma outcome_simps [simp]:
  "outcome (Ok u, w) = (Ended, w)" "outcome (Err e, w) = (Ended, w)" "outcome (Panic p, w) = (Crashed p, w)"
  by (simp_all add: outcome_def)

text \<open>Two halves are the update, whatever comes after it.\<close>

lemma halves:
  assumes "\<And>w. f (a, w) = read_half s i (\<lambda>j. b (g j)) failed w"
    and "\<And>j w. f (b j, w) = write_half s j after failed w"
    and "\<And>w'. modify s i g w = (Ok (), w') \<Longrightarrow> ends f n (after, w') r"
    and "\<And>e w'. modify s i g w = (Err e, w') \<Longrightarrow> ends f n (failed e, w') r"
    and "\<And>p w'. modify s i g w = (Panic p, w') \<Longrightarrow> ends f n (Crashed p, w') r"
  shows "ends f (Suc (Suc n)) (a, w) r"
proof -
  obtain x w1 where x: "Get s i w = (x, w1)" by fastforce
  note step = ends_step [of f n] and late = ends_mono [of f n _ r "Suc n"]
  show ?thesis
  proof (rule ends_step, cases x)
    case (Ok v)
    show "ends f (Suc n) (f (a, w)) r"
    proof (cases v)
      case None
      with Ok x assms(5) [of NilDereference w1] show ?thesis
        by (simp add: assms(1) read_half_def modify_def bind_act_def panicking_def late)
    next
      case (Some j)
      obtain y w2 where y: "update s (g j) w1 = (y, w2)" by fastforce
      with x Ok Some have "modify s i g w = (y, w2)" by (simp add: modify_def bind_act_def)
      with y assms(3-5) have "ends f n (f (b (g j), w1)) r"
        by (cases y) (simp_all add: assms(2) write_half_def)
      with x Ok Some show ?thesis by (simp add: assms(1) read_half_def step)
    qed
  qed (use x assms(4,5) in \<open>simp_all add: assms(1) read_half_def modify_def bind_act_def late\<close>)
qed

lemma fail_steps: "ends (task_step s ad i req) 2 (ToFail e, w) (outcome (UpdateStatus s i Failed [e] w))"
  unfolding numeral_2_eq_2 UpdateStatus_modify
  by (rule halves [where s = s and i = i and b = WriteFailed and g = "with_status Failed [e]" and after = Ended and failed = "\<lambda>_. Ended"])
     (simp_all add: task_step_simps ends_final)

text \<open>The rest of a task from a stage on: what is left of \<open>scan\<close>, and the update when that fails.\<close>

definition task_rest :: "('w, 'c, 'r) store \<Rightarrow> string \<Rightarrow> unit res \<times> 'w \<Rightarrow> stage \<times> 'w" where
  "task_rest s i x = (case x of (Err e, w) \<Rightarrow> outcome (UpdateStatus s i Failed [e] w) | _ \<Rightarrow> outcome x)"

lemma task_rest_simps [simp]:
  "task_rest s i (Ok u, w) = (Ended, w)" "task_rest s i (Panic p, w) = (Crashed p, w)"
  "task_rest s i (Err e, w) = outcome (UpdateStatus s i Failed [e] w)"
  by (simp_all add: task_rest_def)

lemma Task_rest: "outcome (Task (scan_worker s ad i req) w) = task_rest s i (scan (scan_worker s ad i req) w)"
  by (simp add: Task_def scan_worker_def NewStore_def task_rest_def split: prod.split res.split)

lemma ends_panic: "ends (task_step s ad i req) n (Crashed p, w) (Crashed p, w)"
  by (rule ends_mono [OF ends_final]) (simp_all add: task_step_simps)

lemma finish_steps:
  "ends (task_step s ad i req) 4 (ToFinish, w) (task_rest s i (UpdateStatus s i Finished [] w))"
proof -
  have "ends (task_step s ad i req) (Suc (Suc 2)) (ToFinish, w) (task_rest s i (UpdateStatus s i Finished [] w))"
    unfolding UpdateStatus_modify [of s i Finished]
    by (rule halves [where s = s and i = i and b = WriteFinished and g = "with_status Finished []" and after = Ended and failed = ToFail])
       (simp_all add: task_step_simps ends_panic fail_steps ends_mono [OF ends_final])
  then show ?thesis by simp
qed

lemma report_steps:
  "ends (task_step s ad i req) 6 (ToReport rep, w)
     (task_rest s i (bind_act (UpdateReport s i rep) (\<lambda>_. UpdateStatus s i Finished []) w))"
proof -
  have "ends (task_step s ad i req) (Suc (Suc 4)) (ToReport rep, w)
     (task_rest s i (bind_act (UpdateReport s i rep) (\<lambda>_. UpdateStatus s i Finished []) w))"
    unfolding UpdateReport_modify
    by (rule halves [where s = s and i = i and b = WriteReport and g = "with_report rep" and after = ToFinish and failed = ToFail])
       (simp_all add: task_step_simps bind_act_def finish_steps ends_panic
         ends_mono [OF fail_steps])
  then show ?thesis by simp
qed

lemma scan_steps:
  "ends (task_step s ad i req) 7 (ToScan, w)
     (task_rest s i (bind_act (ad req) (\<lambda>rep. bind_act (UpdateReport s i rep) (\<lambda>_. UpdateStatus s i Finished [])) w))"
proof -
  obtain r w1 where a: "ad req w = (r, w1)" by fastforce
  have "ends (task_step s ad i req) (Suc 6) (ToScan, w)
     (task_rest s i (bind_act (ad req) (\<lambda>rep. bind_act (UpdateReport s i rep) (\<lambda>_. UpdateStatus s i Finished [])) w))"
    by (rule ends_step, cases r)
       (simp_all add: task_step_simps a bind_act_def [of "ad req"] report_steps ends_panic ends_mono [OF fail_steps])
  then show ?thesis by simp
qed

lemma task_steps: "ends (task_step s ad i req) 9 (ToRun, w) (outcome (Task (scan_worker s ad i req) w))"
proof -
  have sc: "scan (scan_worker s ad i req) =
      bind_act (UpdateStatus s i Running []) (\<lambda>_. bind_act (ad req) (\<lambda>rep. bind_act (UpdateReport s i rep)
        (\<lambda>_. UpdateStatus s i Finished [])))"
    by (rule ext) (simp add: scan_def scan_worker_def NewStore_def bind_act_def ret_def split: prod.split res.split)
  have "ends (task_step s ad i req) (Suc (Suc 7)) (ToRun, w) (task_rest s i (scan (scan_worker s ad i req) w))"
    unfolding sc UpdateStatus_modify [of s i Running]
    by (rule halves [where s = s and i = i and b = WriteRunning and g = "with_status Running []" and after = ToScan and failed = ToFail])
       (simp_all add: task_step_simps bind_act_def [of "modify s i (with_status Running [])"]
         scan_steps ends_panic ends_mono [OF fail_steps])
  then show ?thesis by (simp add: Task_rest)
qed

subsection \<open>All tasks at once\<close>

record 'w service =
  se_world :: 'w
  se_tasks :: "string \<rightharpoonup> stage"
  se_requests :: "string \<rightharpoonup> ScanRequest"
  se_crashed :: bool

datatype service_event =
    Submit string ScanRequest    \<comment> \<open>a handler enqueues a request under a fresh identifier\<close>
  | Advance string               \<comment> \<open>the task of a job makes a step\<close>
  | Read string                  \<comment> \<open>a handler reads a job\<close>
  | Restart                      \<comment> \<open>the process has ended, and a new one starts\<close>

fun service_next :: "('w, 'c, 'r) store \<Rightarrow> 'w Adapter \<Rightarrow> service_event \<Rightarrow> 'w service \<Rightarrow> 'w service option" where
  "service_next st ad (Submit i req) s =
     (if se_crashed s \<or> se_requests s i \<noteq> None \<or> \<not> valid_utf8 i then None
      else let (r, w') = Enqueue (\<lambda>w. (i, w)) \<lparr>en_store = NewStore st, en_run = (\<lambda>wk. ret ()), en_adapter = ad\<rparr> req (se_world s);
               s' = s\<lparr>se_world := w', se_requests := (se_requests s)(i \<mapsto> req)\<rparr>
           in Some (if is_Ok r then s'\<lparr>se_tasks := (se_tasks s)(i \<mapsto> ToRun)\<rparr> else s'))"
| "service_next st ad (Advance i) s =
     (case (se_tasks s i, se_requests s i) of
        (Some stg, Some req) \<Rightarrow>
          if se_crashed s \<or> final stg then None
          else let (stg', w') = task_step st ad i req (stg, se_world s)
               in Some (s\<lparr>se_world := w', se_tasks := (se_tasks s)(i \<mapsto> stg'),
                          se_crashed := (case stg' of Crashed p \<Rightarrow> True | _ \<Rightarrow> False)\<rparr>)
      | _ \<Rightarrow> None)"
| "service_next st ad (Read i) s =
     (if se_crashed s then None else Some (s\<lparr>se_world := snd (Get st i (se_world s))\<rparr>))"
| "service_next st ad Restart s = Some (s\<lparr>se_tasks := Map.empty, se_crashed := False\<rparr>)"

definition service0 :: "'w \<Rightarrow> 'w service" where
  "service0 w = \<lparr>se_world = w, se_tasks = Map.empty, se_requests = Map.empty, se_crashed = False\<rparr>"

inductive reachable_service :: "('w, 'c, 'r) store \<Rightarrow> 'w Adapter \<Rightarrow> 'w \<Rightarrow> 'w service \<Rightarrow> bool" for st ad w0 where
  start: "reachable_service st ad w0 (service0 w0)"
| step: "reachable_service st ad w0 s \<Longrightarrow> service_next st ad e s = Some s' \<Longrightarrow> reachable_service st ad w0 s'"

fun service_run :: "('w, 'c, 'r) store \<Rightarrow> 'w Adapter \<Rightarrow> service_event list \<Rightarrow> 'w service \<Rightarrow> 'w service option" where
  "service_run st ad [] s = Some s"
| "service_run st ad (e # es) s =
     (case service_next st ad e s of None \<Rightarrow> None | Some s' \<Rightarrow> service_run st ad es s')"

lemma service_run_reachable:
  "reachable_service st ad w0 s \<Longrightarrow> service_run st ad es s = Some s' \<Longrightarrow> reachable_service st ad w0 s'"
  by (induction es arbitrary: s) (auto split: option.splits intro: reachable_service.step)

subsection \<open>What holds in every state\<close>

context redis_store
begin

definition own :: "'w Adapter \<Rightarrow> ScanRequest \<Rightarrow> ScanJob \<Rightarrow> bool" where
  "own ad req j \<longleftrightarrow> (\<exists>rep w1 w2. ad req w1 = (Ok rep, w2) \<and> job_Report j = stored_report rep)"

lemma reported_iff: "reported ad req j \<longleftrightarrow> (job_Status j = Finished \<longrightarrow> own ad req j)"
  by (simp add: reported_def own_def)

lemma own_sel [simp]:
  "own ad req (with_status st es j) \<longleftrightarrow> own ad req j"
  "own ad req (with_report r j) \<longleftrightarrow> (\<exists>rep w1 w2. ad req w1 = (Ok rep, w2) \<and> r = stored_report rep)"
  by (simp_all add: own_def)

text \<open>A job that a task holds between the read and the write can be stored under its identifier.\<close>

definition held :: "(ScanJob \<Rightarrow> bool) \<Rightarrow> string \<Rightarrow> ScanJob \<Rightarrow> bool" where
  "held P i j \<longleftrightarrow> storable j \<and> valid_utf8 i \<and> job_ID j = i \<and> P (stored_job j)"

lemma held_status:
  assumes "storable j" and "stored_job j = j" and "job_ID j = i" and "st \<in> {Running, Finished, Failed}"
    and "P (with_status st (map sanitise es) j)"
  shows "held P i (with_status st es j)"
  using storable_with_status [OF assms(1) _ _ assms(2), of st es] stored_job_fixed(1) [OF assms(2)] assms(3-5)
  by (auto simp: held_def valid_utf8_def status_defs)

lemma held_report:
  assumes "storable j" and "stored_job j = j" and "job_ID j = i" and "valid_time (rep_GeneratedAt rep)"
    and "P (with_report (stored_report rep) j)"
  shows "held P i (with_report rep j)"
  using storable_with_report [OF assms(1,4,2)] stored_job_fixed(1) [OF assms(2)] assms(3,5)
  by (simp add: held_def valid_utf8_def)

lemma held_own: "held (own ad req) i j \<Longrightarrow> held (reported ad req) i j"
  by (simp add: held_def reported_iff)

definition stage_ok :: "'w Adapter \<Rightarrow> ScanRequest \<Rightarrow> string \<Rightarrow> stage \<Rightarrow> 'w \<Rightarrow> bool" where
  "stage_ok ad req i stg w \<longleftrightarrow>
     (case stg of
        WriteRunning j \<Rightarrow> held (reported ad req) i j
      | ToReport rep \<Rightarrow> valid_time (rep_GeneratedAt rep) \<and> (\<exists>w1 w2. ad req w1 = (Ok rep, w2))
      | WriteReport j \<Rightarrow> held (own ad req) i j
      | ToFinish \<Rightarrow> all_job (own ad req) i w
      | WriteFinished j \<Rightarrow> held (own ad req) i j
      | WriteFailed j \<Rightarrow> held (reported ad req) i j
      | _ \<Rightarrow> True)"

text \<open>The jobs outside a set are as they were, or have expired.\<close>

definition fades :: "string set \<Rightarrow> 'w \<Rightarrow> 'w \<Rightarrow> bool" where
  "fades ks w w' \<longleftrightarrow> ok_in w' \<and> (\<forall>k j. k \<notin> ks \<longrightarrow> job_at w' k = Some j \<longrightarrow> job_at w k = Some j)"

lemma fades_all: "fades ks w w' \<Longrightarrow> k \<notin> ks \<Longrightarrow> all_job P k w \<Longrightarrow> all_job P k w'"
  by (auto simp: fades_def all_job_def)

lemma fades_mono: "fades {} w w' \<Longrightarrow> fades ks w w'"
  by (simp add: fades_def)

lemma adapter_fades: "adapter_frame ad \<Longrightarrow> ok_in w \<Longrightarrow> ad req w = (r, w') \<Longrightarrow> fades {} w w'"
  unfolding fades_def using adapter_job_at [of ad w req r w'] by blast

lemma get_fades: "ok_in w \<Longrightarrow> Get s i w = (r, w') \<Longrightarrow> fades {} w w'"
  using get_law [of w i r w'] by (auto simp: fades_def job_at_def intro: live_mono)

text \<open>A \<open>SET\<close> touches one job, and leaves there what it wrote or what was there.\<close>

lemma set_fades:
  assumes "ok_in w" and "storable j" and "valid_utf8 (job_ID j)" and "mode \<in> {''NX'', ''XX''}"
    and "set_job s mode what j w = (r, w')"
  shows "fades {job_ID j} w w'" and "\<not> is_Panic r"
    and "all_job (\<lambda>j'. job_at w (job_ID j) = Some j' \<or> j' = stored_job j) (job_ID j) w'"
    and "r = Ok x \<Longrightarrow> mode = ''XX'' \<Longrightarrow> all_job (\<lambda>j'. j' = stored_job j) (job_ID j) w'"
proof -
  from set_job_law [OF assms] obtain t where ok: "ok_in w'" and p: "\<not> is_Panic r" and t: "clock w \<le> t" "t \<le> clock w'"
    and m: "jobs_in w' = set_effect mode t (job_ID j) (stored_job j) ttl_secs (jobs_in w) \<or>
      (\<exists>e. r = Err e) \<and> jobs_in w' = jobs_in w"
    by auto
  have same: "live (clock w') (jobs_in w) k = Some y \<Longrightarrow> job_at w k = Some y" for k y
    using t by (auto simp: job_at_def intro: live_mono)
  show "fades {job_ID j} w w'"
    using ok m same by (auto simp: fades_def job_at_def set_effect_def live_upd split: if_splits)
  show "\<not> is_Panic r" by (fact p)
  show "all_job (\<lambda>j'. job_at w (job_ID j) = Some j' \<or> j' = stored_job j) (job_ID j) w'"
    using m same by (auto simp: all_job_def job_at_def set_effect_def live_upd split: if_splits)
  have "live t (jobs_in w) k = None \<Longrightarrow> live (clock w') (jobs_in w) k = None" for k
    by (rule live_gone [OF _ t(2)])
  then show "r = Ok x \<Longrightarrow> mode = ''XX'' \<Longrightarrow> all_job (\<lambda>j'. j' = stored_job j) (job_ID j) w'"
    using m by (auto simp: all_job_def job_at_def set_effect_def live_upd split: if_splits)
qed

lemma read_half_ok:
  assumes "ok_in w" and "read_half s i after failed w = (stg', w')"
  obtains j where "fades {} w w'" and "job_at w i = Some j" and "storable j" and "stored_job j = j"
    and "job_ID j = i" and "stg' = after j"
  | e where "fades {} w w'" and "stg' = failed e"
  | p where "fades {} w w'" and "stg' = Crashed p"
proof -
  obtain x w1 where g: "Get s i w = (x, w1)" by fastforce
  have f: "fades {} w w1" by (rule get_fades [OF assms(1) g])
  note step = assms(2) [unfolded read_half_def g, simplified]
  show thesis
  proof (cases x)
    case (Ok v)
    show thesis
    proof (cases v)
      case None
      with step Ok have "stg' = Crashed NilDereference" "w' = w1" by simp_all
      with f show thesis by (intro that(3)) simp_all
    next
      case (Some j)
      have n: "job_at w i = Some j" by (rule get_job_at(1) [OF assms(1) g [unfolded Ok Some]])
      then have "storable j \<and> stored_job j = j \<and> job_ID j = i"
        using assms(1) live_entry_storable [of s "db w" "clock w" i j] by (simp add: ok_in_def job_at_def jobs_in_def)
      moreover have "stg' = after j" "w' = w1" using step Ok Some by simp_all
      ultimately show thesis using n f by (intro that(1)) simp_all
    qed
  next
    case (Err e)
    with step have "stg' = failed e" "w' = w1" by simp_all
    with f show thesis by (intro that(2)) simp_all
  next
    case (Panic p)
    with step have "stg' = Crashed p" "w' = w1" by simp_all
    with f show thesis by (intro that(3)) simp_all
  qed
qed

lemma write_half_ok:
  assumes "ok_in w" and "held P i j" and "write_half s j after failed w = (stg', w')"
  shows "fades {i} w w'" and "all_job P i w \<Longrightarrow> all_job P i w'"
    and "stg' = after \<and> all_job P i w' \<or> (\<exists>e. stg' = failed e)"
proof -
  obtain r w1 where u: "update s j w = (r, w1)" by fastforce
  from assms(2) have h: "storable j" "valid_utf8 (job_ID j)" "job_ID j = i" "P (stored_job j)"
    by (simp_all add: held_def)
  have xx: "''XX'' \<in> {''NX'', ''XX''}" by simp
  note f = set_fades [OF assms(1) h(1,2) xx u [unfolded update_def], unfolded h(3)]
  from assms(3) u have w: "w' = w1" by (cases r) (simp_all add: write_half_def)
  have "(\<exists>x. r = Ok x) \<and> stg' = after \<or> (\<exists>e. stg' = failed e)"
    using assms(3) u f(2) by (cases r) (auto simp: write_half_def)
  then show "stg' = after \<and> all_job P i w' \<or> (\<exists>e. stg' = failed e)"
    using f(4) h(4) w by (auto simp: all_job_def)
  show "fades {i} w w'" using f(1) by (simp add: w)
  show "all_job P i w \<Longrightarrow> all_job P i w'" using f(3) h(4) by (auto simp: w all_job_def)
qed

lemma task_step_ok:
  assumes ad: "adapter_frame ad" and ok: "ok_in w" and P: "all_job (reported ad req) i w"
    and stg: "stage_ok ad req i stg w"
    and t: "task_step s ad i req (stg, w) = (stg', w')"
  shows "fades {i} w w' \<and> all_job (reported ad req) i w' \<and> stage_ok ad req i stg' w'"
proof -
  have own_reported: "all_job (own ad req) i w' \<Longrightarrow> all_job (reported ad req) i w'" for w'
    by (simp add: all_job_def reported_iff)
  have f: "fades {} w w' \<Longrightarrow> fades {i} w w' \<and> all_job (reported ad req) i w'"
    using fades_mono [of w w' "{i}"] fades_all [of "{}" w w' i, OF _ _ P] by simp
  note defs = task_step_simps stage_ok_def
  show ?thesis
  proof (cases stg)
    case ToRun
    from t have "read_half s i (\<lambda>j. WriteRunning (with_status Running [] j)) ToFail w = (stg', w')"
      by (simp add: ToRun task_step_simps)
    from ok this show ?thesis
      by (rule read_half_ok) (auto dest!: f simp: stage_ok_def reported_def status_defs intro: held_status)
  next
    case (WriteRunning j)
    with stg t have "held (reported ad req) i j" "write_half s j ToScan ToFail w = (stg', w')" by (simp_all add: defs)
    from write_half_ok [OF ok this] P show ?thesis by (auto simp: stage_ok_def)
  next
    case ToScan
    obtain r w1 where u: "ad req w = (r, w1)" by fastforce
    have "r = Ok rep \<Longrightarrow> valid_time (rep_GeneratedAt rep) \<and> (\<exists>w1 w2. ad req w1 = (Ok rep, w2))" for rep
      using ad ok u unfolding adapter_frame_def by blast
    with u t ToScan f adapter_fades [OF ad ok u] show ?thesis by (cases r) (auto simp: defs, blast)
  next
    case (ToReport rep)
    with stg t have v: "valid_time (rep_GeneratedAt rep)" "\<exists>w1 w2. ad req w1 = (Ok rep, w2)"
      and r: "read_half s i (\<lambda>j. WriteReport (with_report rep j)) ToFail w = (stg', w')"
      by (simp_all add: defs)
    from ok r show ?thesis
      by (rule read_half_ok) (use v in \<open>auto dest!: f simp: stage_ok_def intro!: held_report, blast\<close>)
  next
    case (WriteReport j)
    with stg t have h: "held (own ad req) i j" and w: "write_half s j ToFinish ToFail w = (stg', w')"
      by (simp_all add: defs)
    from write_half_ok [OF ok h w] write_half_ok(2) [OF ok held_own [OF h] w] P show ?thesis
      by (auto simp: stage_ok_def)
  next
    case ToFinish
    with stg have o: "all_job (own ad req) i w" by (simp add: stage_ok_def)
    from t have "read_half s i (\<lambda>j. WriteFinished (with_status Finished [] j)) ToFail w = (stg', w')"
      by (simp add: ToFinish task_step_simps)
    from ok this show ?thesis
      by (rule read_half_ok) (use o in \<open>auto dest!: f simp: stage_ok_def all_job_def intro!: held_status\<close>)
  next
    case (WriteFinished j)
    with stg t have h: "held (own ad req) i j" and w: "write_half s j Ended ToFail w = (stg', w')"
      by (simp_all add: defs)
    from write_half_ok [OF ok held_own [OF h] w] P show ?thesis by (auto simp: stage_ok_def)
  next
    case (ToFail e)
    from t have "read_half s i (\<lambda>j. WriteFailed (with_status Failed [e] j)) (\<lambda>_. Ended) w = (stg', w')"
      by (simp add: ToFail task_step_simps)
    from ok this show ?thesis
      by (rule read_half_ok) (auto dest!: f simp: stage_ok_def reported_def status_defs intro!: held_status)
  next
    case (WriteFailed j)
    with stg t have "held (reported ad req) i j" "write_half s j Ended (\<lambda>_. Ended) w = (stg', w')"
      by (simp_all add: defs)
    from write_half_ok [OF ok this] P show ?thesis by (auto simp: stage_ok_def)
  qed (use t P ok in \<open>auto simp: defs fades_def\<close>)
qed

text \<open>
  Every live job was requested, it is finished only with a report for that request, and every
  task works for the request of its job.
\<close>

definition job_ok :: "'w Adapter \<Rightarrow> 'w service \<Rightarrow> string \<Rightarrow> bool" where
  "job_ok ad sv i \<longleftrightarrow>
     (case se_requests sv i of
        None \<Rightarrow> job_at (se_world sv) i = None \<and> se_tasks sv i = None
      | Some req \<Rightarrow> all_job (reported ad req) i (se_world sv) \<and>
          (\<forall>stg. se_tasks sv i = Some stg \<longrightarrow> stage_ok ad req i stg (se_world sv)))"

definition service_ok :: "'w Adapter \<Rightarrow> 'w service \<Rightarrow> bool" where
  "service_ok ad sv \<longleftrightarrow> ok_in (se_world sv) \<and> (\<forall>i. job_ok ad sv i)"

lemma stage_ok_fades: "fades ks w w' \<Longrightarrow> i \<notin> ks \<Longrightarrow> stage_ok ad req i stg w \<Longrightarrow> stage_ok ad req i stg w'"
  using fades_all [of ks w w' i] by (cases stg) (auto simp: stage_ok_def)

text \<open>A step outside a job keeps what holds of it.\<close>

lemma job_ok_fades:
  assumes "job_ok ad sv i" and "fades ks (se_world sv) (se_world sv')" and "i \<notin> ks"
    and "se_requests sv' i = se_requests sv i" and "se_tasks sv' i = se_tasks sv i \<or> se_tasks sv' i = None"
  shows "job_ok ad sv' i"
proof (cases "se_requests sv i")
  case None
  have "job_at (se_world sv') i = None"
  proof (cases "job_at (se_world sv') i")
    case (Some j)
    with assms(1-3) None show ?thesis by (auto simp: fades_def job_ok_def)
  qed
  with None assms show ?thesis by (auto simp: job_ok_def)
next
  case (Some req)
  with assms fades_all [OF assms(2,3)] stage_ok_fades [OF assms(2,3)] show ?thesis
    by (auto simp: job_ok_def)
qed

lemma service_step_ok:
  assumes ad: "adapter_frame ad" and inv: "service_ok ad sv" and e: "service_next s ad e sv = Some sv'"
  shows "service_ok ad sv'"
proof -
  have ok: "ok_in (se_world sv)" and J: "job_ok ad sv i" for i using inv by (simp_all add: service_ok_def)
  show ?thesis
  proof (cases e)
    case (Read i)
    obtain r w' where g: "Get s i (se_world sv) = (r, w')" by fastforce
    with e Read have sv': "sv' = sv\<lparr>se_world := w'\<rparr>" by (auto split: if_splits)
    have f: "fades {} (se_world sv) w'" by (rule get_fades [OF ok g])
    then have "job_ok ad sv' k" for k by (intro job_ok_fades [OF J, of "{}"]) (simp_all add: sv')
    with f show ?thesis by (simp add: service_ok_def sv' fades_def)
  next
    case Restart
    with e have sv': "sv' = sv\<lparr>se_tasks := Map.empty, se_crashed := False\<rparr>" by simp
    have f: "fades {} (se_world sv) (se_world sv)" using ok by (simp add: fades_def)
    then have "job_ok ad sv' k" for k by (intro job_ok_fades [OF J, of "{}"]) (simp_all add: sv')
    with ok show ?thesis by (simp add: service_ok_def sv')
  next
    case (Advance i)
    with e obtain stg req where i: "se_tasks sv i = Some stg" "se_requests sv i = Some req"
      by (auto split: option.splits)
    obtain stg' w' where t: "task_step s ad i req (stg, se_world sv) = (stg', w')" by fastforce
    from i J [of i] have P: "all_job (reported ad req) i (se_world sv)" "stage_ok ad req i stg (se_world sv)"
      by (simp_all add: job_ok_def)
    have sv': "sv' = sv\<lparr>se_world := w', se_tasks := (se_tasks sv)(i \<mapsto> stg'),
        se_crashed := (case stg' of Crashed p \<Rightarrow> True | _ \<Rightarrow> False)\<rparr>"
      using e Advance i t by (auto split: if_splits)
    note n = task_step_ok [OF ad ok P t]
    have "job_ok ad sv' k" for k
    proof (cases "k = i")
      case True
      with n i show ?thesis by (simp add: job_ok_def sv')
    next
      case False
      with n show ?thesis by (intro job_ok_fades [OF J, of "{i}"]) (simp_all add: sv')
    qed
    with n show ?thesis by (simp add: service_ok_def sv' fades_def)
  next
    case (Submit i req)
    obtain r w' where c: "Create s (pending_job i) (se_world sv) = (r, w')" by fastforce
    from e Submit have new: "se_requests sv i = None" "valid_utf8 i" by (auto split: if_splits)
    have sv': "se_world sv' = w'" "se_requests sv' = (se_requests sv)(i \<mapsto> req)"
      "se_tasks sv' = (se_tasks sv)(i \<mapsto> ToRun) \<or> se_tasks sv' = se_tasks sv"
      using e Submit c by (cases r; auto simp: Enqueue_def bind_act_def wrap_act_def ret_def NewStore_def Let_def
          split: if_splits)+
    have id: "job_ID (pending_job i) = i" by (simp add: pending_job_def)
    have nx: "''NX'' \<in> {''NX'', ''XX''}" by simp
    note f = set_fades [OF ok storable_pending _ nx c [unfolded Create_def], unfolded id, OF new(2)]
    have "job_ok ad sv' k" for k
    proof (cases "k = i")
      case True
      from J [of i] new have "job_at (se_world sv) i = None" "se_tasks sv i = None" by (simp_all add: job_ok_def)
      then have "all_job (reported ad req) i w'"
        using f(3) by (auto simp: all_job_def stored_pending [OF new(2)] reported_def pending_job_def status_defs)
      with True sv' \<open>se_tasks sv i = None\<close> show ?thesis by (auto simp: job_ok_def stage_ok_def)
    next
      case False
      with f(1) sv' show ?thesis by (intro job_ok_fades [OF J, of "{i}"]) auto
    qed
    with f(1) sv' show ?thesis by (simp add: service_ok_def fades_def)
  qed
qed

lemma reachable_service_ok:
  assumes "adapter_frame ad" and "ok_in w0" and "\<And>i. job_at w0 i = None"
    and "reachable_service s ad w0 sv"
  shows "service_ok ad sv"
  using assms(4)
proof (induction rule: reachable_service.induct)
  case start
  with assms(2,3) show ?case by (simp add: service_ok_def job_ok_def service0_def)
next
  case (step sv e sv')
  then show ?case using service_step_ok [OF assms(1)] by blast
qed

text \<open>The invariant over the definitions at the top level.\<close>

lemma frame_leaves: "leaves_jobs db clock ad \<Longrightarrow> adapter_frame ad"
  unfolding leaves_jobs_def adapter_frame_def ok_in_def jobs_in_def by metis

lemma reachable_jobs:
  assumes "leaves_jobs db clock ad" and "jobs_ok s db w0" and "\<And>i. job_now s db clock w0 i = None"
    and "reachable_service s ad w0 sv"
  shows "jobs_ok s db (se_world sv)"
    and "job_now s db clock (se_world sv) i = Some j \<Longrightarrow> \<exists>req. se_requests sv i = Some req \<and>
      (job_Status j = Finished \<longrightarrow> (\<exists>rep w1 w2. ad req w1 = (Ok rep, w2) \<and> job_Report j = stored_report rep))"
proof -
  have now: "job_now s db clock w i = job_at w i" for w i
    by (simp add: job_now_def job_at_def jobs_of_def jobs_in_def)
  have inv: "service_ok ad sv"
    by (rule reachable_service_ok [OF frame_leaves [OF assms(1)] _ _ assms(4)])
       (use assms(2,3) in \<open>simp_all add: now ok_in_def jobs_ok_def\<close>)
  then show "jobs_ok s db (se_world sv)" by (simp add: service_ok_def ok_in_def jobs_ok_def)
  assume "job_now s db clock (se_world sv) i = Some j"
  moreover from inv have "job_ok ad sv i" by (simp add: service_ok_def)
  ultimately show "\<exists>req. se_requests sv i = Some req \<and>
      (job_Status j = Finished \<longrightarrow> (\<exists>rep w1 w2. ad req w1 = (Ok rep, w2) \<and> job_Report j = stored_report rep))"
    by (auto simp: now job_ok_def all_job_def reported_def split: option.splits)
qed

end

end
