(* ===== verification/DemoRun.thy ===== *)
theory DemoRun
  imports Interleave
begin

text \<open>
  Runs of the code on the store in memory, on which the properties of tasks and of the service
  are applied: a scan that ends at once, one that fails, and one that takes longer than the
  expiry of its job.
\<close>

definition demo_report :: ScanReport where
  "demo_report =
     \<lparr>rep_GeneratedAt = zero_time, rep_Artifact = zero_Artifact, rep_Scanner = GetScannerMetadata,
      rep_Severity = SevHigh,
      rep_Vulnerabilities = Some
        [\<lparr>vi_ID = ''CVE-1'', vi_Pkg = ''openssl'', vi_Version = ''1'', vi_FixVersion = [], vi_Severity = SevHigh,
          vi_Description = [], vi_Links = Some []\<rparr>]\<rparr>"

definition demo_scan :: "mem Adapter" where
  "demo_scan req w = (Ok demo_report, w)"

definition demo_worker :: "mem worker" where
  "demo_worker = scan_worker hour_store demo_scan ''job-1'' zero_ScanRequest"

definition demo_running :: ScanJob where
  "demo_running = with_status Running [] demo_job"

definition demo_reported :: ScanJob where
  "demo_reported = with_report demo_report demo_running"

definition demo_finished :: ScanJob where
  "demo_finished = with_status Finished [] demo_reported"

definition demo_failed :: ScanJob where
  "demo_failed = with_status Failed [''refused''] demo_running"

lemma demo_report [simp]: "stored_report demo_report = demo_report" "valid_time (rep_GeneratedAt demo_report)"
proof -
  show "stored_report demo_report = demo_report"
    by (rule stored_clean_report)
       (simp add: demo_report_def clean_report_def clean_item_def san_item_def san_Artifact_def zero_Artifact_def
         san_Scanner_def GetScannerMetadata_def stored_severity_def known_severity_def sev_defs)
qed (simp add: demo_report_def)

lemma demo_leaves: "leaves_jobs m_db m_clock demo_scan"
  by (simp add: leaves_jobs_def demo_scan_def)

lemma demo_running [simp]: "storable demo_running" "stored_job demo_running = demo_running"
  "job_ID demo_running = ''job-1''" "job_Status demo_running = Running"
  using storable_with_status [OF demo_job(1) _ _ demo_job(2), of Running "[]"]
  by (auto simp: Running_def demo_running_def)

lemma demo_reported [simp]: "storable demo_reported" "stored_job demo_reported = demo_reported"
  "job_ID demo_reported = ''job-1''" "job_Report demo_reported = demo_report"
  using storable_with_report [OF demo_running(1) _ demo_running(2), of demo_report]
  by (auto simp: demo_reported_def)

lemma demo_finished [simp]: "storable demo_finished" "stored_job demo_finished = demo_finished"
  "job_ID demo_finished = ''job-1''" "job_Status demo_finished = Finished" "job_Report demo_finished = demo_report"
  using storable_with_status [OF demo_reported(1) _ _ demo_reported(2), of Finished "[]"]
  by (auto simp: Finished_def demo_finished_def)

lemma demo_failed [simp]: "storable demo_failed" "stored_job demo_failed = demo_failed" "job_ID demo_failed = ''job-1''"
  using storable_with_status [OF demo_running(1) _ _ demo_running(2), of Failed "[''refused'']"]
  by (auto simp: Failed_def demo_failed_def)

text \<open>The steps of the task, and those of one whose adapter fails or is late.\<close>

lemma demo_updates:
  assumes "t + 1 < d"
  shows "UpdateStatus hour_store ''job-1'' Running [] (one_job demo_job t d) =
      (Ok (), one_job demo_running (t + 2) (t + 3600001))"
    and "UpdateReport hour_store ''job-1'' demo_report (one_job demo_running t d) =
      (Ok (), one_job demo_reported (t + 2) (t + 3600001))"
    and "UpdateStatus hour_store ''job-1'' Finished [] (one_job demo_reported t d) =
      (Ok (), one_job demo_finished (t + 2) (t + 3600001))"
    and "UpdateStatus hour_store ''job-1'' Failed [''refused''] (one_job demo_running t d) =
      (Ok (), one_job demo_failed (t + 2) (t + 3600001))"
  using one_job_UpdateStatus [OF demo_job(1,2) assms, of Running "[]"]
    one_job_UpdateReport [OF demo_running(1,2) assms demo_report(2)]
    one_job_UpdateStatus [OF demo_reported(1,2) assms, of Finished "[]"]
    one_job_UpdateStatus [OF demo_running(1,2) assms, of Failed "[''refused'']"]
  by (simp_all add: status_defs demo_running_def [symmetric, unfolded Running_def] demo_reported_def [symmetric]
      demo_finished_def [symmetric, unfolded Finished_def] demo_failed_def [symmetric, unfolded Failed_def])

lemma demo_late:
  assumes "d \<le> t"
  shows "UpdateReport hour_store ''job-1'' rep (one_job demo_running t d) =
      (Panic NilDereference, one_job demo_running (t + 1) d)"
    and "UpdateStatus hour_store ''job-1'' st es (one_job demo_job t d) =
      (Panic NilDereference, one_job demo_job (t + 1) d)"
  using assms
  by (simp_all add: UpdateReport_def UpdateStatus_def bind_act_def hour_Get live_def panicking_def)
     (simp_all add: one_job_def)

lemma demo_scan_run: "scan demo_worker (one_job demo_job 0 3600000) = (Ok (), one_job demo_finished 6 3600005)"
  by (simp add: scan_def demo_worker_def scan_worker_def NewStore_def bind_act_def demo_updates demo_scan_def ret_def)

lemma demo_task_run: "Task demo_worker (one_job demo_job 0 3600000) = (Ok (), one_job demo_finished 6 3600005)"
  by (simp add: Task_def demo_scan_run)

lemma demo_now [simp]:
  "t < d \<Longrightarrow> job_now hour_store m_db m_clock (one_job demo_job t d) ''job-1'' = Some demo_job"
  "t < d \<Longrightarrow> job_now hour_store m_db m_clock (one_job demo_finished t d) ''job-1'' = Some demo_finished"
  "t < d \<Longrightarrow> job_now hour_store m_db m_clock (one_job demo_failed t d) ''job-1'' = Some demo_failed"
  "jobs_ok hour_store m_db (one_job demo_job t d)" "jobs_ok hour_store m_db (one_job demo_finished t d)"
  using one_job_ok [of demo_job t d] one_job_ok [of demo_finished t d] one_job_ok [of demo_failed t d]
  by simp_all

subsection \<open>The service\<close>

lemma NewStore_sel:
  "Create_of (NewStore s) = Create s" "Get_of (NewStore s) = Get s"
  "UpdateStatus_of (NewStore s) = UpdateStatus s" "UpdateReport_of (NewStore s) = UpdateReport s"
  by (simp_all add: NewStore_def)

text \<open>One scan, whose job a handler reads while the task holds it for its first write.\<close>

definition demo_events :: "service_event list" where
  "demo_events =
     [Submit ''job-1'' zero_ScanRequest, Advance ''job-1'', Read ''job-1'', Advance ''job-1'', Advance ''job-1'',
      Advance ''job-1'', Advance ''job-1'', Advance ''job-1'', Advance ''job-1'']"

definition demo_state :: "mem service" where
  "demo_state =
     \<lparr>se_world = one_job demo_finished 8 3600007, se_tasks = [''job-1'' \<mapsto> Ended],
      se_requests = [''job-1'' \<mapsto> zero_ScanRequest], se_crashed = False\<rparr>"

lemma demo_Get:
  "t < d \<Longrightarrow> Get hour_store ''job-1'' (one_job demo_job t d) = (Ok (Some demo_job), one_job demo_job (t + 1) d)"
  "t < d \<Longrightarrow> Get hour_store ''job-1'' (one_job demo_running t d) = (Ok (Some demo_running), one_job demo_running (t + 1) d)"
  "t < d \<Longrightarrow> Get hour_store ''job-1'' (one_job demo_reported t d) = (Ok (Some demo_reported), one_job demo_reported (t + 1) d)"
  using one_job_Get [of demo_job t d] one_job_Get [of demo_running t d] one_job_Get [of demo_reported t d]
  by simp_all

lemma demo_Get_late:
  "d \<le> t \<Longrightarrow> Get hour_store ''job-1'' (one_job demo_running t d) = (Ok None, one_job demo_running (t + 1) d)"
  by (simp add: hour_Get live_def) (simp add: one_job_def)

lemma demo_update:
  "t < d \<Longrightarrow> update hour_store demo_running (one_job demo_job t d) = (Ok (), one_job demo_running (t + 1) (t + 3600000))"
  "t < d \<Longrightarrow> update hour_store demo_reported (one_job demo_running t d) = (Ok (), one_job demo_reported (t + 1) (t + 3600000))"
  "t < d \<Longrightarrow> update hour_store demo_finished (one_job demo_reported t d) = (Ok (), one_job demo_finished (t + 1) (t + 3600000))"
  by (simp_all add: one_job_update)

lemmas demo_steps = task_step_simps read_half_def write_half_def demo_Get demo_Get_late demo_update final_def
  demo_running_def [symmetric] demo_reported_def [symmetric] demo_finished_def [symmetric]

lemma demo_submit:
  "Enqueue (\<lambda>w. (''job-1'', w)) \<lparr>en_store = NewStore hour_store, en_run = (\<lambda>wk. ret ()), en_adapter = ad\<rparr>
     zero_ScanRequest (mem_world []) = (Ok ''job-1'', one_job demo_job 1 3600000)"
  using mem_create by (simp add: Enqueue_def NewStore_def demo_job_def bind_act_def wrap_act_def ret_def)

lemma demo_service:
  "service_run hour_store demo_scan demo_events (service0 (mem_world [])) = Some demo_state"
  by (simp add: demo_events_def service0_def demo_submit demo_steps demo_scan_def demo_state_def fun_upd_idem)

lemma demo_reachable: "reachable_service hour_store demo_scan (mem_world []) demo_state"
  by (rule service_run_reachable [OF reachable_service.start demo_service])

lemma demo_start: "jobs_ok hour_store m_db (mem_world [])" "job_now hour_store m_db m_clock (mem_world []) i = None"
  by (simp add: jobs_ok_def) (simp add: job_now_def jobs_of_def entry_of_def mem_world_def live_def)

text \<open>An adapter that fails, and one that takes the whole hour for which the job is kept.\<close>

definition refused_scan :: "mem Adapter" where
  "refused_scan req w = (Err ''refused'', w)"

definition slow_scan :: "mem Adapter" where
  "slow_scan req w = (Ok demo_report, w\<lparr>m_clock := m_clock w + 3600000\<rparr>)"

lemma demo_refused_scan:
  "scan (scan_worker hour_store refused_scan ''job-1'' zero_ScanRequest) (one_job demo_job 0 3600000) =
     (Err ''refused'', one_job demo_running 2 3600001)"
  by (simp add: scan_def scan_worker_def NewStore_def bind_act_def demo_updates refused_scan_def)

lemma demo_refused_update:
  "UpdateStatus hour_store ''job-1'' Failed [''refused''] (one_job demo_running 2 3600001) =
     (Ok (), one_job demo_failed 4 3600003)"
  by (simp add: demo_updates)

lemma refused_leaves: "leaves_jobs m_db m_clock refused_scan"
  by (simp add: leaves_jobs_def refused_scan_def)

lemma one_job_clock: "(one_job j t d)\<lparr>m_clock := t'\<rparr> = one_job j t' d"
  by (simp add: one_job_def)

lemma slow_leaves: "leaves_jobs m_db m_clock slow_scan"
  by (simp add: leaves_jobs_def slow_scan_def)

text \<open>The scan begins at 2 and ends at 3600002, when its job has been gone for a millisecond.\<close>

lemma slow_scan_run: "slow_scan req (one_job demo_running 2 d) = (Ok demo_report, one_job demo_running 3600002 d)"
  by (simp add: slow_scan_def one_job_clock)

lemma slow_task:
  "Task (scan_worker hour_store slow_scan ''job-1'' zero_ScanRequest) (one_job demo_job 0 3600000) =
     (Panic NilDereference, one_job demo_running 3600003 3600001)"
  by (simp add: Task_def scan_def scan_worker_def NewStore_sel bind_act_def demo_updates slow_scan_run demo_late)

end
