(* ===== verification/WorkPool.thy ===== *)
theory WorkPool
  imports GoPrelude
begin

text \<open>
  \<open>pkg/work/work.go\<close>: the pool of goroutines as a transition system. Both channels are
  unbuffered, so a task passes from a caller blocked in \<open>Run\<close> to a dispatcher blocked in its
  \<open>select\<close> in one step, which starts the task's own goroutine. The state counts the
  dispatchers (one per call of \<open>Start\<close> that has not seen \<open>stop\<close>) and holds the tasks by
  stage. \<open>pool_event\<close> is the executable form, \<open>pool_step\<close> the relation.
\<close>

record 'a pool =
  stop_closed :: bool
  dispatchers :: nat
  blocked :: "'a multiset"    \<comment> \<open>tasks whose \<open>Run\<close> has not returned\<close>
  running :: "'a multiset"
  finished :: "'a multiset"
  crashed :: bool             \<comment> \<open>a goroutine panicked, so the process ended\<close>

definition New :: "'a pool" where
  "New = \<lparr>stop_closed = False, dispatchers = 0, blocked = {#}, running = {#}, finished = {#}, crashed = False\<rparr>"

datatype 'a event =
    CallStart
  | CallRun 'a
  | Handoff 'a       \<comment> \<open>the first case of the \<open>select\<close>: \<open>Run\<close> returns, the task starts\<close>
  | SeeStop          \<comment> \<open>the second case: a dispatcher returns\<close>
  | TaskDone 'a
  | CallShutdown

fun pool_event :: "'a event \<Rightarrow> 'a pool \<Rightarrow> 'a pool option" where
  "pool_event CallStart p =
     (if crashed p then None else Some (p\<lparr>dispatchers := dispatchers p + 1\<rparr>))"
| "pool_event (CallRun w) p =
     (if crashed p then None else Some (p\<lparr>blocked := add_mset w (blocked p)\<rparr>))"
| "pool_event (Handoff w) p =
     (if \<not> crashed p \<and> 0 < dispatchers p \<and> w \<in># blocked p
      then Some (p\<lparr>blocked := blocked p - {#w#}, running := add_mset w (running p)\<rparr>) else None)"
| "pool_event SeeStop p =
     (if \<not> crashed p \<and> 0 < dispatchers p \<and> stop_closed p
      then Some (p\<lparr>dispatchers := dispatchers p - 1\<rparr>) else None)"
| "pool_event (TaskDone w) p =
     (if \<not> crashed p \<and> w \<in># running p
      then Some (p\<lparr>running := running p - {#w#}, finished := add_mset w (finished p)\<rparr>) else None)"
| "pool_event CallShutdown p =
     (if crashed p then None
      else if stop_closed p then Some (p\<lparr>crashed := True\<rparr>)
      else Some (p\<lparr>stop_closed := True\<rparr>))"

inductive pool_step :: "'a pool \<Rightarrow> 'a event \<Rightarrow> 'a pool \<Rightarrow> bool" where
  start: "\<not> crashed p \<Longrightarrow> pool_step p CallStart (p\<lparr>dispatchers := dispatchers p + 1\<rparr>)"
| run: "\<not> crashed p \<Longrightarrow> pool_step p (CallRun w) (p\<lparr>blocked := add_mset w (blocked p)\<rparr>)"
| handoff: "\<not> crashed p \<Longrightarrow> 0 < dispatchers p \<Longrightarrow> w \<in># blocked p \<Longrightarrow>
    pool_step p (Handoff w) (p\<lparr>blocked := blocked p - {#w#}, running := add_mset w (running p)\<rparr>)"
| see_stop: "\<not> crashed p \<Longrightarrow> 0 < dispatchers p \<Longrightarrow> stop_closed p \<Longrightarrow>
    pool_step p SeeStop (p\<lparr>dispatchers := dispatchers p - 1\<rparr>)"
| task_done: "\<not> crashed p \<Longrightarrow> w \<in># running p \<Longrightarrow>
    pool_step p (TaskDone w) (p\<lparr>running := running p - {#w#}, finished := add_mset w (finished p)\<rparr>)"
| shutdown: "\<not> crashed p \<Longrightarrow> \<not> stop_closed p \<Longrightarrow> pool_step p CallShutdown (p\<lparr>stop_closed := True\<rparr>)"
| shutdown_again: "\<not> crashed p \<Longrightarrow> stop_closed p \<Longrightarrow> pool_step p CallShutdown (p\<lparr>crashed := True\<rparr>)"

inductive_cases pool_stepE: "pool_step p e p'"

inductive_simps pool_step_simps:
  "pool_step p CallStart p'" "pool_step p (CallRun w) p'" "pool_step p (Handoff w) p'"
  "pool_step p SeeStop p'" "pool_step p (TaskDone w) p'" "pool_step p CallShutdown p'"

lemma pool_step_event: "pool_step p e p' \<longleftrightarrow> pool_event e p = Some p'"
  by (cases e) (auto simp: pool_step_simps)

text \<open>A run of the pool, and the tasks submitted by its events.\<close>

fun pool_run :: "'a event list \<Rightarrow> 'a pool \<Rightarrow> 'a pool option" where
  "pool_run [] p = Some p"
| "pool_run (e # es) p = (case pool_event e p of None \<Rightarrow> None | Some p' \<Rightarrow> pool_run es p')"

fun submitted :: "'a event list \<Rightarrow> 'a multiset" where
  "submitted [] = {#}"
| "submitted (CallRun w # es) = add_mset w (submitted es)"
| "submitted (e # es) = submitted es"

definition tasks :: "'a pool \<Rightarrow> 'a multiset" where
  "tasks p = blocked p + running p + finished p"

lemma pool_run_append:
  "pool_run (es @ fs) p = (case pool_run es p of None \<Rightarrow> None | Some p' \<Rightarrow> pool_run fs p')"
  by (induction es arbitrary: p) (auto split: option.split)

lemma pool_event_tasks:
  "pool_event e p = Some p' \<Longrightarrow> tasks p' = tasks p + submitted [e]"
  by (cases e) (auto simp: tasks_def split: if_splits)

lemma submitted_Cons: "submitted (e # es) = submitted [e] + submitted es"
  by (cases e) auto

lemma pool_run_tasks: "pool_run es p = Some p' \<Longrightarrow> tasks p' = tasks p + submitted es"
proof (induction es arbitrary: p)
  case (Cons e es)
  from Cons.prems obtain p1 where "pool_event e p = Some p1" "pool_run es p1 = Some p'"
    by (auto split: option.splits)
  with Cons.IH pool_event_tasks show ?case by (simp add: submitted_Cons [of e es])
qed simp

subsection \<open>Stopping\<close>

text \<open>
  Once every dispatcher has seen \<open>stop\<close> and none is started again, a blocked \<open>Run\<close> stays
  blocked for ever, and no task starts.
\<close>

definition no_start :: "'a event list \<Rightarrow> bool" where
  "no_start es \<longleftrightarrow> CallStart \<notin> set es"

lemma stuck_event:
  assumes "pool_event e p = Some p'" and "dispatchers p = 0" and "e \<noteq> CallStart"
  shows "dispatchers p' = 0 \<and> blocked p \<subseteq># blocked p' \<and> running p' \<subseteq># running p"
  using assms by (cases e) (auto split: if_splits)

lemma stuck_run:
  assumes "pool_run es p = Some p'" and "dispatchers p = 0" and "no_start es"
  shows "dispatchers p' = 0 \<and> blocked p \<subseteq># blocked p' \<and> running p' \<subseteq># running p"
  using assms
proof (induction es arbitrary: p)
  case (Cons e es)
  from Cons.prems obtain p1 where p1: "pool_event e p = Some p1" "pool_run es p1 = Some p'"
    by (auto split: option.splits)
  from Cons.prems(3) have "e \<noteq> CallStart" "no_start es" by (auto simp: no_start_def)
  with p1 Cons.prems(2) Cons.IH [of p1] stuck_event [of e p p1] show ?case
    by (meson subset_mset.order_trans)
qed simp

subsection \<open>Progress\<close>

text \<open>The events that complete a list of tasks: hand each over, then finish each.\<close>

definition drain_events :: "'a list \<Rightarrow> 'a list \<Rightarrow> 'a event list" where
  "drain_events bs rs = map Handoff bs @ map TaskDone (rs @ bs)"

lemma handoff_all:
  assumes "0 < dispatchers p" and "\<not> crashed p" and "mset bs \<subseteq># blocked p"
  shows "pool_run (map Handoff bs) p =
    Some (p\<lparr>blocked := blocked p - mset bs, running := running p + mset bs\<rparr>)"
  using assms
proof (induction bs arbitrary: p)
  case (Cons b bs)
  let ?p = "p\<lparr>blocked := blocked p - {#b#}, running := add_mset b (running p)\<rparr>"
  have b: "b \<in># blocked p" using Cons.prems(3) by (simp add: insert_subset_eq_iff)
  have "mset bs \<subseteq># blocked ?p" using Cons.prems(3) by (simp add: insert_subset_eq_iff)
  with Cons.IH [of ?p] Cons.prems(1,2) b show ?case by simp
qed simp

lemma finish_all:
  assumes "\<not> crashed p" and "mset rs \<subseteq># running p"
  shows "pool_run (map TaskDone rs) p =
    Some (p\<lparr>running := running p - mset rs, finished := finished p + mset rs\<rparr>)"
  using assms
proof (induction rs arbitrary: p)
  case (Cons b bs)
  let ?p = "p\<lparr>running := running p - {#b#}, finished := add_mset b (finished p)\<rparr>"
  have b: "b \<in># running p" using Cons.prems(2) by (simp add: insert_subset_eq_iff)
  have "mset bs \<subseteq># running ?p" using Cons.prems(2) by (simp add: insert_subset_eq_iff)
  with Cons.IH [of ?p] Cons.prems(1) b show ?case by simp
qed simp

lemma drain:
  assumes "0 < dispatchers p" and "\<not> crashed p" and "mset bs = blocked p" and "mset rs = running p"
  shows "pool_run (drain_events bs rs) p =
    Some (p\<lparr>blocked := {#}, running := {#}, finished := tasks p\<rparr>)"
proof -
  let ?q = "p\<lparr>blocked := {#}, running := running p + blocked p\<rparr>"
  have "pool_run (map Handoff bs) p = Some ?q"
    using handoff_all [of p bs] assms by simp
  moreover have "pool_run (map TaskDone (rs @ bs)) ?q =
      Some (p\<lparr>blocked := {#}, running := {#}, finished := tasks p\<rparr>)"
    using finish_all [of ?q "rs @ bs"] assms by (simp add: tasks_def ac_simps)
  ultimately show ?thesis by (simp add: drain_events_def pool_run_append)
qed

subsection \<open>Properties\<close>

text \<open>
  C26. No task is lost and none runs twice: in every run of a new pool, the tasks that were
  submitted are, with their multiplicity, those blocked in \<open>Run\<close>, those running and those done.
\<close>

theorem tasks_conserved:
  assumes "pool_run es New = Some p"
  shows "blocked p + running p + finished p = submitted es"
  using pool_run_tasks [OF assms] by (simp add: tasks_def New_def)

lemma tasks_conserved_witness:
  "\<exists>p. pool_run [CallStart, CallRun (1::nat), Handoff 1, CallRun 2, TaskDone 1] New = Some p \<and>
     blocked p + running p + finished p = {#1, 2#}"
  using tasks_conserved [of "[CallStart, CallRun (1::nat), Handoff 1, CallRun 2, TaskDone 1]"]
  by (simp add: New_def)

text \<open>
  C27. A pool with a dispatcher can always complete: from every state that did not crash, some
  run of its own steps, and no new call, hands over every blocked task and finishes every
  running one.
\<close>

theorem pool_can_drain:
  assumes "0 < dispatchers p" and "\<not> crashed p"
  shows "\<exists>es. submitted es = {#} \<and> no_start es \<and>
    pool_run es p = Some (p\<lparr>blocked := {#}, running := {#}, finished := tasks p\<rparr>)"
proof -
  obtain bs rs where b: "mset bs = blocked p" and r: "mset rs = running p" using ex_mset by metis
  have "submitted (map Handoff bs @ es) = submitted es" for es :: "'a event list" by (induction bs) auto
  moreover have "submitted (map TaskDone xs) = {#}" for xs :: "'a list" by (induction xs) auto
  ultimately have "submitted (drain_events bs rs) = {#}" unfolding drain_events_def by metis
  moreover have "no_start (drain_events bs rs)" by (auto simp: no_start_def drain_events_def)
  ultimately show ?thesis using drain [OF assms b r] by blast
qed

lemma pool_can_drain_witness:
  "\<exists>es. submitted es = {#} \<and> pool_run es (New\<lparr>dispatchers := 1, blocked := {#1::nat#}, running := {#2, 3#}\<rparr>) =
     Some (New\<lparr>dispatchers := 1, finished := {#2, 3, 1#}\<rparr>)"
  using pool_can_drain [of "New\<lparr>dispatchers := 1, blocked := {#1::nat#}, running := {#2, 3#}\<rparr>"]
  by (auto simp: tasks_def New_def)

text \<open>
  After \<open>Shutdown\<close> was seen by every dispatcher, and unless \<open>Start\<close> is called again,
  a caller blocked in \<open>Run\<close> stays blocked for ever and no task starts any more.
\<close>

theorem run_blocks_after_stop:
  assumes "pool_run es p = Some p'" and "dispatchers p = 0" and "no_start es"
  shows "dispatchers p' = 0 \<and> blocked p \<subseteq># blocked p' \<and> running p' \<subseteq># running p"
  by (rule stuck_run [OF assms])

lemma run_blocks_after_stop_witness:
  "\<exists>p. pool_run [CallStart, CallShutdown, SeeStop, CallRun (7::nat)] New = Some p \<and> 7 \<in># blocked p \<and>
     (\<forall>p'. pool_run [CallRun 8] p = Some p' \<longrightarrow> 7 \<in># blocked p')"
proof -
  let ?p = "New\<lparr>stop_closed := True, blocked := {#7::nat#}\<rparr>"
  have "pool_run [CallStart, CallShutdown, SeeStop, CallRun (7::nat)] New = Some ?p"
    by (simp add: New_def)
  moreover have "7 \<in># blocked p'" if "pool_run [CallRun 8] ?p = Some p'" for p'
    using run_blocks_after_stop [OF that] by (simp add: New_def no_start_def)
  ultimately show ?thesis by simp
qed

text \<open>
  The executable pool and its transition relation agree, the pool crashes only by a second
  \<open>Shutdown\<close>, which closes a closed channel, and after a crash nothing happens.
\<close>

theorem crash_iff_second_shutdown:
  assumes "pool_step p e p'"
  shows "pool_event e p = Some p' \<and> \<not> crashed p \<and> (crashed p' \<longleftrightarrow> e = CallShutdown \<and> stop_closed p)"
  using assms by (auto elim!: pool_stepE)

lemma crash_iff_second_shutdown_witness:
  "crashed (New\<lparr>stop_closed := True, crashed := True\<rparr>)"
  using crash_iff_second_shutdown [OF pool_step.shutdown_again [of "New\<lparr>stop_closed := True\<rparr>"]]
  by (simp add: New_def)

end
