(* ===== verification/RedisPool.thy ===== *)
theory RedisPool
  imports Etc
begin

text \<open>
  \<open>pkg/redisx/pool.go\<close>: the connection pool for a Redis server or a Sentinel deployment.
  Parsing a URL is the library's (its grammar changes with the Go release): a parsed URL is
  its parts. A pool is its settings and what its two functions, \<open>Dial\<close> and \<open>TestOnBorrow\<close>,
  close over; running them takes the client library as an argument.
\<close>

record url =
  u_Scheme :: string
  u_User :: "(string \<times> string option) option"    \<comment> \<open>user name, and the password if set\<close>
  u_Host :: string
  u_Path :: string

record SentinelURL =
  su_Password :: string
  su_Addrs :: "string list"
  su_MonitorName :: string
  su_Database :: int

definition zero_SentinelURL :: SentinelURL where
  "zero_SentinelURL = \<lparr>su_Password = [], su_Addrs = [], su_MonitorName = [], su_Database = 0\<rparr>"

definition ParseSentinelURL :: "url \<Rightarrow> SentinelURL res" where
  "ParseSentinelURL configURL =
     (let ps = split_on (CHR ''/'') (u_Path configURL) in
      if length ps < 2 then Err ''invalid redis sentinel URL: no master name''
      else
        let password = (case u_User configURL of Some (user, Some p) \<Rightarrow> p | _ \<Rightarrow> []);
            su = \<lparr>su_Password = password, su_Addrs = split_on (CHR '','') (u_Host configURL),
                  su_MonitorName = ps ! 1, su_Database = 0\<rparr>
        in if length ps > 2 then
             (case atoi (ps ! 2) of
                Inl _ \<Rightarrow> Err (''invalid redis sentinel URL: invalid database number: '' @ ps ! 2)
              | Inr d \<Rightarrow> Ok (su\<lparr>su_Database := d\<rparr>))
           else Ok su)"

datatype dial_option =
    DialConnectTimeout duration
  | DialReadTimeout duration
  | DialWriteTimeout duration
  | DialDatabase int
  | DialPassword string

record sentinel =
  sn_Addrs :: "string list"
  sn_MasterName :: string
  sn_dialOpts :: "dial_option list"

datatype dialer =
    DialInstance string                        \<comment> \<open>the URL\<close>
  | DialMaster sentinel "dial_option list"     \<comment> \<open>ask the sentinels, dial with the options\<close>

record redis_pool =
  po_Dial :: dialer
  po_MaxIdle :: int
  po_MaxActive :: int
  po_IdleTimeout :: duration
  po_Wait :: bool

definition newInstancePool :: "RedisPoolConfig \<Rightarrow> redis_pool" where
  "newInstancePool config =
     \<lparr>po_Dial = DialInstance (rp_URL config), po_MaxIdle = rp_MaxIdle config,
      po_MaxActive = rp_MaxActive config, po_IdleTimeout = rp_IdleTimeout config, po_Wait = True\<rparr>"

definition common_options :: "RedisPoolConfig \<Rightarrow> dial_option list" where
  "common_options config =
     (if rp_ConnectionTimeout config > 0 then [DialConnectTimeout (rp_ConnectionTimeout config)] else [])
     @ (if rp_ReadTimeout config > 0 then [DialReadTimeout (rp_ReadTimeout config)] else [])
     @ (if rp_WriteTimeout config > 0 then [DialWriteTimeout (rp_WriteTimeout config)] else [])"

definition newSentinelPool :: "url \<Rightarrow> RedisPoolConfig \<Rightarrow> redis_pool res" where
  "newSentinelPool configURL config =
     (case ParseSentinelURL configURL of
        Err e \<Rightarrow> Err e
      | Panic p \<Rightarrow> Panic p
      | Ok su \<Rightarrow>
          let commonOpts = common_options config;
              sntnl = \<lparr>sn_Addrs = su_Addrs su, sn_MasterName = su_MonitorName su, sn_dialOpts = commonOpts\<rparr>;
              redisOpts = commonOpts @ [DialDatabase (su_Database su), DialPassword (su_Password su)]
          in Ok \<lparr>po_Dial = DialMaster sntnl redisOpts, po_MaxIdle = rp_MaxIdle config,
                po_MaxActive = rp_MaxActive config, po_IdleTimeout = rp_IdleTimeout config, po_Wait = True\<rparr>)"

definition NewPool :: "(string \<Rightarrow> string + url) \<Rightarrow> RedisPoolConfig \<Rightarrow> redis_pool res" where
  "NewPool url_Parse config =
     (case url_Parse (rp_URL config) of
        Inl e \<Rightarrow> Err (''invalid redis URL: '' @ e)
      | Inr configURL \<Rightarrow>
          if u_Scheme configURL = ''redis'' then Ok (newInstancePool config)
          else if u_Scheme configURL = ''redis+sentinel'' then newSentinelPool configURL config
          else Err (''invalid redis URL scheme: '' @ u_Scheme configURL))"

subsection \<open>The functions of a pool\<close>

record ('w, 'c) dial_lib =
  dl_DialURL :: "string \<Rightarrow> ('w, 'c) lib_call"
  dl_Dial :: "string \<Rightarrow> string \<Rightarrow> dial_option list \<Rightarrow> ('w, 'c) lib_call"
  dl_MasterAddr :: "sentinel \<Rightarrow> ('w, string) lib_call"
  dl_Ping :: "'c \<Rightarrow> ('w, unit) lib_call"
  dl_TestRole :: "'c \<Rightarrow> string \<Rightarrow> 'w \<Rightarrow> bool \<times> 'w"
  dl_Since :: "int \<Rightarrow> 'w \<Rightarrow> duration"

definition Dial :: "('w, 'c) dial_lib \<Rightarrow> redis_pool \<Rightarrow> ('w, 'c) act" where
  "Dial lib p =
     (case po_Dial p of
        DialInstance url \<Rightarrow> lib_act (dl_DialURL lib url)
      | DialMaster sntnl redisOpts \<Rightarrow>
          bind_act (lib_act (dl_MasterAddr lib sntnl)) (\<lambda>masterAddr.
            lib_act (dl_Dial lib ''tcp'' masterAddr redisOpts)))"

definition Minute :: duration where "Minute = 60000000000"

definition TestOnBorrow :: "('w, 'c) dial_lib \<Rightarrow> redis_pool \<Rightarrow> 'c \<Rightarrow> int \<Rightarrow> ('w, unit) act" where
  "TestOnBorrow lib p c t w =
     (if dl_Since lib t w < Minute then (Ok (), w)
      else (case po_Dial p of
              DialInstance url \<Rightarrow> lib_act (dl_Ping lib c) w
            | DialMaster sntnl redisOpts \<Rightarrow>
                (case dl_TestRole lib c ''master'' w of
                   (True, w') \<Rightarrow> (Ok (), w')
                 | (False, w') \<Rightarrow> (Err ''role check failed'', w'))))"

subsection \<open>Lemmas\<close>

text \<open>The parts of a Sentinel URL are read back as they were written.\<close>

definition sentinel_url :: "string option \<Rightarrow> string list \<Rightarrow> string \<Rightarrow> int option \<Rightarrow> url" where
  "sentinel_url password addrs master database =
     \<lparr>u_Scheme = ''redis+sentinel'', u_User = map_option (\<lambda>p. ([], Some p)) password,
      u_Host = join '','' addrs,
      u_Path = ''/'' @ master @ (case database of None \<Rightarrow> [] | Some d \<Rightarrow> ''/'' @ itoa d)\<rparr>"

lemma itoa_no_slash: "CHR ''/'' \<notin> set (itoa d)"
  by (auto simp: itoa_def dest: dec_nat_digits)

lemma split_two: "c \<notin> set a \<Longrightarrow> c \<notin> set b \<Longrightarrow> split_on c (a @ c # b) = [a, b]"
  by (simp add: split_on_append split_on_clean)

lemma ParseSentinelURL_sentinel_url:
  assumes "addrs \<noteq> []" and "\<forall>a \<in> set addrs. CHR '','' \<notin> set a" and "CHR ''/'' \<notin> set master"
    and "\<forall>d. database = Some d \<longrightarrow> - (2 ^ 63) \<le> d \<and> d < 2 ^ 63"
  shows "ParseSentinelURL (sentinel_url password addrs master database) =
    Ok \<lparr>su_Password = (case password of None \<Rightarrow> [] | Some p \<Rightarrow> p), su_Addrs = addrs,
        su_MonitorName = master, su_Database = (case database of None \<Rightarrow> 0 | Some d \<Rightarrow> d)\<rparr>"
proof (cases database)
  case None
  then have "split_on (CHR ''/'') (u_Path (sentinel_url password addrs master database)) = [[], master]"
    using assms(3) split_two [of "CHR ''/''" "[]" master] by (simp add: sentinel_url_def)
  with None assms(1,2) show ?thesis
    by (simp add: ParseSentinelURL_def Let_def) (simp add: sentinel_url_def split_join split: option.split)
next
  case (Some d)
  have "split_on (CHR ''/'') (master @ CHR ''/'' # itoa d) = [master, itoa d]"
    by (rule split_two [OF assms(3) itoa_no_slash])
  then have "split_on (CHR ''/'') (u_Path (sentinel_url password addrs master database)) = [[], master, itoa d]"
    using split_on_append [of "CHR ''/''" "[]" "master @ CHR ''/'' # itoa d"]
    by (simp add: sentinel_url_def Some)
  with Some assms(1,2,4) show ?thesis
    by (simp add: ParseSentinelURL_def Let_def atoi_itoa)
       (simp add: sentinel_url_def split_join split: option.split)
qed

lemma NewPool_Ok_cases:
  assumes "NewPool url_Parse config = Ok p"
  obtains (single) u where "url_Parse (rp_URL config) = Inr u" and "u_Scheme u = ''redis''"
      and "p = newInstancePool config"
    | (sentinel) u where "url_Parse (rp_URL config) = Inr u" and "u_Scheme u = ''redis+sentinel''"
      and "newSentinelPool u config = Ok p"
  using assms by (auto simp: NewPool_def split: sum.splits if_splits)

lemma NewPool_not_Panic: "NewPool url_Parse config \<noteq> Panic x"
  by (auto simp: NewPool_def newSentinelPool_def ParseSentinelURL_def Let_def
      split: sum.splits res.splits if_splits)

subsection \<open>Properties\<close>

text \<open>
  C33. The parts of a Sentinel URL come back as they were written: the password, the list of
  sentinels, the name of the master, and the database, which is 0 when the URL has none.
\<close>

theorem sentinel_url_roundtrip:
  assumes "addrs \<noteq> []" and "\<forall>a \<in> set addrs. CHR '','' \<notin> set a" and "CHR ''/'' \<notin> set master"
    and "\<forall>d. database = Some d \<longrightarrow> - (2 ^ 63) \<le> d \<and> d < 2 ^ 63"
  shows "ParseSentinelURL (sentinel_url password addrs master database) =
    Ok \<lparr>su_Password = (case password of None \<Rightarrow> [] | Some p \<Rightarrow> p), su_Addrs = addrs,
        su_MonitorName = master, su_Database = (case database of None \<Rightarrow> 0 | Some d \<Rightarrow> d)\<rparr>"
  by (rule ParseSentinelURL_sentinel_url [OF assms])

lemma sentinel_url_roundtrip_witness:
  "ParseSentinelURL (sentinel_url (Some ''secret'') [''s1:26379'', ''s2:26379''] ''mymaster'' (Some 5)) =
    Ok \<lparr>su_Password = ''secret'', su_Addrs = [''s1:26379'', ''s2:26379''], su_MonitorName = ''mymaster'', su_Database = 5\<rparr>"
  using sentinel_url_roundtrip [of "[''s1:26379'', ''s2:26379'']" "''mymaster''" "Some 5" "Some ''secret''"] by simp

text \<open>
  When a pool is built. The URL must parse and have one of the two schemes, and for the
  Sentinel one the path must have a segment for the master and, if a second segment follows, it
  must be an integer; the name of the master itself may be empty. No other check is made, and
  the call always returns.
\<close>

theorem NewPool_built_iff:
  "((\<exists>p. NewPool url_Parse config = Ok p) \<longleftrightarrow>
     (\<exists>u. url_Parse (rp_URL config) = Inr u \<and>
        (u_Scheme u = ''redis'' \<or>
         u_Scheme u = ''redis+sentinel'' \<and>
         (let ps = split_on (CHR ''/'') (u_Path u) in
            2 \<le> length ps \<and> (length ps > 2 \<longrightarrow> (\<exists>d. atoi (ps ! 2) = Inr d)))))) \<and>
   \<not> is_Panic (NewPool url_Parse config)"
proof
  show "\<not> is_Panic (NewPool url_Parse config)"
    using NewPool_not_Panic by (simp add: is_Panic_iff)
  have sent: "(\<exists>p. newSentinelPool u config = Ok p) \<longleftrightarrow>
      (let ps = split_on (CHR ''/'') (u_Path u) in
         2 \<le> length ps \<and> (length ps > 2 \<longrightarrow> (\<exists>d. atoi (ps ! 2) = Inr d)))" for u
    by (cases "atoi (split_on (CHR ''/'') (u_Path u) ! 2)")
       (auto simp: newSentinelPool_def ParseSentinelURL_def Let_def)
  show "(\<exists>p. NewPool url_Parse config = Ok p) \<longleftrightarrow>
     (\<exists>u. url_Parse (rp_URL config) = Inr u \<and>
        (u_Scheme u = ''redis'' \<or>
         u_Scheme u = ''redis+sentinel'' \<and>
         (let ps = split_on (CHR ''/'') (u_Path u) in
            2 \<le> length ps \<and> (length ps > 2 \<longrightarrow> (\<exists>d. atoi (ps ! 2) = Inr d)))))"
    unfolding sent [symmetric]
    by (cases "url_Parse (rp_URL config)") (auto simp: NewPool_def)
qed

lemma NewPool_built_iff_witness:
  "\<exists>p. NewPool (\<lambda>s. Inr \<lparr>u_Scheme = ''redis+sentinel'', u_User = None, u_Host = ''s1:26379'', u_Path = ''/''\<rparr>)
     (cfg_RedisPool demo_config) = Ok p"
  using NewPool_built_iff [of "\<lambda>s. Inr \<lparr>u_Scheme = ''redis+sentinel'', u_User = None, u_Host = ''s1:26379'', u_Path = ''/''\<rparr>"
      "cfg_RedisPool demo_config"]
  by simp

text \<open>
  C34. The connect, read and write timeouts reach the connections of a Sentinel pool only. The
  pool of a single server is the same for all their values: it dials with the URL alone. A
  Sentinel pool dials its sentinels and its master with each timeout that is positive.
\<close>

theorem timeouts_only_with_sentinel:
  assumes "NewPool url_Parse config = Ok p"
    and "NewPool url_Parse (config\<lparr>rp_ConnectionTimeout := ct, rp_ReadTimeout := rt, rp_WriteTimeout := wt\<rparr>) = Ok p'"
  shows "(case po_Dial p of
      DialInstance u \<Rightarrow> u = rp_URL config \<and> p' = p
    | DialMaster sn opts \<Rightarrow>
        opts = sn_dialOpts sn @ [DialDatabase (last [d. DialDatabase d \<leftarrow> opts]), DialPassword (last [w. DialPassword w \<leftarrow> opts])] \<and>
        set (sn_dialOpts sn) =
          {DialConnectTimeout t |t. t = rp_ConnectionTimeout config \<and> t > 0} \<union>
          {DialReadTimeout t |t. t = rp_ReadTimeout config \<and> t > 0} \<union>
          {DialWriteTimeout t |t. t = rp_WriteTimeout config \<and> t > 0})"
  using assms(1)
proof (cases rule: NewPool_Ok_cases)
  case (single u)
  with assms(2) show ?thesis by (auto simp: NewPool_def newInstancePool_def)
next
  case (sentinel u)
  then show ?thesis
    by (auto simp: newSentinelPool_def Let_def common_options_def split: res.splits)
qed

lemma timeouts_only_with_sentinel_witness:
  "newInstancePool ((cfg_RedisPool demo_config)\<lparr>rp_ConnectionTimeout := 1, rp_ReadTimeout := 2, rp_WriteTimeout := 3\<rparr>) =
     newInstancePool (cfg_RedisPool demo_config)"
  using timeouts_only_with_sentinel [of "\<lambda>s. Inr \<lparr>u_Scheme = ''redis'', u_User = None, u_Host = ''h'', u_Path = []\<rparr>"
      "cfg_RedisPool demo_config" "newInstancePool (cfg_RedisPool demo_config)" 1 2 3
      "newInstancePool ((cfg_RedisPool demo_config)\<lparr>rp_ConnectionTimeout := 1, rp_ReadTimeout := 2, rp_WriteTimeout := 3\<rparr>)"]
  by (simp add: NewPool_def newInstancePool_def)

end
