(* ===== verification/Server.thy ===== *)
theory Server
  imports Etc
begin

text \<open>
  \<open>pkg/http/api/server.go\<close>: the HTTP server around the handler. Serving is the library's: an
  argument that takes the server as it was configured and comes back with the error that
  ended it.
\<close>

definition CurveP256 :: nat where "CurveP256 = 23"

definition X25519 :: nat where "X25519 = 29"

definition VersionTLS12 :: nat where "VersionTLS12 = 0x0303"

record tls_settings =
  ts_CurvePreferences :: "nat list"
  ts_MinVersion :: nat
  ts_CipherSuites :: "nat list"

text \<open>The suites by their numbers, in the order of the code.\<close>

definition hardened_tls :: tls_settings where
  "hardened_tls =
     \<lparr>ts_CurvePreferences = [CurveP256, X25519], ts_MinVersion = VersionTLS12,
      ts_CipherSuites = [0xc02c, 0xcca9, 0xc030, 0xcca8, 0xc02b, 0xc02f]\<rparr>"

record http_server =
  hs_Addr :: string
  hs_ReadTimeout :: duration
  hs_WriteTimeout :: duration
  hs_IdleTimeout :: duration
  hs_TLSConfig :: "tls_settings option"

record Server =
  sv_config :: APIConfig
  sv_server :: http_server

definition NewServer :: "APIConfig \<Rightarrow> Server" where
  "NewServer config =
     \<lparr>sv_config = config,
      sv_server = \<lparr>hs_Addr = api_Addr config, hs_ReadTimeout = api_ReadTimeout config,
                   hs_WriteTimeout = api_WriteTimeout config, hs_IdleTimeout = api_IdleTimeout config,
                   hs_TLSConfig = None\<rparr>\<rparr>"

datatype serve_error = ErrServerClosed | ServeError string

text \<open>How the library is asked to serve.\<close>

datatype serve_call =
    ListenAndServeTLS http_server string string
  | ListenAndServePlain http_server

definition listenAndServe :: "Server \<Rightarrow> Server \<times> serve_call" where
  "listenAndServe s =
     (if IsTLSEnabled (sv_config s) then
        (s, ListenAndServeTLS (sv_server s) (api_TLSCertificate (sv_config s)) (api_TLSKey (sv_config s)))
      else
        let s = s\<lparr>sv_server := (sv_server s)\<lparr>hs_TLSConfig := Some hardened_tls\<rparr>\<rparr>
        in (s, ListenAndServePlain (sv_server s)))"

text \<open>The goroutine of \<open>ListenAndServe\<close>: any end but a shutdown ends the process.\<close>

definition ListenAndServe :: "(serve_call \<Rightarrow> serve_error) \<Rightarrow> Server \<Rightarrow> unit res" where
  "ListenAndServe serve s =
     (case serve (snd (listenAndServe s)) of
        ErrServerClosed \<Rightarrow> Ok ()
      | ServeError e \<Rightarrow> Panic (FatalExit (''Error: '' @ e)))"

text \<open>\<open>Shutdown\<close>: the library waits for the requests in progress, and its error is only logged.\<close>

definition Shutdown :: "('w, unit) lib_call \<Rightarrow> ('w, unit) act" where
  "Shutdown http_Shutdown w =
     (case http_Shutdown w of
        (Inl e, w') \<Rightarrow> (Ok (), w')
      | (Inr _, w') \<Rightarrow> (Ok (), w'))"

lemma listenAndServe_tls_config:
  "snd (listenAndServe (NewServer c)) = ListenAndServeTLS h cert key \<Longrightarrow> hs_TLSConfig h = None"
  by (auto simp: listenAndServe_def NewServer_def Let_def split: if_splits)

lemma listenAndServe_plain_iff:
  "(\<exists>h. snd (listenAndServe s) = ListenAndServePlain h) \<longleftrightarrow> \<not> IsTLSEnabled (sv_config s)"
  by (auto simp: listenAndServe_def Let_def)

subsection \<open>Properties\<close>

text \<open>
  The hardened TLS settings (curves, minimum version, cipher suites) never protect a
  connection: the server is asked to serve TLS exactly when a certificate and a key are
  configured, and then with no TLS settings of the program; the settings are made only on the
  way to plain HTTP.
\<close>

theorem tls_settings_unused:
  "(case snd (listenAndServe (NewServer c)) of
      ListenAndServeTLS h cert key \<Rightarrow>
        IsTLSEnabled c \<and> cert = api_TLSCertificate c \<and> key = api_TLSKey c \<and> hs_TLSConfig h = None
    | ListenAndServePlain h \<Rightarrow> \<not> IsTLSEnabled c \<and> hs_TLSConfig h = Some hardened_tls)"
  by (simp add: listenAndServe_def NewServer_def Let_def)

end
