(* ===== verification/System.thy ===== *)
theory System
  imports ApiHandler WorkPool RedisPool Server
begin

text \<open>
  \<open>cmd/harbor-scanner-clair/main.go\<close>: how the parts are put together, and the life of the
  process from its start to the end of its shutdown. The libraries the parts take as
  arguments are the record \<open>program\<close>; the world has the variables of the registry package.
\<close>

type_synonym 'v world = "'v \<times> registry_globals"

record ('v, 'c, 'r) program =
  pg_env :: etc_env
  pg_url_Parse :: "string \<Rightarrow> string + url"
  pg_redis :: "redis_pool \<Rightarrow> ('v world, 'c, 'r) redis_lib"
  pg_errors :: json_errors
  pg_db_open :: "string \<Rightarrow> string + 'v world sql_db"
  pg_registry :: "'v world registry_lib"
  pg_clair :: "'v world clair_lib"
  pg_quote :: "string \<Rightarrow> string"
  pg_now :: "'v world \<Rightarrow> go_time \<times> 'v world"
  pg_order :: "severity list \<Rightarrow> severity list"
  pg_uuid :: "'v world \<Rightarrow> string \<times> 'v world"
  pg_run :: "'v world worker \<Rightarrow> ('v world, unit) act"

record ('v, 'c, 'r) app =
  app_config :: Config
  app_pool :: redis_pool
  app_store :: "('v world, 'c, 'r) store"
  app_adapter :: "'v world adapter"
  app_handler :: "'v world requestHandler"
  app_server :: Server

text \<open>
  The first half of \<open>run\<close>. The error of the Clair client is built from the client, which is
  nil then, and not from the error.
\<close>

definition build :: "('v, 'c, 'r) program \<Rightarrow> ('v, 'c, 'r) app res" where
  "build pg =
     (case GetConfig (pg_env pg) of
        (config, Some e) \<Rightarrow> Err (''getting config: '' @ e)
      | (config, None) \<Rightarrow>
         (case NewPool (pg_url_Parse pg) (cfg_RedisPool config) of
            Err e \<Rightarrow> Err (''constructing connection pool: '' @ e)
          | Panic p \<Rightarrow> Panic p
          | Ok rpool \<Rightarrow>
             (let st = \<lparr>pool = pg_redis pg rpool, cfg = cfg_RedisStore config, errors = pg_errors pg\<rparr>;
                  factory = NewClientFactory (pg_registry pg) (cfg_TLS config)
              in case clair_NewClient (pg_db_open pg) (cfg_TLS config) (cfg_Clair config) of
                   Err e \<Rightarrow> Err (''constructing clair client: '' @ ''<nil>'')
                 | Panic p \<Rightarrow> Panic p
                 | Ok c \<Rightarrow>
                     let client = clair_iface (pg_clair pg) (pg_quote pg) c;
                         ad = NewAdapter factory client (NewTransformer (pg_now pg) (pg_order pg));
                         en = NewEnqueuer (pg_run pg) (Scan ad) (NewStore st)
                     in Ok \<lparr>app_config = config, app_pool = rpool, app_store = st, app_adapter = ad,
                           app_handler = NewAPIHandler client (Enqueue (pg_uuid pg) en) (NewStore st),
                           app_server = NewServer (cfg_API config)\<rparr>)))"

text \<open>\<open>main\<close>: an error of \<open>run\<close> ends the process.\<close>

definition main_result :: "('v, 'c, 'r) program \<Rightarrow> ('v, 'c, 'r) app res" where
  "main_result pg =
     (case build pg of Err e \<Rightarrow> Panic (FatalExit (''Error: '' @ e)) | r \<Rightarrow> r)"

subsection \<open>The life of the process\<close>

text \<open>
  The second half of \<open>run\<close>: the goroutine that waits for a signal shuts down the API server,
  the work pool and the Redis pool, one after the other, and lets \<open>run\<close> return.
  \<open>http.Server.Shutdown\<close> waits for the requests in progress, so none is blocked in the pool's
  \<open>Run\<close> when it returns, and none comes after.
\<close>

datatype phase = Serving | ApiDown | PoolDown | RedisDown | ShutdownComplete

record 'a life =
  lf_phase :: phase
  lf_started :: bool     \<comment> \<open>\<open>workPool.Start()\<close> was called\<close>
  lf_pool :: "'a pool"
  lf_returned :: bool

definition life0 :: "'a life" where
  "life0 = \<lparr>lf_phase = Serving, lf_started = False, lf_pool = New, lf_returned = False\<rparr>"

datatype 'a life_event =
    LStart
  | LRequest 'a
  | LPool "'a event"
  | LApiShutdown
  | LPoolShutdown
  | LRedisClose
  | LComplete
  | LReturn

text \<open>The events of the pool that its own goroutines make.\<close>

fun internal :: "'a event \<Rightarrow> bool" where
  "internal (Handoff w) = True"
| "internal SeeStop = True"
| "internal (TaskDone w) = True"
| "internal _ = False"

fun life_next :: "'a life_event \<Rightarrow> 'a life \<Rightarrow> 'a life option" where
  "life_next LStart s =
     (if lf_returned s \<or> lf_started s then None
      else map_option (\<lambda>p. s\<lparr>lf_pool := p, lf_started := True\<rparr>) (pool_event CallStart (lf_pool s)))"
| "life_next (LRequest w) s =
     (if lf_returned s \<or> lf_phase s \<noteq> Serving then None
      else map_option (\<lambda>p. s\<lparr>lf_pool := p\<rparr>) (pool_event (CallRun w) (lf_pool s)))"
| "life_next (LPool e) s =
     (if lf_returned s \<or> \<not> internal e then None
      else map_option (\<lambda>p. s\<lparr>lf_pool := p\<rparr>) (pool_event e (lf_pool s)))"
| "life_next LApiShutdown s =
     (if lf_phase s = Serving \<and> blocked (lf_pool s) = {#} then Some (s\<lparr>lf_phase := ApiDown\<rparr>) else None)"
| "life_next LPoolShutdown s =
     (if lf_phase s = ApiDown
      then map_option (\<lambda>p. s\<lparr>lf_pool := p, lf_phase := PoolDown\<rparr>) (pool_event CallShutdown (lf_pool s))
      else None)"
| "life_next LRedisClose s = (if lf_phase s = PoolDown then Some (s\<lparr>lf_phase := RedisDown\<rparr>) else None)"
| "life_next LComplete s =
     (if lf_phase s = RedisDown then Some (s\<lparr>lf_phase := ShutdownComplete\<rparr>) else None)"
| "life_next LReturn s =
     (if lf_phase s = ShutdownComplete \<and> lf_started s \<and> \<not> lf_returned s
      then Some (s\<lparr>lf_returned := True\<rparr>) else None)"

fun life_run :: "'a life_event list \<Rightarrow> 'a life \<Rightarrow> 'a life option" where
  "life_run [] s = Some s"
| "life_run (e # es) s = (case life_next e s of None \<Rightarrow> None | Some s' \<Rightarrow> life_run es s')"

inductive reachable_life :: "'a life \<Rightarrow> bool" where
  start: "reachable_life life0"
| step: "reachable_life s \<Longrightarrow> life_next e s = Some s' \<Longrightarrow> reachable_life s'"

lemma life_run_reachable: "reachable_life s \<Longrightarrow> life_run es s = Some s' \<Longrightarrow> reachable_life s'"
  by (induction es arbitrary: s) (auto split: option.splits intro: reachable_life.step)

text \<open>
  \<open>Shutdown\<close> of the work pool is called once, so it never closes a closed channel; and once
  the API is down no task waits for a dispatcher.
\<close>

definition life_inv :: "'a life \<Rightarrow> bool" where
  "life_inv s \<longleftrightarrow>
     \<not> crashed (lf_pool s) \<and>
     (stop_closed (lf_pool s) \<longleftrightarrow> lf_phase s \<notin> {Serving, ApiDown}) \<and>
     (lf_phase s \<noteq> Serving \<longrightarrow> blocked (lf_pool s) = {#}) \<and>
     (lf_returned s \<longrightarrow> lf_phase s = ShutdownComplete)"

lemma life_inv_step: "life_inv s \<Longrightarrow> life_next e s = Some s' \<Longrightarrow> life_inv s'"
proof (cases e)
  case (LPool pe)
  assume "life_inv s" and "life_next e s = Some s'"
  with LPool show ?thesis
    by (cases pe) (auto simp: life_inv_def split: if_splits)
qed (auto simp: life_inv_def split: if_splits)

lemma reachable_life_inv: "reachable_life s \<Longrightarrow> life_inv s"
proof (induction rule: reachable_life.induct)
  case start
  then show ?case by (simp add: life_inv_def life0_def New_def)
next
  case (step s e s')
  then show ?case using life_inv_step [of s e s'] by simp
qed

text \<open>
  The ways in which the process ends without a shutdown: \<open>log.Fatalf\<close> when listening fails for
  another reason than the shutdown of the server, \<open>log.Fatal\<close> in a handler (a row of Clair's
  database that cannot be read), and a panic in the goroutine of a task, which nothing recovers
  from. Each ends all goroutines at once, and nothing happens after it.
\<close>

datatype 'a process = Alive "'a life" | Exited panic

datatype 'a process_event =
    Life "'a life_event"
  | ListenFails string
  | HandlerFatal string
  | TaskPanics 'a panic

fun process_next :: "'a process_event \<Rightarrow> 'a process \<Rightarrow> 'a process option" where
  "process_next (Life e) (Alive s) = map_option Alive (life_next e s)"
| "process_next (ListenFails e) (Alive s) =
     (if lf_started s \<and> lf_phase s = Serving \<and> \<not> lf_returned s then Some (Exited (FatalExit (''Error: '' @ e))) else None)"
| "process_next (HandlerFatal e) (Alive s) =
     (if lf_phase s = Serving \<and> \<not> lf_returned s then Some (Exited (FatalExit e)) else None)"
| "process_next (TaskPanics w p) (Alive s) =
     (if w \<in># running (lf_pool s) \<and> \<not> lf_returned s then Some (Exited p) else None)"
| "process_next e (Exited p) = None"

fun process_run :: "'a process_event list \<Rightarrow> 'a process \<Rightarrow> 'a process option" where
  "process_run [] q = Some q"
| "process_run (e # es) q = (case process_next e q of None \<Rightarrow> None | Some q' \<Rightarrow> process_run es q')"

text \<open>While it is alive, the process is in a state that \<open>life_next\<close> reaches: what holds there holds here.\<close>

lemma process_alive:
  "process_run es (Alive s) = Some (Alive s') \<Longrightarrow> reachable_life s \<Longrightarrow> reachable_life s'"
proof (induction es arbitrary: s)
  case (Cons e es)
  then obtain q where q: "process_next e (Alive s) = Some q" "process_run es q = Some (Alive s')"
    by (auto split: option.splits)
  have dead: "process_run es (Exited p) \<noteq> Some (Alive s')" for p by (cases es) simp_all
  with q obtain s1 le where "q = Alive s1" "life_next le s = Some s1"
    by (cases e) (auto split: if_splits)
  with q(2) Cons.IH Cons.prems(2) show ?case by (blast intro: reachable_life.step)
qed simp

subsection \<open>The parts of a built program\<close>

lemma build_Ok:
  assumes "build pg = Ok a"
  obtains c where "GetConfig (pg_env pg) = (app_config a, None)"
    and "NewPool (pg_url_Parse pg) (cfg_RedisPool (app_config a)) = Ok (app_pool a)"
    and "clair_NewClient (pg_db_open pg) (cfg_TLS (app_config a)) (cfg_Clair (app_config a)) = Ok c"
    and "app_store a = \<lparr>pool = pg_redis pg (app_pool a), cfg = cfg_RedisStore (app_config a), errors = pg_errors pg\<rparr>"
    and "app_adapter a = NewAdapter (NewClientFactory (pg_registry pg) (cfg_TLS (app_config a)))
           (clair_iface (pg_clair pg) (pg_quote pg) c) (NewTransformer (pg_now pg) (pg_order pg))"
    and "h_store (app_handler a) = NewStore (app_store a)"
    and "h_enqueue (app_handler a) = Enqueue (pg_uuid pg)
           (NewEnqueuer (pg_run pg) (Scan (app_adapter a)) (NewStore (app_store a)))"
proof -
  obtain config e where g: "GetConfig (pg_env pg) = (config, e)" by fastforce
  with assms have e: "e = None" by (cases e) (simp_all add: build_def)
  note b = assms [unfolded build_def g e, simplified]
  show thesis
  proof (cases "NewPool (pg_url_Parse pg) (cfg_RedisPool config)")
    case (Ok rpool)
    show thesis
    proof (cases "clair_NewClient (pg_db_open pg) (cfg_TLS config) (cfg_Clair config)")
      case c: (Ok c)
      show thesis
        by (rule that [of c]) (use b g e Ok c in \<open>auto simp: Let_def NewAPIHandler_def\<close>)
    qed (use b Ok in \<open>simp_all add: Let_def\<close>)
  qed (use b in simp_all)
qed

text \<open>The scans of the program keep what its libraries keep.\<close>

lemma keeps_factory:
  assumes "\<And>v v' g g'. v = v' \<Longrightarrow> R (v, g) (v', g')"
  shows "keeps R (NewClientFactory lib tls)"
  using assms by (auto simp: keeps_def NewClientFactory_def split: prod.split option.split)

lemma app_Scan_keeps:
  assumes a: "build pg = Ok a" and R: "preorder_rel R"
    and globals: "\<And>v g g'. R (v, g) (v, g')"
    and http: "http_keeps R (rl_http (pg_registry pg))" "http_keeps R (cl_http (pg_clair pg))"
    and clk: "\<And>w. R w (snd (pg_now pg w))"
  shows "keeps R (Scan (app_adapter a) req)"
proof -
  obtain c where ad: "app_adapter a = NewAdapter (NewClientFactory (pg_registry pg) (cfg_TLS (app_config a)))
           (clair_iface (pg_clair pg) (pg_quote pg) c) (NewTransformer (pg_now pg) (pg_order pg))"
    by (rule build_Ok [OF a])
  have fac: "NewClientFactory (pg_registry pg) (cfg_TLS (app_config a)) w = (Ok cl, w') \<Longrightarrow> keeps R (cl sr)"
    for cl w w' sr
    using keeps_GetManifest [OF R http(1)] keeps_act(4) [OF R]
    by (auto simp: NewClientFactory_def split: prod.splits option.splits)
  show ?thesis
    unfolding ad
    by (rule keeps_Scan [OF R])
       (use fac keeps_factory [of R] globals keeps_ScanLayer [OF R http(2)] keeps_GetLayer [OF R http(2)]
         keeps_ToHarborScanReport [of R, OF clk] in
         \<open>auto simp: NewAdapter_def clair_iface_def NewTransformer_def\<close>)
qed

text \<open>
  The libraries of the program leave the jobs in Redis alone, the time goes on, and the clock
  shows times that print. Then the scans of the program leave the jobs alone too.
\<close>

definition jobs_alone ::
  "('v world \<Rightarrow> string expiring) \<Rightarrow> ('v world \<Rightarrow> int) \<Rightarrow> 'v world \<Rightarrow> 'v world \<Rightarrow> bool" where
  "jobs_alone db clock w w' \<longleftrightarrow> db w' = db w \<and> clock w \<le> clock w'"

definition program_world ::
  "('v world \<Rightarrow> string expiring) \<Rightarrow> ('v world \<Rightarrow> int) \<Rightarrow> ('v, 'c, 'r) program \<Rightarrow> bool" where
  "program_world db clock pg \<longleftrightarrow>
     (\<forall>v g g'. db (v, g') = db (v, g) \<and> clock (v, g') = clock (v, g)) \<and>
     http_keeps (jobs_alone db clock) (rl_http (pg_registry pg)) \<and>
     http_keeps (jobs_alone db clock) (cl_http (pg_clair pg)) \<and>
     (\<forall>w. jobs_alone db clock w (snd (pg_now pg w)) \<and> valid_time (fst (pg_now pg w))) \<and>
     (\<forall>ks. set (pg_order pg ks) = set ks)"

lemma app_leaves_jobs:
  assumes a: "build pg = Ok a" and w: "program_world db clock pg"
  shows "leaves_jobs db clock (Scan (app_adapter a))"
proof -
  let ?R = "jobs_alone db clock"
  have R: "preorder_rel ?R" by (auto simp: preorder_rel_def jobs_alone_def)
  have g: "?R (v, g) (v, g')" for v g g' using w unfolding program_world_def jobs_alone_def by (metis order_refl)
  have k: "keeps ?R (Scan (app_adapter a) req)" for req
    by (rule app_Scan_keeps [OF a R g]) (use w in \<open>unfold program_world_def, blast+\<close>)
  obtain fac cl where ad: "app_adapter a = NewAdapter fac cl (NewTransformer (pg_now pg) (pg_order pg))"
    by (rule build_Ok [OF a])
  have t: "valid_time (rep_GeneratedAt rep)" if s: "Scan (app_adapter a) req v = (Ok rep, v')" for req v rep v'
  proof -
    obtain v1 where "rep_GeneratedAt rep = fst (pg_now pg v1)"
      using Scan_time [OF s, of "pg_now pg" "pg_order pg"] by (auto simp: ad NewAdapter_def)
    with w show ?thesis unfolding program_world_def by metis
  qed
  have "?R v v'" if "Scan (app_adapter a) req v = (r, v')" for req v r v'
    by (rule keepsD [OF k that])
  with t show ?thesis unfolding leaves_jobs_def jobs_alone_def by blast
qed

lemma app_Scan_named:
  assumes a: "build pg = Ok a" and w: "program_world db clock pg"
    and s: "Scan (app_adapter a) req v = (Ok rep, v')"
  shows "stored_report rep = san_report rep"
proof -
  obtain fac cl where ad: "app_adapter a = NewAdapter fac cl (NewTransformer (pg_now pg) (pg_order pg))"
    by (rule build_Ok [OF a])
  show ?thesis
    by (rule Scan_named [OF s, of "pg_now pg" "pg_order pg"])
       (use w in \<open>simp_all add: ad NewAdapter_def program_world_def\<close>)
qed

subsection \<open>Properties\<close>

text \<open>
  C28. The order of the shutdown is safe: in every state the process can reach, the channel
  \<open>stop\<close> is closed at most once and only after the API server has stopped, no request is left
  waiting for the work pool from then on, and \<open>run\<close> has returned only after everything was
  shut down.
\<close>

theorem shutdown_order_safe:
  assumes "reachable_life s"
  shows "\<not> crashed (lf_pool s) \<and>
    (stop_closed (lf_pool s) \<longleftrightarrow> lf_phase s \<in> {PoolDown, RedisDown, ShutdownComplete}) \<and>
    (lf_phase s \<noteq> Serving \<longrightarrow> blocked (lf_pool s) = {#}) \<and>
    (lf_returned s \<longrightarrow> lf_phase s = ShutdownComplete)"
  using reachable_life_inv [OF assms] by (cases "lf_phase s") (auto simp: life_inv_def)

definition early_return :: "nat life_event list" where
  "early_return =
     [LStart, LRequest 1, LPool (Handoff 1), LApiShutdown, LPoolShutdown, LRedisClose, LComplete, LReturn]"

lemma shutdown_order_safe_witness:
  "\<exists>s. life_run early_return life0 = Some s \<and> \<not> crashed (lf_pool s) \<and> blocked (lf_pool s) = {#}"
proof -
  obtain s where s: "life_run early_return life0 = Some s"
    by (simp add: early_return_def life0_def New_def)
  then have "reachable_life s" by (rule life_run_reachable [OF reachable_life.start])
  from shutdown_order_safe [OF this] s show ?thesis
    by (cases "lf_phase s") (auto simp: early_return_def life0_def New_def)
qed

text \<open>
  The process can always end: requests that wait for the pool are handed over first, since
  the pool has a dispatcher from its start until \<open>stop\<close> is closed.
\<close>

lemma reachable_dispatcher:
  "reachable_life s \<Longrightarrow> lf_started s \<longrightarrow> \<not> stop_closed (lf_pool s) \<longrightarrow> 0 < dispatchers (lf_pool s)"
proof (induction rule: reachable_life.induct)
  case start
  then show ?case by (simp add: life0_def)
next
  case (step s e s')
  then show ?case
  proof (cases e)
    case (LPool pe)
    with step show ?thesis by (cases pe) (auto split: if_splits)
  qed (auto split: if_splits)
qed

lemma life_run_append:
  "life_run (es @ fs) s = (case life_run es s of None \<Rightarrow> None | Some s' \<Rightarrow> life_run fs s')"
  by (induction es arbitrary: s) (auto split: option.split)

lemma life_run_handoffs:
  "\<not> lf_returned s \<Longrightarrow> pool_run (map Handoff ws) (lf_pool s) = Some p \<Longrightarrow>
     life_run (map (\<lambda>w. LPool (Handoff w)) ws) s = Some (s\<lparr>lf_pool := p\<rparr>)"
proof (induction ws arbitrary: s)
  case (Cons w ws)
  from Cons.prems(2) obtain p1 where p1: "pool_event (Handoff w) (lf_pool s) = Some p1"
    "pool_run (map Handoff ws) p1 = Some p" by (auto split: option.splits)
  have "life_run (map (\<lambda>w. LPool (Handoff w)) ws) (s\<lparr>lf_pool := p1\<rparr>) = Some (s\<lparr>lf_pool := p1\<rparr>\<lparr>lf_pool := p\<rparr>)"
    by (rule Cons.IH) (use Cons.prems(1) p1(2) in simp_all)
  with Cons.prems(1) p1(1) show ?case by simp
qed simp

definition shutdown_from :: "phase \<Rightarrow> 'a life_event list" where
  "shutdown_from ph =
     (case ph of
        Serving \<Rightarrow> [LApiShutdown, LPoolShutdown, LRedisClose, LComplete, LReturn]
      | ApiDown \<Rightarrow> [LPoolShutdown, LRedisClose, LComplete, LReturn]
      | PoolDown \<Rightarrow> [LRedisClose, LComplete, LReturn]
      | RedisDown \<Rightarrow> [LComplete, LReturn]
      | ShutdownComplete \<Rightarrow> [LReturn])"

text \<open>
  The shortest end: start the pool if that has not been done, hand over the requests that wait, and
  shut down. No task is waited for.
\<close>

lemma shutdown_run:
  assumes "reachable_life s" and "\<not> lf_returned s"
  obtains es s' where "life_run es s = Some s'" and "lf_returned s'" and "\<And>w. LRequest w \<notin> set es"
    and "running (lf_pool s') = running (lf_pool s) + blocked (lf_pool s)"
    and "finished (lf_pool s') = finished (lf_pool s)"
proof -
  note inv = reachable_life_inv [OF assms(1)]
  obtain s1 es1 where s1: "life_run es1 s = Some s1" "lf_started s1" "\<not> lf_returned s1" "\<forall>w. LRequest w \<notin> set es1"
    and same: "running (lf_pool s1) = running (lf_pool s)" "blocked (lf_pool s1) = blocked (lf_pool s)"
      "finished (lf_pool s1) = finished (lf_pool s)"
  proof (cases "lf_started s")
    case True
    then show thesis by (intro that [of "[]" s]) (use assms(2) in simp_all)
  next
    case False
    then show thesis
      using that [of "[LStart]"] assms(2) inv by (simp add: life_inv_def)
  qed
  have r1: "reachable_life s1" by (rule life_run_reachable [OF assms(1) s1(1)])
  note inv1 = reachable_life_inv [OF r1]
  obtain bs where bs: "mset bs = blocked (lf_pool s1)" using ex_mset by metis
  let ?p = "(lf_pool s1)\<lparr>blocked := {#}, running := running (lf_pool s1) + blocked (lf_pool s1)\<rparr>"
  have "pool_run (map Handoff bs) (lf_pool s1) = Some ?p"
  proof (cases "bs = []")
    case True
    with bs show ?thesis by simp
  next
    case False
    with bs inv1 have "lf_phase s1 = Serving" by (auto simp: life_inv_def)
    with inv1 reachable_dispatcher [OF r1] s1(2) have "0 < dispatchers (lf_pool s1)" "\<not> crashed (lf_pool s1)"
      by (simp_all add: life_inv_def)
    with handoff_all [of "lf_pool s1" bs] bs show ?thesis by simp
  qed
  from life_run_handoffs [OF s1(3) this]
  have s2: "life_run (map (\<lambda>w. LPool (Handoff w)) bs) s1 = Some (s1\<lparr>lf_pool := ?p\<rparr>)" .
  have "\<exists>s'. life_run (shutdown_from (lf_phase s1)) (s1\<lparr>lf_pool := ?p\<rparr>) = Some s' \<and> lf_returned s' \<and>
      running (lf_pool s') = running ?p \<and> finished (lf_pool s') = finished ?p"
    using inv1 s1(2,3) by (cases "lf_phase s1") (simp_all add: shutdown_from_def life_inv_def)
  then obtain s' where s': "life_run (es1 @ map (\<lambda>w. LPool (Handoff w)) bs @ shutdown_from (lf_phase s1)) s = Some s'"
    "lf_returned s'" "running (lf_pool s') = running ?p" "finished (lf_pool s') = finished ?p"
    using s1(1) s2 by (auto simp: life_run_append)
  have "LRequest w \<notin> set (es1 @ map (\<lambda>w. LPool (Handoff w)) bs @ shutdown_from (lf_phase s1))" for w
    using s1(4) by (auto simp: shutdown_from_def split: phase.splits)
  with s'(3,4) show thesis by (intro that [OF s'(1,2)]) (simp_all add: same)
qed



text \<open>
  C30. Nothing waits for the scans that run, although the comment on \<open>Shutdown\<close> says that it waits
  for all the goroutines. From every state before \<open>run\<close> has returned, the process can take no new
  request and come to its end with every task that runs now, or waits for the pool now, still
  running and none of them finished: what such a scan would have stored is lost, and its job
  stays as it is until it expires.
\<close>

theorem returns_with_running_task:
  assumes "reachable_life s" and "\<not> lf_returned s"
  shows "\<exists>es s'. life_run es s = Some s' \<and> lf_returned s' \<and> (\<forall>w. LRequest w \<notin> set es) \<and>
    running (lf_pool s') = running (lf_pool s) + blocked (lf_pool s) \<and> finished (lf_pool s') = finished (lf_pool s)"
  by (rule shutdown_run [OF assms]) blast

lemma returns_with_running_task_witness:
  "\<exists>s es s'. life_run [LStart, LRequest (1::nat), LPool (Handoff 1), LRequest 2] life0 = Some s \<and>
     life_run es s = Some s' \<and> lf_returned s' \<and> running (lf_pool s') = {#1, 2#} \<and> finished (lf_pool s') = {#}"
proof -
  obtain s where s: "life_run [LStart, LRequest (1::nat), LPool (Handoff 1), LRequest 2] life0 = Some s" "\<not> lf_returned s"
    "running (lf_pool s) = {#1#}" "blocked (lf_pool s) = {#2#}" "finished (lf_pool s) = {#}"
    by (simp add: life0_def New_def)
  have "reachable_life s" by (rule life_run_reachable [OF reachable_life.start s(1)])
  from returns_with_running_task [OF this s(2)] s show ?thesis by fastforce
qed

text \<open>
  C31. The program starts exactly when its configuration is read, its Redis pool is built, and
  the database of Clair, if configured, opens; every other outcome ends the process. When the
  database does not open, the message printed is always \<open><nil>\<close> in place of the cause, because
  the code prints the client instead of the error.
\<close>

theorem start_or_fatal:
  "(case main_result pg of
      Ok a \<Rightarrow> (\<exists>cfg p c. GetConfig (pg_env pg) = (cfg, None) \<and> NewPool (pg_url_Parse pg) (cfg_RedisPool cfg) = Ok p \<and>
                 clair_NewClient (pg_db_open pg) (cfg_TLS cfg) (cfg_Clair cfg) = Ok c)
    | Err e \<Rightarrow> False
    | Panic q \<Rightarrow>
        (\<exists>cfg e. GetConfig (pg_env pg) = (cfg, Some e) \<and> q = FatalExit (''Error: getting config: '' @ e)) \<or>
        (\<exists>cfg e. GetConfig (pg_env pg) = (cfg, None) \<and> NewPool (pg_url_Parse pg) (cfg_RedisPool cfg) = Err e \<and>
           q = FatalExit (''Error: constructing connection pool: '' @ e)) \<or>
        (\<exists>cfg p e. GetConfig (pg_env pg) = (cfg, None) \<and> NewPool (pg_url_Parse pg) (cfg_RedisPool cfg) = Ok p \<and>
           clair_DatabaseURL (cfg_Clair cfg) \<noteq> [] \<and> pg_db_open pg (clair_DatabaseURL (cfg_Clair cfg)) = Inl e \<and>
           q = FatalExit ''Error: constructing clair client: <nil>''))"
proof -
  obtain cfg e where g: "GetConfig (pg_env pg) = (cfg, e)" by fastforce
  have cl: "(\<exists>e. clair_NewClient (pg_db_open pg) (cfg_TLS cfg) (cfg_Clair cfg) = Err e) \<longleftrightarrow>
      clair_DatabaseURL (cfg_Clair cfg) \<noteq> [] \<and> (\<exists>e. pg_db_open pg (clair_DatabaseURL (cfg_Clair cfg)) = Inl e)"
    "clair_NewClient (pg_db_open pg) (cfg_TLS cfg) (cfg_Clair cfg) \<noteq> Panic p" for p
    by (auto simp: clair_NewClient_def Let_def split: sum.splits)
  show ?thesis
  proof (cases e)
    case (Some x)
    with g show ?thesis by (simp add: main_result_def build_def)
  next
    case None
    show ?thesis
    proof (cases "NewPool (pg_url_Parse pg) (cfg_RedisPool cfg)")
      case (Ok p)
      show ?thesis
        by (cases "clair_NewClient (pg_db_open pg) (cfg_TLS cfg) (cfg_Clair cfg)")
           (use g None Ok cl in \<open>auto simp: main_result_def build_def Let_def\<close>)
    qed (use g None NewPool_not_Panic in \<open>simp_all add: main_result_def build_def\<close>)
  qed
qed

end
