(* ===== verification/ProgramRun.thy ===== *)
theory ProgramRun
  imports DemoRun System
begin

text \<open>
  A run of the whole program: built from a configuration, on the Redis server in memory, with a
  registry that has one image and a Clair that answers with one vulnerability in the JSON of its
  API. The world is the server and the variables of the registry package, so the client library
  of the server is lifted to it.
\<close>

subsection \<open>A library on a part of the world\<close>

definition on_fst :: "('v \<Rightarrow> 'a \<times> 'v) \<Rightarrow> 'v \<times> 'g \<Rightarrow> 'a \<times> 'v \<times> 'g" where
  "on_fst m w = (fst (m (fst w)), snd (m (fst w)), snd w)"

definition lift_lib :: "('v, 'c, 'r) redis_lib \<Rightarrow> ('v \<times> 'g, 'c, 'r) redis_lib" where
  "lift_lib lib =
     \<lparr>ra_Get = on_fst (ra_Get lib), ra_Close = (\<lambda>c. on_fst (ra_Close lib c)),
      ra_Do = (\<lambda>c cmd args. on_fst (ra_Do lib c cmd args)), ra_String = ra_String lib\<rparr>"

definition lift_store :: "('v, 'c, 'r) store \<Rightarrow> ('v \<times> 'g, 'c, 'r) store" where
  "lift_store s = \<lparr>pool = lift_lib (pool s), cfg = cfg s, errors = errors s\<rparr>"

lemma lift_sel [simp]:
  "pool (lift_store s) = lift_lib (pool s)" "cfg (lift_store s) = cfg s" "errors (lift_store s) = errors s"
  "ra_Get (lift_lib lib) = on_fst (ra_Get lib)" "ra_Close (lift_lib lib) c = on_fst (ra_Close lib c)"
  "ra_Do (lift_lib lib) c cmd args = on_fst (ra_Do lib c cmd args)" "ra_String (lift_lib lib) = ra_String lib"
  by (simp_all add: lift_store_def lift_lib_def)

lemma lift_key [simp]: "getKeyForScanJob (lift_store s) i = getKeyForScanJob s i"
  by (simp add: getKeyForScanJob_def)

lemma set_job_lift: "set_job (lift_store s) mode what j = on_fst (set_job s mode what j)"
  by (auto simp: fun_eq_iff set_job_def with_conn_def on_fst_def bind_act_def wrap_act_def lib_act_def lift_res_def
      ret_def split: prod.split res.split)

lemma Get_lift: "Get (lift_store s) i = on_fst (Get s i)"
  by (simp add: fun_eq_iff Get_def with_conn_def on_fst_def split: prod.split string_reply.split)

lemma lifted:
  "Create (lift_store s) j = on_fst (Create s j)"
  "UpdateStatus (lift_store s) i st es = on_fst (UpdateStatus s i st es)"
  "UpdateReport (lift_store s) i rep = on_fst (UpdateReport s i rep)"
  "update (lift_store s) j = on_fst (update s j)"
  by (auto simp: fun_eq_iff Create_def UpdateStatus_def UpdateReport_def update_def set_job_lift Get_lift
      on_fst_def bind_act_def panicking_def Let_def split: prod.split res.split option.split)

lemma on_fst_iff: "on_fst m w = (r, w') \<longleftrightarrow> m (fst w) = (r, fst w') \<and> snd w' = snd w"
  by (cases "m (fst w)"; cases w') (auto simp: on_fst_def)

lemma redis_server_lift:
  assumes "redis_server lib db clock"
  shows "redis_server (lift_lib lib) (db \<circ> fst) (clock \<circ> fst)"
proof (unfold_locales, goal_cases)
  case (1 w c w1)
  then show ?case using redis_server.get_conn [OF assms, of "fst w" c "fst w1"] by (simp add: on_fst_iff)
next
  case (2 c w e w1)
  then show ?case using redis_server.close_conn [OF assms, of c "fst w" e "fst w1"] by (simp add: on_fst_iff)
next
  case (3 c k v mode n w r w1)
  then show ?case using redis_server.do_set [OF assms, of c k v mode n "fst w" r "fst w1"] by (simp add: on_fst_iff)
next
  case (4 c k w r w1)
  then show ?case using redis_server.do_get [OF assms, of c k "fst w" r "fst w1"]
    unfolding comp_apply lift_sel on_fst_iff by blast
qed

subsection \<open>The program\<close>

definition demo_answer :: string where
  "demo_answer = ''{\"Layer\":{\"Features\":[{\"Name\":\"openssl\",\"Version\":\"1\",\"Vulnerabilities\":[{\"Name\":\"CVE-1\",\"Severity\":\"High\"}]}]}}''"

definition demo_json :: json where
  "demo_json = JObj [(''Layer'', JObj [(''Features'', JArr
     [JObj [(''Name'', JStr ''openssl''), (''Version'', JStr ''1''),
            (''Vulnerabilities'', JArr [JObj [(''Name'', JStr ''CVE-1''), (''Severity'', JStr ''High'')]])]])])]"

definition found_layer :: Layer where
  "found_layer = zero_Layer\<lparr>lay_Features :=
     Some [Feature ''openssl'' [] [] ''1'' (Some [Vulnerability ''CVE-1'' [] [] [] ''High'' None [] None]) []]\<rparr>"

lemma demo_parse: "parse_first demo_answer = Some (demo_json, [])"
  by code_simp

lemma demo_decode: "dec_LayerEnvelope demo_json zero_LayerEnvelope = Some \<lparr>env_Layer = Some found_layer, env_Error = None\<rparr>"
proof -
  have "max_depth = Suc 9999" by (simp add: max_depth_def)
  then have d: "dec_Feature max_depth = dec_Feature_fields (dec_Vulnerability (dec_Feature 9999))"
    by (metis dec_Feature.simps(2))
  show ?thesis
    by (simp add: demo_json_def dec_LayerEnvelope_def dec_Layer_def d dec_Feature_fields_def dec_Vulnerability_def
        dec_struct_def dec_ptr_def dec_slice_def dec_string_def match_field_exact zero_LayerEnvelope_def
        zero_Layer_def zero_Feature_def zero_Vulnerability_def found_layer_def)
qed

definition found_clair :: "'w clair_lib" where
  "found_clair =
     \<lparr>cl_http = \<lparr>hl_url_error = (\<lambda>u. None),
        hl_do = (\<lambda>c rq w. (Inr (if rq_Method rq = ''POST''
            then \<lparr>rs_StatusCode = 201, rs_Status = ''201 Created'', rs_Body = Inr []\<rparr>
            else \<lparr>rs_StatusCode = 200, rs_Status = ''200 OK'', rs_Body = Inr demo_answer\<rparr>), w))\<rparr>,
      cl_errors = mem_errors, cl_features = (\<lambda>fs. JNull), cl_local_offset = (\<lambda>t. 0)\<rparr>"

definition demo_program :: "(mem, unit, mem_reply) program" where
  "demo_program =
     \<lparr>pg_env = demo_env,
      pg_url_Parse = (\<lambda>u. Inr \<lparr>u_Scheme = ''redis'', u_User = None, u_Host = u, u_Path = []\<rparr>),
      pg_redis = (\<lambda>p. lift_lib mem_lib), pg_errors = mem_errors, pg_db_open = (\<lambda>u. Inl ''unknown driver''),
      pg_registry = demo_registry demo_manifest, pg_clair = found_clair, pg_quote = id,
      pg_now = (\<lambda>w. (zero_time, w)), pg_order = id, pg_uuid = (\<lambda>w. (''job-1'', w)), pg_run = (\<lambda>wk. ret ())\<rparr>"

lemma demo_build:
  obtains a where "build demo_program = Ok a" and "app_store a = lift_store hour_store"
proof -
  obtain cfg where g: "GetConfig demo_env = (cfg, None)" and c: "clair_DatabaseURL (cfg_Clair cfg) = []"
    "cfg_RedisStore cfg = cfg_RedisStore demo_config"
    by (simp add: GetConfig_def demo_env_def demo_config_def Let_def)
  have "app_store a = lift_store hour_store" if "build demo_program = Ok a" for a
    using that g c
    by (auto simp: build_def demo_program_def NewPool_def clair_NewClient_def Let_def lift_store_def hour_store_def
        mem_store_def demo_config_def)
  moreover have "\<exists>a. build demo_program = Ok a"
    using g c by (simp add: build_def demo_program_def NewPool_def clair_NewClient_def Let_def)
  ultimately show thesis using that by blast
qed

lemma demo_program_world: "program_world (m_db \<circ> fst) (m_clock \<circ> fst) demo_program"
  by (simp add: program_world_def demo_program_def http_keeps_def jobs_alone_def demo_registry_def found_clair_def)

text \<open>The scan: the manifest, its two layers, the answer about the last one, and the report.\<close>

lemma found_ScanLayer: "ScanLayer found_clair c l w = (Ok (), w)"
  by (simp add: ScanLayer_def found_clair_def send_def marshal_def new_request_def set_header_def bind_act_def
      lift_res_def lib_act_def ret_def)

lemma found_GetLayer: "GetLayer found_clair c n w = (Ok \<lparr>env_Layer = Some found_layer, env_Error = None\<rparr>, w)"
  by (simp add: GetLayer_def found_clair_def send_def new_request_def bind_act_def lift_res_def lib_act_def ret_def
      unmarshal_def parse_json_def demo_parse demo_decode skip_ws_def)

lemma found_report:
  "ToHarborScanReport (\<lambda>w. (zero_time, w)) id zero_Artifact (Some found_layer) w = (Ok demo_report, w)"
proof -
  have h: "toHarborSeverity ''High'' = SevHigh"
    by (simp add: toHarborSeverity_def Let_def clair_sev_defs rune_to_lower_def char_of_def bit_0)
  then have "Max (insert SevNone (set (map (\<lambda>(f, v). toHarborSeverity (vul_Severity v)) (vulnerabilities found_layer)))) = SevHigh"
    by (simp add: vulnerabilities_def found_layer_def sev_defs)
  moreover have "toVulnerabilityItems (Some found_layer) = rep_Vulnerabilities demo_report"
    by (simp add: toVulnerabilityItems_def found_layer_def demo_report_def append_slice_def vulnerability_item_def h toLinks_def)
  ultimately show ?thesis by (subst report_Ok) (simp_all add: demo_report_def)
qed

lemma zero_req: "req_Artifact zero_ScanRequest = zero_Artifact"
  by (simp add: zero_ScanRequest_def)

lemma demo_Scan:
  assumes "build demo_program = Ok a" and "globals_ok g"
  shows "\<exists>g'. \<forall>v. Scan (app_adapter a) zero_ScanRequest (v, g) = (Ok demo_report, (v, g'))"
proof -
  obtain c tls where ad: "app_adapter a = NewAdapter (NewClientFactory (demo_registry demo_manifest) tls)
      (clair_iface found_clair id c) (NewTransformer (\<lambda>w. (zero_time, w)) id)"
    by (rule build_Ok [OF assms(1)]) (simp add: demo_program_def)
  let ?L = "ToClairLayers zero_ScanRequest demo_manifest"
  obtain cl g' where f: "clientFactory_Get tls g = (Some cl, g')"
    using clientFactory_Get_ok [OF assms(2), of tls] by (cases "clientFactory_Get tls g") auto
  have "length ?L = 2" by (simp add: demo_blobs)
  then have L: "?L \<noteq> []" by (metis list.size(3) zero_neq_numeral)
  have "prepareLayers (app_adapter a) zero_ScanRequest (v, g) = (Ok ?L, (v, g'))" for v
    by (simp add: prepareLayers_def ad NewAdapter_def NewTransformer_def NewClientFactory_def f GetManifest_def
        demo_registry_def new_request_def add_header_def bind_act_def lift_res_def lib_act_def ret_def)
  moreover have "send_layers (app_adapter a) ls w = (Ok (), w)" for ls w
    by (induction ls) (simp_all add: ad NewAdapter_def clair_iface_def found_ScanLayer bind_act_def ret_def)
  moreover have "getReport (app_adapter a) zero_Artifact n w = (Ok demo_report, w)" for n w
    by (simp add: getReport_def ad NewAdapter_def clair_iface_def NewTransformer_def found_GetLayer found_report
        bind_act_def wrap_act_def)
  ultimately show ?thesis
    using L by (auto simp: Scan_def bind_act_def wrap_act_def ret_def zero_req)
qed

text \<open>The program serves one request to the end.\<close>

lemma demo_program_run:
  assumes "build demo_program = Ok a"
  shows "\<exists>g. service_run (app_store a) (Scan (app_adapter a)) demo_events (service0 (mem_world [], initial_globals)) =
    Some \<lparr>se_world = (one_job demo_finished 8 3600007, g), se_tasks = [''job-1'' \<mapsto> Ended],
          se_requests = [''job-1'' \<mapsto> zero_ScanRequest], se_crashed = False\<rparr>"
proof -
  have st: "app_store a = lift_store hour_store" using assms demo_build by (metis res.inject(1))
  from demo_Scan [OF assms initial_globals_ok] obtain g where
    sc: "\<And>v. Scan (app_adapter a) zero_ScanRequest (v, initial_globals) = (Ok demo_report, (v, g))" by blast
  have sub: "Enqueue (\<lambda>w. (''job-1'', w)) \<lparr>en_store = NewStore (lift_store hour_store), en_run = (\<lambda>wk. ret ()), en_adapter = ad\<rparr>
     zero_ScanRequest (mem_world [], initial_globals) = (Ok ''job-1'', (one_job demo_job 1 3600000, initial_globals))" for ad
    using mem_create by (simp add: Enqueue_def NewStore_sel lifted on_fst_def demo_job_def bind_act_def wrap_act_def ret_def)
  show ?thesis
    by (rule exI [of _ g])
       (simp add: st demo_events_def service0_def sub demo_steps lifted Get_lift on_fst_def sc fun_upd_idem)
qed

lemma demo_program_state:
  assumes "build demo_program = Ok a"
  obtains sv where "reachable_service (app_store a) (Scan (app_adapter a)) (mem_world [], initial_globals) sv"
    and "fst (se_world sv) = one_job demo_finished 8 3600007" and "se_requests sv = [''job-1'' \<mapsto> zero_ScanRequest]"
  using demo_program_run [OF assms] service_run_reachable [OF reachable_service.start] by (metis fst_conv service.select_convs(1,3))

lemma lift_entry: "entry_of (lift_store s) m = entry_of s m"
  by (simp add: fun_eq_iff entry_of_def split: option.split)

lemma lift_jobs:
  "jobs_ok (lift_store s) (db \<circ> fst) w = jobs_ok s db (fst w)"
  "job_now (lift_store s) (db \<circ> fst) (clock \<circ> fst) w i = job_now s db clock (fst w) i"
  by (simp_all add: jobs_ok_def store_ok_def job_now_def jobs_of_def lift_entry)

end
