(* ===== verification/Report.thy ===== *)
theory Report
  imports GoDecode
begin

text \<open>
  \<open>tools/govulncheck-report/report.go\<close>: from the stream of messages of govulncheck and its
  exit code to a summary. The findings of one vulnerability in one module are merged into
  one, under a key of a Go map, kept in the order of first insertion; the order in which Go ranges over that map is the argument
  \<open>order\<close>, and the lemmas show that it does not matter.
\<close>

datatype reachability = reachRequired | reachImported | reachCalled

fun reach_num :: "reachability \<Rightarrow> nat" where
  "reach_num reachRequired = 0"
| "reach_num reachImported = 1"
| "reach_num reachCalled = 2"

lemma reach_num_inject [simp]: "reach_num a = reach_num b \<longleftrightarrow> a = b"
  by (cases a; cases b) auto

instantiation reachability :: linorder
begin

definition less_eq_reachability :: "reachability \<Rightarrow> reachability \<Rightarrow> bool" where
  "less_eq_reachability a b \<longleftrightarrow> reach_num a \<le> reach_num b"

definition less_reachability :: "reachability \<Rightarrow> reachability \<Rightarrow> bool" where
  "less_reachability a b \<longleftrightarrow> reach_num a < reach_num b"

instance
  by standard (auto simp: less_eq_reachability_def less_reachability_def simp flip: reach_num_inject)

end

definition reach_String :: "reachability \<Rightarrow> string" where
  "reach_String r =
     (case r of reachCalled \<Rightarrow> ''Called'' | reachImported \<Rightarrow> ''Imported'' | reachRequired \<Rightarrow> ''Required'')"

lemma reach_String_inject [simp]: "reach_String a = reach_String b \<longleftrightarrow> a = b"
  by (cases a; cases b) (auto simp: reach_String_def)

record Finding =
  fd_ID :: string
  fd_Module :: string
  fd_Version :: string
  fd_FixedVersion :: string
  fd_Reachability :: string
  fd_Trace :: string
  fd_Summary :: string
  fd_level :: reachability

record Summary =
  sm_ScannerError :: bool
  sm_ExitCode :: int
  sm_FindingCount :: nat
  sm_FixableFindingCount :: nat
  sm_CalledFindingCount :: nat
  sm_ParseErrors :: "string list"
  sm_ScannerVersion :: string
  sm_GoVersion :: string
  sm_Findings :: "Finding list"

record configMessage =
  cm_ScannerName :: string
  cm_ScannerVersion :: string
  cm_GoVersion :: string

text \<open>The two nested anonymous structs of \<open>Affected\<close>.\<close>

record osv_package =
  op_Name :: string

record osv_affected =
  oa_Package :: osv_package

record osvEntry =
  osv_ID :: string
  osv_Summary :: string
  osv_Details :: string
  osv_Affected :: "osv_affected slice"

record frame =
  fr_Module :: string
  fr_Version :: string
  fr_Package :: string
  fr_Function :: string
  fr_Receiver :: string

record rawFinding =
  rf_OSV :: string
  rf_FixedVersion :: string
  rf_Trace :: "frame slice"

record message =
  msg_Config :: "configMessage option"
  msg_OSV :: "osvEntry option"
  msg_Finding :: "rawFinding option"

definition zero_configMessage :: configMessage where
  "zero_configMessage = \<lparr>cm_ScannerName = [], cm_ScannerVersion = [], cm_GoVersion = []\<rparr>"

definition zero_affected :: osv_affected where
  "zero_affected = \<lparr>oa_Package = \<lparr>op_Name = []\<rparr>\<rparr>"

definition zero_osvEntry :: osvEntry where
  "zero_osvEntry = \<lparr>osv_ID = [], osv_Summary = [], osv_Details = [], osv_Affected = None\<rparr>"

definition zero_frame :: frame where
  "zero_frame = \<lparr>fr_Module = [], fr_Version = [], fr_Package = [], fr_Function = [], fr_Receiver = []\<rparr>"

definition zero_rawFinding :: rawFinding where
  "zero_rawFinding = \<lparr>rf_OSV = [], rf_FixedVersion = [], rf_Trace = None\<rparr>"

definition zero_message :: message where
  "zero_message = \<lparr>msg_Config = None, msg_OSV = None, msg_Finding = None\<rparr>"

subsection \<open>Decoders\<close>

definition dec_configMessage :: "configMessage decoder" where
  "dec_configMessage = dec_struct [''scanner_name'', ''scanner_version'', ''go_version'']
     (\<lambda>n j c.
        if n = ''scanner_name'' then map_option (\<lambda>x. c\<lparr>cm_ScannerName := x\<rparr>) (dec_string j (cm_ScannerName c))
        else if n = ''scanner_version''
        then map_option (\<lambda>x. c\<lparr>cm_ScannerVersion := x\<rparr>) (dec_string j (cm_ScannerVersion c))
        else map_option (\<lambda>x. c\<lparr>cm_GoVersion := x\<rparr>) (dec_string j (cm_GoVersion c)))"

definition dec_package :: "osv_package decoder" where
  "dec_package = dec_struct [''name'']
     (\<lambda>n j p. map_option (\<lambda>x. p\<lparr>op_Name := x\<rparr>) (dec_string j (op_Name p)))"

definition dec_affected :: "osv_affected decoder" where
  "dec_affected = dec_struct [''package'']
     (\<lambda>n j a. map_option (\<lambda>x. a\<lparr>oa_Package := x\<rparr>) (dec_package j (oa_Package a)))"

definition dec_osvEntry :: "osvEntry decoder" where
  "dec_osvEntry = dec_struct [''id'', ''summary'', ''details'', ''affected'']
     (\<lambda>n j e.
        if n = ''id'' then map_option (\<lambda>x. e\<lparr>osv_ID := x\<rparr>) (dec_string j (osv_ID e))
        else if n = ''summary'' then map_option (\<lambda>x. e\<lparr>osv_Summary := x\<rparr>) (dec_string j (osv_Summary e))
        else if n = ''details'' then map_option (\<lambda>x. e\<lparr>osv_Details := x\<rparr>) (dec_string j (osv_Details e))
        else map_option (\<lambda>x. e\<lparr>osv_Affected := x\<rparr>) (dec_slice dec_affected zero_affected j (osv_Affected e)))"

definition dec_frame :: "frame decoder" where
  "dec_frame = dec_struct [''module'', ''version'', ''package'', ''function'', ''receiver'']
     (\<lambda>n j f.
        if n = ''module'' then map_option (\<lambda>x. f\<lparr>fr_Module := x\<rparr>) (dec_string j (fr_Module f))
        else if n = ''version'' then map_option (\<lambda>x. f\<lparr>fr_Version := x\<rparr>) (dec_string j (fr_Version f))
        else if n = ''package'' then map_option (\<lambda>x. f\<lparr>fr_Package := x\<rparr>) (dec_string j (fr_Package f))
        else if n = ''function'' then map_option (\<lambda>x. f\<lparr>fr_Function := x\<rparr>) (dec_string j (fr_Function f))
        else map_option (\<lambda>x. f\<lparr>fr_Receiver := x\<rparr>) (dec_string j (fr_Receiver f)))"

definition dec_rawFinding :: "rawFinding decoder" where
  "dec_rawFinding = dec_struct [''osv'', ''fixed_version'', ''trace'']
     (\<lambda>n j f.
        if n = ''osv'' then map_option (\<lambda>x. f\<lparr>rf_OSV := x\<rparr>) (dec_string j (rf_OSV f))
        else if n = ''fixed_version''
        then map_option (\<lambda>x. f\<lparr>rf_FixedVersion := x\<rparr>) (dec_string j (rf_FixedVersion f))
        else map_option (\<lambda>x. f\<lparr>rf_Trace := x\<rparr>) (dec_slice dec_frame zero_frame j (rf_Trace f)))"

definition dec_message :: "message decoder" where
  "dec_message = dec_struct [''config'', ''osv'', ''finding'']
     (\<lambda>n j m.
        if n = ''config''
        then map_option (\<lambda>x. m\<lparr>msg_Config := x\<rparr>) (dec_ptr dec_configMessage zero_configMessage j (msg_Config m))
        else if n = ''osv''
        then map_option (\<lambda>x. m\<lparr>msg_OSV := x\<rparr>) (dec_ptr dec_osvEntry zero_osvEntry j (msg_OSV m))
        else map_option (\<lambda>x. m\<lparr>msg_Finding := x\<rparr>) (dec_ptr dec_rawFinding zero_rawFinding j (msg_Finding m)))"

subsection \<open>Reading the stream\<close>

text \<open>What the loop over the messages collects.\<close>

record collected =
  co_parseErrors :: "string list"
  co_sawConfig :: bool
  co_cfg :: configMessage
  co_osvByID :: "string \<rightharpoonup> osvEntry"
  co_findings :: "rawFinding list"

definition collected0 :: collected where
  "collected0 = \<lparr>co_parseErrors = [], co_sawConfig = False, co_cfg = zero_configMessage,
     co_osvByID = Map.empty, co_findings = []\<rparr>"

definition collect :: "message \<Rightarrow> collected \<Rightarrow> collected" where
  "collect m c =
     (case msg_Config m of
        Some k \<Rightarrow> c\<lparr>co_sawConfig := True, co_cfg := k\<rparr>
      | None \<Rightarrow>
          (case msg_OSV m of
             Some e \<Rightarrow>
               if osv_ID e \<noteq> [] then c\<lparr>co_osvByID := (co_osvByID c)(osv_ID e \<mapsto> e)\<rparr>
               else (case msg_Finding m of
                       Some f \<Rightarrow> if rf_OSV f \<noteq> [] then c\<lparr>co_findings := co_findings c @ [f]\<rparr> else c
                     | None \<Rightarrow> c)
           | None \<Rightarrow>
               (case msg_Finding m of
                  Some f \<Rightarrow> if rf_OSV f \<noteq> [] then c\<lparr>co_findings := co_findings c @ [f]\<rparr> else c
                | None \<Rightarrow> c)))"

lemma parse_first_shorter: "parse_first s = Some (j, rest) \<Longrightarrow> length rest < length s"
  unfolding parse_first_def by (rule parse_shorter)

text \<open>
  \<open>Decode\<close> until the end of the file or the first error, of the reader or of the text. A value
  is never empty, so each round leaves a shorter text.
\<close>

lemma decode_value_shorter: "decode_value r = Some (j, r') \<Longrightarrow> length (fst r') < length (fst r)"
  using parse_first_shorter [of "fst r" j "fst r'"] by (auto simp: decode_value_def split: option.splits if_splits)

function read_messages :: "(reader \<Rightarrow> string) \<Rightarrow> reader \<Rightarrow> collected \<Rightarrow> collected" where
  "read_messages json_err r c =
     (if skip_ws (fst r) = [] \<and> snd r = None then c
      else (case decode_value r of
         None \<Rightarrow> c\<lparr>co_parseErrors := co_parseErrors c @ [json_err r]\<rparr>
       | Some (j, rest) \<Rightarrow>
           (case dec_message j zero_message of
              None \<Rightarrow> c\<lparr>co_parseErrors := co_parseErrors c @ [json_err r]\<rparr>
            | Some m \<Rightarrow> read_messages json_err rest (collect m c))))"
  by pat_completeness auto

termination
  by (relation "measure (\<lambda>(_, r, _). length (fst r))") (auto dest: decode_value_shorter)

declare read_messages.simps [simp del]

subsection \<open>One finding\<close>

fun first_affected :: "osv_affected list \<Rightarrow> string" where
  "first_affected [] = ''unknown''"
| "first_affected (a # as) =
     (if op_Name (oa_Package a) \<noteq> [] then op_Name (oa_Package a) else first_affected as)"

definition fallbackModule :: "osvEntry \<Rightarrow> string" where
  "fallbackModule osv = first_affected (elems (osv_Affected osv))"

definition lastPathSegment :: "string \<Rightarrow> string" where
  "lastPathSegment path = after_last (CHR ''/'') path"

definition symbolLabel :: "frame \<Rightarrow> string" where
  "symbolLabel f =
     (let name = (if fr_Receiver f \<noteq> [] then fr_Receiver f @ ''.'' @ fr_Function f else fr_Function f);
          pkg = lastPathSegment (fr_Package f)
      in if pkg \<noteq> [] then pkg @ ''.'' @ name else name)"

definition describe :: "rawFinding \<Rightarrow> osvEntry \<Rightarrow> string \<times> string \<times> reachability \<times> string" where
  "describe raw osv =
     (case elems (rf_Trace raw) of
        [] \<Rightarrow> (fallbackModule osv, [], reachRequired, [])
      | vuln # _ \<Rightarrow>
          let module = (if fr_Module vuln = [] then fallbackModule osv else fr_Module vuln);
              (level, trace) =
                (if fr_Function vuln \<noteq> [] then (reachCalled, symbolLabel vuln)
                 else if fr_Package vuln \<noteq> [] then (reachImported, [])
                 else (reachRequired, []))
          in (module, fr_Version vuln, level, trace))"

definition shorten :: "string \<Rightarrow> nat \<Rightarrow> string" where
  "shorten value limit =
     (let text = join '' '' (GoStrings.fields value) in
      if length (decode_runes text) \<le> limit then text
      else encode_runes (take (limit - 3) (decode_runes text)) @ ''...'')"

definition summarize :: "osvEntry \<Rightarrow> string" where
  "summarize osv =
     (let text = (if osv_Summary osv = [] then osv_Details osv else osv_Summary osv) in shorten text 200)"

subsection \<open>Merging\<close>

definition finding_key :: "string \<Rightarrow> string \<Rightarrow> string" where
  "finding_key osv module = osv @ CHR 0x00 # module"

definition new_finding :: "rawFinding \<Rightarrow> osvEntry \<Rightarrow> Finding" where
  "new_finding raw osv =
     (let (module, version, level, trace) = describe raw osv in
      \<lparr>fd_ID = rf_OSV raw, fd_Module = module, fd_Version = version,
       fd_FixedVersion = rf_FixedVersion raw, fd_Reachability = reach_String level,
       fd_Trace = trace, fd_Summary = summarize osv, fd_level = level\<rparr>)"

definition merge_into :: "rawFinding \<Rightarrow> osvEntry \<Rightarrow> Finding \<Rightarrow> Finding" where
  "merge_into raw osv existing =
     (let (module, version, level, trace) = describe raw osv;
          e1 = (if level > fd_level existing
                then existing\<lparr>fd_level := level, fd_Reachability := reach_String level, fd_Trace := trace\<rparr>
                else existing);
          e2 = (if fd_FixedVersion e1 = [] then e1\<lparr>fd_FixedVersion := rf_FixedVersion raw\<rparr> else e1)
      in if fd_Version e2 = [] then e2\<lparr>fd_Version := version\<rparr> else e2)"

definition osv_of :: "(string \<rightharpoonup> osvEntry) \<Rightarrow> rawFinding \<Rightarrow> osvEntry" where
  "osv_of osvByID raw = (case osvByID (rf_OSV raw) of None \<Rightarrow> zero_osvEntry | Some e \<Rightarrow> e)"

fun merge_findings ::
  "(string \<rightharpoonup> osvEntry) \<Rightarrow> rawFinding list \<Rightarrow> (string \<times> Finding) list \<Rightarrow> (string \<times> Finding) list"
where
  "merge_findings osvByID [] merged = merged"
| "merge_findings osvByID (raw # raws) merged =
     (let osv = osv_of osvByID raw;
          key = finding_key (rf_OSV raw) (fst (describe raw osv))
      in merge_findings osvByID raws
           (case map_of merged key of
              None \<Rightarrow> map_set key (new_finding raw osv) merged
            | Some existing \<Rightarrow> map_set key (merge_into raw osv existing) merged))"

text \<open>Most actionable first: reachable code, then the identifier, then the module.\<close>

definition finding_less :: "Finding \<Rightarrow> Finding \<Rightarrow> bool" where
  "finding_less a b =
     (if fd_level a \<noteq> fd_level b then fd_level a > fd_level b
      else if fd_ID a \<noteq> fd_ID b then str_less (fd_ID a) (fd_ID b)
      else str_less (fd_Module a) (fd_Module b))"

fun count_findings :: "Finding list \<Rightarrow> nat \<times> nat \<Rightarrow> nat \<times> nat" where
  "count_findings [] counts = counts"
| "count_findings (f # fs) (fixable, called) =
     count_findings fs
       (if fd_FixedVersion f \<noteq> [] then fixable + 1 else fixable,
        if fd_Reachability f = reach_String reachCalled then called + 1 else called)"

definition analyze ::
  "(reader \<Rightarrow> string) \<Rightarrow> ((string \<times> Finding) list \<Rightarrow> (string \<times> Finding) list) \<Rightarrow> reader \<Rightarrow> int \<Rightarrow> Summary"
where
  "analyze json_err order report exitCode =
     (let c = read_messages json_err report collected0;
          merged = merge_findings (co_osvByID c) (co_findings c) [];
          out = sort_by finding_less (map snd (order merged));
          (fixable, called) = count_findings out (0, 0)
      in \<lparr>sm_ScannerError =
            length (co_parseErrors c) > 0 \<or> \<not> co_sawConfig c \<or> (exitCode \<noteq> 0 \<and> exitCode \<noteq> 3) \<or>
            (exitCode = 3 \<and> length out = 0),
          sm_ExitCode = exitCode, sm_FindingCount = length out, sm_FixableFindingCount = fixable,
          sm_CalledFindingCount = called, sm_ParseErrors = co_parseErrors c,
          sm_ScannerVersion = cm_ScannerVersion (co_cfg c), sm_GoVersion = cm_GoVersion (co_cfg c),
          sm_Findings = out\<rparr>)"

subsection \<open>Merged findings\<close>

definition raw_key :: "(string \<rightharpoonup> osvEntry) \<Rightarrow> rawFinding \<Rightarrow> string" where
  "raw_key osvByID raw = finding_key (rf_OSV raw) (fst (describe raw (osv_of osvByID raw)))"

definition raw_level :: "(string \<rightharpoonup> osvEntry) \<Rightarrow> rawFinding \<Rightarrow> reachability" where
  "raw_level osvByID raw = fst (snd (snd (describe raw (osv_of osvByID raw))))"

text \<open>What one more raw finding does to the entry of its key.\<close>

definition merge_step :: "(string \<rightharpoonup> osvEntry) \<Rightarrow> rawFinding \<Rightarrow> Finding option \<Rightarrow> Finding option" where
  "merge_step osvByID raw old =
     Some (case old of
             None \<Rightarrow> new_finding raw (osv_of osvByID raw)
           | Some f \<Rightarrow> merge_into raw (osv_of osvByID raw) f)"

lemma merge_findings_Cons:
  "merge_findings om (raw # raws) m =
     merge_findings om raws (map_set (raw_key om raw) (the (merge_step om raw (map_of m (raw_key om raw)))) m)"
  by (simp add: Let_def raw_key_def merge_step_def split: option.split)

declare merge_findings.simps(2) [simp del]

text \<open>The map is what the raw findings of each key make of its entry, one after another.\<close>

lemma map_of_merge_findings:
  "map_of (merge_findings om raws m) k =
     fold (merge_step om) (filter (\<lambda>raw. raw_key om raw = k) raws) (map_of m k)"
proof (induction raws arbitrary: m)
  case (Cons raw raws)
  show ?case by (simp add: merge_findings_Cons Cons.IH) (simp add: merge_step_def)
qed simp

lemma distinct_merge_findings:
  "distinct (map fst m) \<Longrightarrow> distinct (map fst (merge_findings om raws m))"
  by (induction raws arbitrary: m) (auto simp: merge_findings_Cons keys_map_set)

lemma keys_merge_findings:
  "set (map fst (merge_findings om raws m)) = set (map fst m) \<union> raw_key om ` set raws"
  by (induction raws arbitrary: m) (simp, simp only: merge_findings_Cons keys_map_set, auto)

lemma merge_into_sel [simp]:
  "fd_ID (merge_into raw osv f) = fd_ID f" "fd_Module (merge_into raw osv f) = fd_Module f"
  "fd_Summary (merge_into raw osv f) = fd_Summary f"
  "fd_level (merge_into raw osv f) = max (fd_level f) (fst (snd (snd (describe raw osv))))"
  "fd_FixedVersion (merge_into raw osv f) = (if fd_FixedVersion f = [] then rf_FixedVersion raw else fd_FixedVersion f)"
  "fd_Version (merge_into raw osv f) = (if fd_Version f = [] then fst (snd (describe raw osv)) else fd_Version f)"
  by (simp_all add: merge_into_def Let_def max_def split: prod.split) auto

lemma merge_into_Reachability:
  "fd_Reachability f = reach_String (fd_level f) \<Longrightarrow>
     fd_Reachability (merge_into raw osv f) = reach_String (fd_level (merge_into raw osv f))"
  by (simp add: merge_into_def Let_def split: prod.split)

lemma new_finding_sel [simp]:
  "fd_ID (new_finding raw osv) = rf_OSV raw" "fd_Module (new_finding raw osv) = fst (describe raw osv)"
  "fd_Version (new_finding raw osv) = fst (snd (describe raw osv))"
  "fd_FixedVersion (new_finding raw osv) = rf_FixedVersion raw"
  "fd_level (new_finding raw osv) = fst (snd (snd (describe raw osv)))"
  "fd_Reachability (new_finding raw osv) = reach_String (fst (snd (snd (describe raw osv))))"
  "fd_Trace (new_finding raw osv) = snd (snd (snd (describe raw osv)))"
  by (simp_all add: new_finding_def split: prod.split)

text \<open>An entry carries the two parts of its key, and the name of its level.\<close>

definition entry_ok :: "string \<times> Finding \<Rightarrow> bool" where
  "entry_ok e \<longleftrightarrow>
     fst e = finding_key (fd_ID (snd e)) (fd_Module (snd e)) \<and>
     fd_Reachability (snd e) = reach_String (fd_level (snd e))"

lemma entries_ok:
  assumes "distinct (map fst m)" and "\<forall>e \<in> set m. entry_ok e"
  shows "\<forall>e \<in> set (merge_findings om raws m). entry_ok e"
  using assms
proof (induction raws arbitrary: m)
  case (Cons raw raws)
  let ?k = "raw_key om raw"
  let ?v = "the (merge_step om raw (map_of m ?k))"
  have new: "entry_ok (?k, ?v)"
  proof (cases "map_of m ?k")
    case None
    then show ?thesis by (simp add: merge_step_def entry_ok_def raw_key_def)
  next
    case (Some f)
    then have "entry_ok (?k, f)" using Cons.prems(2) map_of_SomeD by fastforce
    with Some show ?thesis
      by (simp add: merge_step_def entry_ok_def) (simp add: merge_into_Reachability)
  qed
  have "\<forall>e \<in> set (map_set ?k ?v m). entry_ok e"
  proof
    fix e assume "e \<in> set (map_set ?k ?v m)"
    then consider "e = (?k, ?v)" | "e \<in> set m" using set_map_set [OF Cons.prems(1)] by fast
    then show "entry_ok e" by cases (simp_all only: new Cons.prems(2) [rule_format])
  qed
  moreover have "distinct (map fst (map_set ?k ?v m))"
    using Cons.prems(1) by (auto simp: keys_map_set)
  ultimately show ?case unfolding merge_findings_Cons by (rule Cons.IH [rotated])
qed simp

text \<open>
  What is left of all raw findings with one key: the deepest level, and the first fixed
  version that is not empty.
\<close>

fun first_nonempty :: "string list \<Rightarrow> string" where
  "first_nonempty [] = []"
| "first_nonempty (s # ss) = (if s \<noteq> [] then s else first_nonempty ss)"

lemma fold_merge_Some:
  assumes "fold (merge_step om) raws (Some f) = Some g"
  shows "fd_level g = Max (insert (fd_level f) (raw_level om ` set raws))"
    and "fd_FixedVersion g = first_nonempty (fd_FixedVersion f # map rf_FixedVersion raws)"
  using assms
proof (induction raws arbitrary: f)
  case Nil
  case 1
  then show ?case by simp
next
  case Nil
  case 2
  then show ?case by (cases "fd_FixedVersion f") simp_all
next
  case (Cons raw raws)
  case 1
  let ?m = "merge_into raw (osv_of om raw) f"
  from 1 have "fd_level g = Max (insert (fd_level ?m) (raw_level om ` set raws))"
    by (intro Cons.IH) (simp add: merge_step_def)
  moreover have "fd_level ?m = max (fd_level f) (raw_level om raw)"
    by (simp add: raw_level_def)
  moreover have "Max (insert (max a b) A) = Max (insert a (insert b A))"
    if "finite A" for a b and A :: "reachability set"
    using that by (cases "A = {}") (simp_all add: max.assoc)
  ultimately show ?case by (simp add: raw_level_def)
next
  case (Cons raw raws)
  case 2
  let ?m = "merge_into raw (osv_of om raw) f"
  from 2 have "fd_FixedVersion g = first_nonempty (fd_FixedVersion ?m # map rf_FixedVersion raws)"
    by (intro Cons.IH) (simp add: merge_step_def)
  then show ?case by (simp split: if_splits)
qed

lemma fold_merge_None:
  assumes "fold (merge_step om) raws None = Some g"
  shows "raws \<noteq> []" and "fd_level g = Max (raw_level om ` set raws)"
    and "fd_FixedVersion g = first_nonempty (map rf_FixedVersion raws)"
proof -
  from assms show ne: "raws \<noteq> []" by auto
  then obtain r rs where r: "raws = r # rs" by (cases raws) auto
  with assms have f: "fold (merge_step om) rs (Some (new_finding r (osv_of om r))) = Some g"
    by (simp add: merge_step_def)
  show "fd_level g = Max (raw_level om ` set raws)"
    using fold_merge_Some(1) [OF f] by (simp add: r raw_level_def)
  show "fd_FixedVersion g = first_nonempty (map rf_FixedVersion raws)"
    using fold_merge_Some(2) [OF f] by (simp add: r)
qed

subsection \<open>The order of the findings\<close>

lemma finding_less_iff:
  "finding_less a b \<longleftrightarrow>
     fd_level b < fd_level a \<or>
     fd_level a = fd_level b \<and>
       (str_less (fd_ID a) (fd_ID b) \<or> fd_ID a = fd_ID b \<and> str_less (fd_Module a) (fd_Module b))"
  by (auto simp: finding_less_def)

lemma finding_less_irrefl [simp]: "\<not> finding_less a a"
  by (simp add: finding_less_iff)

lemma finding_less_trans: "finding_less a b \<Longrightarrow> finding_less b c \<Longrightarrow> finding_less a c"
  unfolding finding_less_iff
  by (auto dest: less_trans str_less_trans)

lemma finding_less_total:
  assumes "fd_ID a \<noteq> fd_ID b \<or> fd_Module a \<noteq> fd_Module b"
  shows "finding_less a b \<or> finding_less b a"
proof (cases "fd_level a = fd_level b")
  case True
  with assms str_less_total show ?thesis by (auto simp: finding_less_def)
next
  case False
  then show ?thesis by (auto simp: finding_less_def neq_iff)
qed

definition merged_of :: "collected \<Rightarrow> (string \<times> Finding) list" where
  "merged_of c = merge_findings (co_osvByID c) (co_findings c) []"

lemma merged_of_ok: "distinct (map fst (merged_of c))" "\<forall>e \<in> set (merged_of c). entry_ok e"
  unfolding merged_of_def by (simp add: distinct_merge_findings) (rule entries_ok; simp)

lemma sorted_findings:
  assumes "mset xs = mset (merged_of c)"
  shows "distinct (map snd xs)" and "sorted_wrt finding_less (sort_by finding_less (map snd xs))"
proof -
  have ok: "entry_ok e" if "e \<in> set xs" for e
    using merged_of_ok(2) that assms by (metis set_mset_mset)
  have "mset (map fst xs) = mset (map fst (merged_of c))" using assms by simp
  then have d: "distinct (map fst xs)"
    using merged_of_ok(1) mset_eq_imp_distinct_iff by blast
  have inj: "x = y" if "x \<in> set xs" "y \<in> set xs" "fd_ID (snd x) = fd_ID (snd y)"
    "fd_Module (snd x) = fd_Module (snd y)" for x y
  proof -
    have "fst x = fst y" using that ok by (simp add: entry_ok_def)
    with d that show ?thesis by (metis distinct_map inj_onD)
  qed
  then have "inj_on snd (set xs)" by (auto simp: inj_on_def)
  with d show dis: "distinct (map snd xs)"
    by (simp add: distinct_map)
  show "sorted_wrt finding_less (sort_by finding_less (map snd xs))"
  proof (rule sorted_wrt_sort_by [OF dis])
    fix a b assume "a \<in> set (map snd xs)" "b \<in> set (map snd xs)" "a \<noteq> b"
    then show "finding_less a b \<or> finding_less b a"
      using inj by (intro finding_less_total) auto
  qed (rule finding_less_trans)
qed

text \<open>
  Any list sorted by the comparison that has the merged findings is this one, so neither the
  order of the map nor the sorting algorithm shows in the outcome.
\<close>

lemma sort_unique:
  assumes "mset xs = mset (merged_of c)" and "mset ys = mset (map snd (merged_of c))"
    and "sorted_wrt finding_less ys"
  shows "ys = sort_by finding_less (map snd xs)"
proof (rule sorted_wrt_strict_unique)
  show "mset ys = mset (sort_by finding_less (map snd xs))"
    using assms(1,2) by simp
  show "sorted_wrt finding_less (sort_by finding_less (map snd xs))"
    by (rule sorted_findings(2) [OF assms(1)])
qed (use assms(3) in \<open>auto intro: finding_less_trans\<close>)

subsection \<open>Counts\<close>

lemma count_findings_eq:
  "count_findings fs (a, b) =
     (a + length (filter (\<lambda>f. fd_FixedVersion f \<noteq> []) fs),
      b + length (filter (\<lambda>f. fd_Reachability f = reach_String reachCalled) fs))"
  by (induction fs arbitrary: a b) simp_all

lemma analyze_sel:
  fixes json_err order report code
  defines "c \<equiv> read_messages json_err report collected0"
  defines "out \<equiv> sort_by finding_less (map snd (order (merged_of c)))"
  shows "sm_Findings (analyze json_err order report code) = out"
    and "sm_FindingCount (analyze json_err order report code) = length out"
    and "sm_FixableFindingCount (analyze json_err order report code) =
           length (filter (\<lambda>f. fd_FixedVersion f \<noteq> []) out)"
    and "sm_CalledFindingCount (analyze json_err order report code) =
           length (filter (\<lambda>f. fd_Reachability f = reach_String reachCalled) out)"
    and "sm_ScannerError (analyze json_err order report code) \<longleftrightarrow>
           co_parseErrors c \<noteq> [] \<or> \<not> co_sawConfig c \<or> code \<notin> {0, 3} \<or> code = 3 \<and> out = []"
    and "sm_ParseErrors (analyze json_err order report code) = co_parseErrors c"
    and "sm_ExitCode (analyze json_err order report code) = code"
  by (simp_all add: analyze_def c_def out_def merged_of_def Let_def count_findings_eq)

text \<open>Every finding of the summary stands for the raw findings of its key, and each of those
  is in one.\<close>

definition raws_of :: "collected \<Rightarrow> Finding \<Rightarrow> rawFinding list" where
  "raws_of c f =
     filter (\<lambda>raw. raw_key (co_osvByID c) raw = finding_key (fd_ID f) (fd_Module f)) (co_findings c)"

lemma merged_finding:
  assumes "f \<in> set (map snd (merged_of c))"
  shows "raws_of c f \<noteq> []" and "fd_level f = Max (raw_level (co_osvByID c) ` set (raws_of c f))"
    and "fd_FixedVersion f = first_nonempty (map rf_FixedVersion (raws_of c f))"
    and "fd_Reachability f = reach_String (fd_level f)"
proof -
  from assms obtain k where k: "(k, f) \<in> set (merged_of c)" by auto
  with merged_of_ok(2) have ok: "entry_ok (k, f)" by blast
  then show "fd_Reachability f = reach_String (fd_level f)" by (simp add: entry_ok_def)
  from ok have "k = finding_key (fd_ID f) (fd_Module f)" by (simp add: entry_ok_def)
  moreover have "map_of (merged_of c) k = Some f"
    using k merged_of_ok(1) by simp
  ultimately have "fold (merge_step (co_osvByID c)) (raws_of c f) None = Some f"
    by (simp add: merged_of_def map_of_merge_findings raws_of_def)
  from fold_merge_None [OF this] show "raws_of c f \<noteq> []"
    "fd_level f = Max (raw_level (co_osvByID c) ` set (raws_of c f))"
    "fd_FixedVersion f = first_nonempty (map rf_FixedVersion (raws_of c f))" by auto
qed

lemma merged_covers:
  assumes "raw \<in> set (co_findings c)"
  shows "\<exists>f \<in> set (map snd (merged_of c)). raw \<in> set (raws_of c f)"
proof -
  let ?k = "raw_key (co_osvByID c) raw"
  have "?k \<in> set (map fst (merged_of c))"
    using assms by (simp only: merged_of_def keys_merge_findings) simp
  then obtain f where f: "(?k, f) \<in> set (merged_of c)" by auto
  with merged_of_ok(2) have "?k = finding_key (fd_ID f) (fd_Module f)"
    by (fastforce simp: entry_ok_def)
  with f assms show ?thesis by (force simp: raws_of_def)
qed

subsection \<open>Shortening\<close>

text \<open>
  C39. A shortened text has at most as many characters as its limit, counted as Go's runes, for
  every limit of 3 or more; the limits of the program are 200 and 500.
\<close>

theorem shorten_bounded:
  assumes "3 \<le> limit"
  shows "length (decode_runes (shorten value limit)) \<le> limit"
proof -
  let ?rs = "decode_runes (join '' '' (GoStrings.fields value))"
  show ?thesis
  proof (cases "length ?rs \<le> limit")
    case True
    then show ?thesis by (simp add: shorten_def Let_def)
  next
    case False
    have v: "\<forall>r \<in> set (take (limit - 3) ?rs). valid_rune r"
      using decode_runes_valid by (meson in_set_takeD)
    have "decode_runes (encode_runes (take (limit - 3) ?rs) @ ''...'') =
        take (limit - 3) ?rs @ decode_runes ''...''"
      by (rule decode_encode_runes_append [OF v])
    with False assms show ?thesis
      by (simp add: shorten_def Let_def decode_runes_ascii)
  qed
qed

subsection \<open>Properties\<close>

text \<open>The messages of a report, as they were collected.\<close>

definition messages :: "(reader \<Rightarrow> string) \<Rightarrow> reader \<Rightarrow> collected" where
  "messages json_err report = read_messages json_err report collected0"

lemma analyze_findings:
  "sm_Findings (analyze json_err order report ec) =
     sort_by finding_less (map snd (order (merged_of (messages json_err report))))"
  by (simp add: analyze_sel messages_def)

text \<open>
  C36. The order in which Go ranges over the map of merged findings, and the way its unstable
  sort works, never show: for every such order the summary is the same, its findings are
  strictly sorted, and any other strictly sorted list of the merged findings is that list.
\<close>

theorem analyze_deterministic:
  assumes "\<And>m. mset (order m) = mset m" and "\<And>m. mset (order' m) = mset m"
  shows "analyze json_err order report ec = analyze json_err order' report ec \<and>
    sorted_wrt finding_less (sm_Findings (analyze json_err order report ec)) \<and>
    (\<forall>ys. mset ys = mset (map snd (merged_of (messages json_err report))) \<longrightarrow> sorted_wrt finding_less ys \<longrightarrow>
       ys = sm_Findings (analyze json_err order report ec))"
proof -
  let ?m = "merged_of (messages json_err report)"
  have s: "sorted_wrt finding_less (sort_by finding_less (map snd (o' ?m)))" if "\<And>m. mset (o' m) = mset m" for o'
    using sorted_findings(2) that by metis
  have e: "sort_by finding_less (map snd (order ?m)) = sort_by finding_less (map snd (order' ?m))"
    by (rule sort_unique) (use assms s in auto)
  moreover have "length (order m) = length (order' m)" for m
    using assms by (metis size_mset)
  ultimately have "analyze json_err order report ec = analyze json_err order' report ec"
    by (simp add: analyze_def Let_def messages_def merged_of_def)
  moreover have "ys = sort_by finding_less (map snd (order ?m))"
    if "mset ys = mset (map snd ?m)" "sorted_wrt finding_less ys" for ys
    by (rule sort_unique [OF assms(1) that])
  ultimately show ?thesis using s [OF assms(1)] unfolding analyze_findings by blast
qed

lemma analyze_deterministic_witness:
  "analyze fst rev (''{}'', None) 0 = analyze fst id (''{}'', None) 0"
  using analyze_deterministic [of rev id fst "(''{}'', None)" 0] by simp

text \<open>
  C37. The findings of a summary are those of the stream, merged: there is one for each pair of a
  vulnerability and a module that some finding of the stream names, it has the deepest level
  of reachability among them and the first fixed version given, and every finding of the stream
  is merged into one.
\<close>

theorem analyze_merges:
  assumes "\<And>m. mset (order m) = mset m"
  shows "distinct (map (\<lambda>f. (fd_ID f, fd_Module f)) (sm_Findings (analyze json_err order report ec))) \<and>
    (\<forall>f \<in> set (sm_Findings (analyze json_err order report ec)).
       raws_of (messages json_err report) f \<noteq> [] \<and>
       fd_level f = Max (raw_level (co_osvByID (messages json_err report)) ` set (raws_of (messages json_err report) f)) \<and>
       fd_Reachability f = reach_String (fd_level f) \<and>
       fd_FixedVersion f = first_nonempty (map rf_FixedVersion (raws_of (messages json_err report) f))) \<and>
    (\<forall>raw \<in> set (co_findings (messages json_err report)).
       \<exists>f \<in> set (sm_Findings (analyze json_err order report ec)). raw \<in> set (raws_of (messages json_err report) f))"
proof -
  let ?c = "messages json_err report"
  let ?xs = "order (merged_of ?c)"
  have set: "set (sm_Findings (analyze json_err order report ec)) = set (map snd (merged_of ?c))"
    using assms [of "merged_of ?c"] by (simp add: analyze_findings) (metis set_mset_mset)
  have "sorted_wrt finding_less (sm_Findings (analyze json_err order report ec))"
    using sorted_findings(2) [OF assms] by (simp add: analyze_findings)
  then have d: "distinct (sm_Findings (analyze json_err order report ec))"
    by (rule sorted_wrt_strict_distinct) simp
  have "inj_on (\<lambda>f. (fd_ID f, fd_Module f)) (set (map snd (merged_of ?c)))"
  proof (rule inj_onI)
    fix f g assume f: "f \<in> set (map snd (merged_of ?c))" and g: "g \<in> set (map snd (merged_of ?c))"
      and eq: "(fd_ID f, fd_Module f) = (fd_ID g, fd_Module g)"
    from f g obtain k l where k: "(k, f) \<in> set (merged_of ?c)" and l: "(l, g) \<in> set (merged_of ?c)" by auto
    have "entry_ok (k, f)" "entry_ok (l, g)" using merged_of_ok(2) [of ?c] k l by blast+
    with eq have "k = l" by (simp add: entry_ok_def)
    with k l merged_of_ok(1) [of ?c] show "f = g" by (metis map_of_is_SomeI option.inject)
  qed
  with d set have "distinct (map (\<lambda>f. (fd_ID f, fd_Module f)) (sm_Findings (analyze json_err order report ec)))"
    by (simp add: distinct_map)
  moreover have "raws_of ?c f \<noteq> [] \<and>
       fd_level f = Max (raw_level (co_osvByID ?c) ` set (raws_of ?c f)) \<and>
       fd_Reachability f = reach_String (fd_level f) \<and>
       fd_FixedVersion f = first_nonempty (map rf_FixedVersion (raws_of ?c f))"
    if "f \<in> set (sm_Findings (analyze json_err order report ec))" for f
    using merged_finding [OF that [unfolded set]] by simp
  ultimately show ?thesis using merged_covers [of _ ?c] set by auto
qed

lemma analyze_merges_witness:
  "distinct (map (\<lambda>f. (fd_ID f, fd_Module f)) (sm_Findings (analyze fst rev (''{}'', None) 0)))"
  using analyze_merges [of rev fst "(''{}'', None)" 0] by simp

text \<open>
  When a report counts as a scanner error: the stream could not be read to its end, it had
  no configuration message, the exit code is neither 0 nor 3, or it is 3 and there is no
  finding. And the counts are those of the findings: all, with a fixed version, and called.
\<close>

theorem analyze_scanner_error:
  "(sm_ScannerError (analyze json_err order report ec) \<longleftrightarrow>
     sm_ParseErrors (analyze json_err order report ec) \<noteq> [] \<or> \<not> co_sawConfig (messages json_err report) \<or>
     ec \<notin> {0, 3} \<or> ec = 3 \<and> sm_Findings (analyze json_err order report ec) = []) \<and>
   sm_FindingCount (analyze json_err order report ec) = length (sm_Findings (analyze json_err order report ec)) \<and>
   sm_FixableFindingCount (analyze json_err order report ec) =
     length (filter (\<lambda>f. fd_FixedVersion f \<noteq> []) (sm_Findings (analyze json_err order report ec))) \<and>
   sm_CalledFindingCount (analyze json_err order report ec) =
     length (filter (\<lambda>f. fd_Reachability f = ''Called'') (sm_Findings (analyze json_err order report ec)))"
  by (simp add: analyze_sel messages_def reach_String_def)

lemma shorten_bounded_witness: "length (decode_runes (shorten ''a  b'' 3)) \<le> 3"
  using shorten_bounded [of 3 "''a  b''"] by simp

end
