(* ===== verification/Render.thy ===== *)
theory Render
  imports Report
begin

text \<open>
  \<open>tools/govulncheck-report/render.go\<close>: the markdown of a summary. The builder of the source
  is the text so far; each function here gives the text it appends.
\<close>

abbreviation nl :: string where "nl \<equiv> [CHR 0x0A]"

abbreviation backtick :: string where "backtick \<equiv> [CHR 0x60]"

definition marker :: string where
  "marker = ''<!-- harbor-scanner-clair-govulncheck -->''"

definition modeFull :: string where "modeFull = ''full''"

definition modeFixable :: string where "modeFixable = ''fixable''"

definition fixableOnly :: "Finding list \<Rightarrow> Finding list" where
  "fixableOnly findings = filter (\<lambda>f. fd_FixedVersion f \<noteq> []) findings"

definition countCalled :: "Finding list \<Rightarrow> nat" where
  "countCalled findings = length (filter (\<lambda>f. fd_Reachability f = reach_String reachCalled) findings)"

definition plural :: "nat \<Rightarrow> string \<Rightarrow> string \<Rightarrow> string" where
  "plural n singular pluralForm =
     (if n = 1 then itoa (int n) @ '' '' @ singular else itoa (int n) @ '' '' @ pluralForm)"

definition escape :: "string \<Rightarrow> string" where
  "escape value =
     (let value = replace_char (CHR ''|'') [CHR 0x5C, CHR ''|''] value;
          value = replace_char (CHR 0x0A) '' '' value
      in if value = [] then ''-'' else value)"

definition code :: "string \<Rightarrow> string" where
  "code value =
     (if value = [] then ''-'' else backtick @ replace_char (CHR 0x60) [] value @ backtick)"

definition fallback :: "string \<Rightarrow> string \<Rightarrow> string" where
  "fallback value def = (if value = [] then def else value)"

definition table_row :: "Finding \<Rightarrow> string" where
  "table_row f =
     (let reach = (if fd_Trace f \<noteq> []
                   then fd_Reachability f @ '' ('' @ code (fd_Trace f) @ '')''
                   else fd_Reachability f)
      in ''| ['' @ escape (fd_ID f) @ ''](https://pkg.go.dev/vuln/'' @ fd_ID f @ '') | ''
         @ code (fd_Module f) @ '' | '' @ code (fd_Version f) @ '' | '' @ code (fd_FixedVersion f)
         @ '' | '' @ reach @ '' | '' @ escape (fd_Summary f) @ '' |'' @ nl)"

text \<open>No limit when \<open>maxRows\<close> is not positive.\<close>

definition shown_rows :: "Finding list \<Rightarrow> int \<Rightarrow> Finding list" where
  "shown_rows findings maxRows =
     (if maxRows > 0 \<and> int (length findings) > maxRows then take (nat maxRows) findings else findings)"

definition writeTable :: "Finding list \<Rightarrow> int \<Rightarrow> string" where
  "writeTable findings maxRows =
     (let rows = shown_rows findings maxRows in
      ''| Vulnerability | Module | In use | Fixed in | Reachability | Summary |'' @ nl
      @ ''| :--- | :--- | :--- | :--- | :--- | :--- |'' @ nl
      @ concat (map table_row rows)
      @ (if length rows < length findings
         then nl @ ''_Showing '' @ itoa (int (length rows)) @ '' of '' @ itoa (int (length findings))
              @ '' findings; see the workflow artifact for the rest._'' @ nl
         else []))"

definition writeHeadline :: "Summary \<Rightarrow> Finding list \<Rightarrow> string \<Rightarrow> string" where
  "writeHeadline summary shown mode =
     (if mode = modeFixable
      then ''**'' @ plural (length shown) ''vulnerability'' ''vulnerabilities''
           @ '' with a published fix** out of '' @ itoa (int (sm_FindingCount summary)) @ '' total.''
      else ''**'' @ plural (length shown) ''vulnerability'' ''vulnerabilities''
           @ ''** in the module dependency graph, '' @ itoa (int (sm_FixableFindingCount summary))
           @ '' with a published fix.'')
     @ (if countCalled shown > 0
        then '' '' @ itoa (int (countCalled shown)) @ '' reachable from this module'' @ [CHR 0x27] @ ''s code.''
        else [])
     @ nl"

fun writeFootnotes :: "Finding list \<Rightarrow> string" where
  "writeFootnotes [] = []"
| "writeFootnotes (f # fs) =
     (if fd_Module f = ''stdlib''
      then nl @ ''_'' @ backtick @ ''stdlib'' @ backtick @ '' findings are fixed by raising the ''
           @ backtick @ ''go'' @ backtick @ '' directive in '' @ backtick @ ''go.mod'' @ backtick @ ''._'' @ nl
      else writeFootnotes fs)"

definition error_details :: "Summary \<Rightarrow> string \<Rightarrow> string" where
  "error_details summary scannerStderr =
     (let details = join ''; '' (sm_ParseErrors summary);
          details = (if details = [] then scannerStderr else details);
          details = shorten details 500
      in if details = [] then ''no diagnostics captured on stderr'' else details)"

definition shown_findings :: "Summary \<Rightarrow> string \<Rightarrow> Finding list" where
  "shown_findings summary mode =
     (if mode = modeFixable then fixableOnly (sm_Findings summary) else sm_Findings summary)"

definition clean_text :: string where
  "clean_text = ''No known vulnerabilities in the module dependency graph.'' @ nl"

definition render_body :: "Summary \<Rightarrow> string \<Rightarrow> string \<Rightarrow> int \<Rightarrow> string" where
  "render_body summary mode scannerStderr maxRows =
     (let shown = shown_findings summary mode in
      if sm_ScannerError summary then
        ''**govulncheck did not produce a usable report** (exit code '' @ itoa (sm_ExitCode summary)
        @ '').'' @ nl @ nl
        @ backtick @ backtick @ backtick @ nl @ error_details summary scannerStderr @ nl
        @ backtick @ backtick @ backtick @ nl
        @ (if length shown > 0
           then nl @ ''Findings parsed before the failure ('' @ itoa (int (length shown)) @ '' of ''
                @ itoa (int (sm_FindingCount summary)) @ ''):'' @ nl @ nl @ writeTable shown maxRows
           else [])
      else if length shown = 0 \<and> mode = modeFixable \<and> sm_FindingCount summary > 0 then
        ''No fixable vulnerabilities. govulncheck reported ''
        @ plural (sm_FindingCount summary) ''vulnerability'' ''vulnerabilities''
        @ '' without a fixed version.'' @ nl
      else if length shown = 0 then clean_text
      else writeHeadline summary shown mode @ nl @ writeTable shown maxRows @ writeFootnotes shown)"

definition renderMarkdown :: "Summary \<Rightarrow> string \<Rightarrow> string \<Rightarrow> int \<Rightarrow> string" where
  "renderMarkdown summary mode scannerStderr maxRows =
     marker @ nl @ ''## govulncheck'' @ nl @ nl
     @ render_body summary mode scannerStderr maxRows
     @ nl @ ''<sub>govulncheck '' @ fallback (sm_ScannerVersion summary) ''unknown'' @ '' on ''
     @ fallback (sm_GoVersion summary) ''unknown'' @ '', exit code '' @ itoa (sm_ExitCode summary)
     @ ''. The full JSON report is attached to the workflow run as the ''
     @ backtick @ ''vulnerability-check'' @ backtick @ '' artifact.</sub>'' @ nl"

subsection \<open>What a render shows\<close>

lemma escape_no_newline: "CHR 0x0A \<notin> set (escape v)"
  by (auto simp: escape_def Let_def set_replace_char)

text \<open>Every bar of an escaped cell stands behind a backslash.\<close>

fun bars_escaped :: "bool \<Rightarrow> string \<Rightarrow> bool" where
  "bars_escaped prev [] = True"
| "bars_escaped prev (c # cs) =
     ((c = CHR ''|'' \<longrightarrow> prev) \<and> bars_escaped (c = CHR 0x5C) cs)"

lemma bars_escaped_weaken: "bars_escaped False s \<Longrightarrow> bars_escaped b s"
  by (cases s) auto

lemma bars_escaped_replace_bar:
  "bars_escaped b (replace_char (CHR ''|'') [CHR 0x5C, CHR ''|''] v)"
  by (induction v arbitrary: b) auto

lemma bars_escaped_replace_nl: "bars_escaped b v \<Longrightarrow> bars_escaped b (replace_char (CHR 0x0A) '' '' v)"
  by (induction b v rule: bars_escaped.induct) (auto intro: bars_escaped_weaken)

lemma escape_bars: "bars_escaped b (escape v)"
  using bars_escaped_replace_nl [OF bars_escaped_replace_bar [of b v]]
  by (simp add: escape_def Let_def)

lemma code_backticks: "v \<noteq> [] \<Longrightarrow> count_list (code v) (CHR 0x60) = 2"
proof -
  have "CHR 0x60 \<notin> set (replace_char (CHR 0x60) [] v)" by (auto simp: set_replace_char)
  then show "v \<noteq> [] \<Longrightarrow> count_list (code v) (CHR 0x60) = 2"
    by (simp add: code_def count_list_0_iff)
qed

lemma shown_rows_length: "int (length (shown_rows fs m)) = (if m > 0 then min m (int (length fs)) else int (length fs))"
  by (simp add: shown_rows_def)

lemma shown_rows_prefix: "\<exists>rest. fs = shown_rows fs m @ rest"
  by (simp add: shown_rows_def) (metis append_take_drop_id)
















text \<open>The four kinds of body can be told apart by how they begin.\<close>

lemma render_body_clean:
  "render_body summary mode err rows = clean_text \<longleftrightarrow>
     \<not> sm_ScannerError summary \<and> shown_findings summary mode = [] \<and>
     (mode = modeFixable \<longrightarrow> sm_FindingCount summary = 0)"
  by (auto simp: render_body_def clean_text_def Let_def writeHeadline_def plural_def)

subsection \<open>Properties\<close>

text \<open>
  A cell of the table cannot break its row: an escaped text has no line break and every
  bar in it stands behind a backslash, whatever comes before it; it is never empty; and a
  non-empty code span has its two backticks and no other.
\<close>

theorem table_cells_safe:
  "CHR 0x0A \<notin> set (escape v) \<and> bars_escaped prev (escape v) \<and> escape v \<noteq> [] \<and>
   count_list (code v) (CHR 0x60) = (if v = [] then 0 else 2)"
proof -
  have "escape v \<noteq> []" by (simp add: escape_def Let_def)
  then show ?thesis
    using escape_no_newline escape_bars code_backticks [of v] by (simp add: code_def)
qed




text \<open>
  A report says that there are no known vulnerabilities exactly when the scanner worked,
  nothing is shown, and, in the mode that shows only findings with a fix, nothing was found.
\<close>

theorem clean_report_text_iff:
  "renderMarkdown summary mode err rows =
     renderMarkdown (summary\<lparr>sm_ScannerError := False, sm_FindingCount := 0, sm_Findings := []\<rparr>) mode err rows \<longleftrightarrow>
   \<not> sm_ScannerError summary \<and> shown_findings summary mode = [] \<and>
     (mode = modeFixable \<longrightarrow> sm_FindingCount summary = 0)"
proof -
  have "render_body (summary\<lparr>sm_ScannerError := False, sm_FindingCount := 0, sm_Findings := []\<rparr>) mode err rows = clean_text"
    by (simp add: render_body_def shown_findings_def fixableOnly_def)
  then show ?thesis
    unfolding render_body_clean [of summary mode err rows, symmetric] by (simp add: renderMarkdown_def)
qed

end
