(* ===== verification/ReportMain.thy ===== *)
theory ReportMain
  imports Render GoPrelude
begin

text \<open>
  \<open>tools/govulncheck-report/main.go\<close>: the command. Its flags are a record, with the values
  that \<open>flag.Parse\<close> gives; the files and the environment are a part of the world and the
  functions on them an argument.
\<close>

record flags =
  fl_json :: string
  fl_stderr :: string
  fl_exit_file :: string
  fl_mode :: string
  fl_out :: string
  fl_summary :: string
  fl_max_rows :: int
  fl_step_summary :: bool
  fl_github_output :: bool
  fl_fail_on_scanner_error :: bool

record ('w, 'f) os_lib =
  os_ReadFile :: "string \<Rightarrow> ('w, string) lib_call"
  os_Open :: "string \<Rightarrow> ('w, reader) lib_call"     \<comment> \<open>with all there is to read\<close>
  os_WriteFile :: "string \<Rightarrow> string \<Rightarrow> ('w, unit) lib_call"
  os_OpenAppend :: "string \<Rightarrow> ('w, 'f) lib_call"
  os_WriteString :: "'f \<Rightarrow> string \<Rightarrow> ('w, unit) lib_call"
  os_Close :: "'f \<Rightarrow> ('w, unit) lib_call"
  os_Print :: "string \<Rightarrow> 'w \<Rightarrow> 'w"
  os_Getenv :: "string \<Rightarrow> string"
  os_quote :: "string \<Rightarrow> string"
  os_json_err :: "reader \<Rightarrow> string"
  os_order :: "(string \<times> Finding) list \<Rightarrow> (string \<times> Finding) list"

fun num_error_msg :: "num_error \<Rightarrow> string" where
  "num_error_msg ErrSyntax = ''invalid syntax''"
| "num_error_msg ErrRange = ''value out of range''"

definition readExitCode :: "('w, 'f) os_lib \<Rightarrow> string \<Rightarrow> ('w, int) act" where
  "readExitCode os path =
     (if path = [] then ret 0
      else bind_act (wrap_act ''read exit code: '' (lib_act (os_ReadFile os path))) (\<lambda>raw.
        let v = trim_space raw in
        case atoi v of
          Inl e \<Rightarrow> throw (''parse exit code '' @ os_quote os v @ '': strconv.Atoi: parsing '' @ os_quote os v
                     @ '': '' @ num_error_msg e)
        | Inr ec \<Rightarrow> ret ec))"

definition readOptional :: "('w, 'f) os_lib \<Rightarrow> string \<Rightarrow> 'w \<Rightarrow> string \<times> 'w" where
  "readOptional os path w =
     (if path = [] then ([], w)
      else (case os_ReadFile os path w of (Inl e, w') \<Rightarrow> ([], w') | (Inr raw, w') \<Rightarrow> (raw, w')))"

text \<open>After a failed write the deferred \<open>Close\<close> runs; its error is dropped.\<close>

definition appendFile :: "('w, 'f) os_lib \<Rightarrow> string \<Rightarrow> string \<Rightarrow> ('w, unit) act" where
  "appendFile os path content =
     (if path = [] then ret ()
      else bind_act (wrap_act (''open '' @ path @ '': '') (lib_act (os_OpenAppend os path))) (\<lambda>file w.
        case os_WriteString os file content w of
          (Inl e, w1) \<Rightarrow> (Err (''write '' @ path @ '': '' @ e), snd (os_Close os file w1))
        | (Inr _, w1) \<Rightarrow>
            let (r, w2) = lib_act (os_Close os file) w1 in (r, snd (os_Close os file w2))))"

definition show_bool :: "bool \<Rightarrow> string" where
  "show_bool b = (if b then ''true'' else ''false'')"

definition githubOutputs :: "Summary \<Rightarrow> string" where
  "githubOutputs summary =
     ''scanner-error='' @ show_bool (sm_ScannerError summary) @ nl
     @ ''finding-count='' @ itoa (int (sm_FindingCount summary)) @ nl
     @ ''fixable-count='' @ itoa (int (sm_FixableFindingCount summary)) @ nl
     @ ''called-count='' @ itoa (int (sm_CalledFindingCount summary)) @ nl"

subsection \<open>The JSON summary\<close>

definition json_Finding :: "Finding \<Rightarrow> json" where
  "json_Finding f =
     JObj ([(''id'', JStr (fd_ID f)), (''module'', JStr (fd_Module f)), (''version'', JStr (fd_Version f)),
            (''fixedVersion'', JStr (fd_FixedVersion f)), (''reachability'', JStr (fd_Reachability f))]
           @ (if fd_Trace f = [] then [] else [(''trace'', JStr (fd_Trace f))])
           @ [(''summary'', JStr (fd_Summary f))])"

definition json_Summary :: "Summary \<Rightarrow> json" where
  "json_Summary s =
     JObj ([(''scannerError'', JBool (sm_ScannerError s)), (''exitCode'', JNum (itoa (sm_ExitCode s))),
            (''findingCount'', JNum (itoa (int (sm_FindingCount s)))),
            (''fixableFindingCount'', JNum (itoa (int (sm_FixableFindingCount s)))),
            (''calledFindingCount'', JNum (itoa (int (sm_CalledFindingCount s)))),
            (''parseErrors'', JArr (map JStr (sm_ParseErrors s)))]
           @ (if sm_ScannerVersion s = [] then [] else [(''scannerVersion'', JStr (sm_ScannerVersion s))])
           @ (if sm_GoVersion s = [] then [] else [(''goVersion'', JStr (sm_GoVersion s))])
           @ [(''findings'', JArr (map json_Finding (sm_Findings s)))])"

text \<open>\<open>json.MarshalIndent\<close> without a prefix and with an indent of two spaces.\<close>

definition indent :: "nat \<Rightarrow> string" where
  "indent d = nl @ replicate (2 * d) (CHR '' '')"

fun print_indent :: "nat \<Rightarrow> json \<Rightarrow> string"
  and indent_elems :: "nat \<Rightarrow> json list \<Rightarrow> string"
  and indent_members :: "nat \<Rightarrow> (string \<times> json) list \<Rightarrow> string"
where
  "print_indent d (JArr js) =
     (if js = [] then ''[]'' else ''['' @ indent_elems (Suc d) js @ indent d @ '']'')"
| "print_indent d (JObj kvs) =
     (if kvs = [] then ''{}'' else ''{'' @ indent_members (Suc d) kvs @ indent d @ ''}'')"
| "print_indent d JNull = print_json JNull"
| "print_indent d (JBool b) = print_json (JBool b)"
| "print_indent d (JNum l) = print_json (JNum l)"
| "print_indent d (JStr s) = print_json (JStr s)"
| "indent_elems d [] = []"
| "indent_elems d (j # js) =
     indent d @ print_indent d j @ (if js = [] then [] else '','' @ indent_elems d js)"
| "indent_members d [] = []"
| "indent_members d ((k, v) # kvs) =
     indent d @ print_string k @ '': '' @ print_indent d v @ (if kvs = [] then [] else '','' @ indent_members d kvs)"

subsection \<open>The command\<close>

definition when_act :: "bool \<Rightarrow> ('w, unit) act \<Rightarrow> ('w, unit) act" where
  "when_act b m = (if b then m else ret ())"

definition write_markdown :: "('w, 'f) os_lib \<Rightarrow> flags \<Rightarrow> string \<Rightarrow> ('w, unit) act" where
  "write_markdown os fl markdown =
     (if fl_out fl = [] then (\<lambda>w. (Ok (), os_Print os markdown w))
      else wrap_act ''write markdown report: '' (lib_act (os_WriteFile os (fl_out fl) markdown)))"

text \<open>Everything after the analysis: the outputs in the order of the code, then the gate.\<close>

definition report_outputs :: "('w, 'f) os_lib \<Rightarrow> flags \<Rightarrow> Summary \<Rightarrow> string \<Rightarrow> ('w, unit) act" where
  "report_outputs os fl summary markdown =
     bind_act (write_markdown os fl markdown) (\<lambda>_.
     bind_act (when_act (fl_summary fl \<noteq> [])
       (wrap_act ''write summary: '' (lib_act (os_WriteFile os (fl_summary fl)
          (print_indent 0 (json_Summary summary) @ nl))))) (\<lambda>_.
     bind_act (when_act (fl_step_summary fl)
       (appendFile os (os_Getenv os ''GITHUB_STEP_SUMMARY'') markdown)) (\<lambda>_.
     bind_act (when_act (fl_github_output fl)
       (appendFile os (os_Getenv os ''GITHUB_OUTPUT'') (githubOutputs summary))) (\<lambda>_.
       if sm_ScannerError summary \<and> fl_fail_on_scanner_error fl
       then throw (''govulncheck failed before producing a usable report (exit code ''
              @ itoa (sm_ExitCode summary) @ '')'')
       else ret ()))))"

definition report_run :: "('w, 'f) os_lib \<Rightarrow> flags \<Rightarrow> ('w, unit) act" where
  "report_run os fl =
     (if fl_mode fl \<noteq> modeFull \<and> fl_mode fl \<noteq> modeFixable
      then throw (''invalid -mode '' @ os_quote os (fl_mode fl) @ '', want '' @ os_quote os modeFull
             @ '' or '' @ os_quote os modeFixable)
      else
        bind_act (readExitCode os (fl_exit_file fl)) (\<lambda>exitCode.
        bind_act (wrap_act ''open govulncheck report: '' (lib_act (os_Open os (fl_json fl)))) (\<lambda>report w.
          let summary = analyze (os_json_err os) (os_order os) report exitCode;
              (err, w') = readOptional os (fl_stderr fl) w
          in report_outputs os fl summary
               (renderMarkdown summary (fl_mode fl) err (fl_max_rows fl)) w')))"

text \<open>\<open>main\<close>: the exit status, and what is printed to the standard error.\<close>

definition report_main :: "('w, 'f) os_lib \<Rightarrow> flags \<Rightarrow> ('w, nat \<times> string) act" where
  "report_main os fl w =
     (case report_run os fl w of
        (Ok _, w') \<Rightarrow> (Ok (0, []), w')
      | (Err e, w') \<Rightarrow> (Ok (1, ''govulncheck-report: '' @ e @ nl), w')
      | (Panic p, w') \<Rightarrow> (Panic p, w'))"

lemma report_main_0: "report_main os fl w = (Ok (0, e), w') \<longleftrightarrow> report_run os fl w = (Ok (), w') \<and> e = []"
  by (auto simp: report_main_def split: prod.splits res.splits)

subsection \<open>Lemmas\<close>

text \<open>A recorded exit code is read back, with any white space around it.\<close>

lemma readExitCode_Ok_iff:
  "readExitCode os path w = (Ok ec, w') \<longleftrightarrow>
     (path = [] \<and> ec = 0 \<and> w' = w \<or>
      path \<noteq> [] \<and> (\<exists>raw. os_ReadFile os path w = (Inr raw, w') \<and> atoi (trim_space raw) = Inr ec))"
proof (cases "path = []")
  case True
  then show ?thesis by (auto simp: readExitCode_def ret_def)
next
  case False
  then show ?thesis
    by (cases "os_ReadFile os path w"; cases "fst (os_ReadFile os path w)")
       (auto simp: readExitCode_def bind_act_def wrap_act_def lib_act_def Let_def ret_def throw_def
         split: sum.splits)
qed

lemma returns_appendFile: "returns (appendFile os path content)"
  unfolding appendFile_def
  by (auto simp: returns_def bind_act_def wrap_act_def lib_act_def ret_def Let_def is_Panic_iff
      split: prod.splits sum.splits res.splits elim: of_sum.elims)

lemma report_outputs_gate:
  "report_outputs os fl summary markdown w = (Ok u, w') \<Longrightarrow> fl_fail_on_scanner_error fl \<Longrightarrow>
     \<not> sm_ScannerError summary"
  by (auto simp: report_outputs_def bind_act_Ok_iff throw_def split: if_splits)

lemma report_run_OkE:
  assumes "report_run os fl w = (Ok u, w')"
  obtains ec w1 report w2 where "readExitCode os (fl_exit_file fl) w = (Ok ec, w1)"
    and "os_Open os (fl_json fl) w1 = (Inr report, w2)"
    and "report_outputs os fl (analyze (os_json_err os) (os_order os) report ec)
           (renderMarkdown (analyze (os_json_err os) (os_order os) report ec) (fl_mode fl)
             (fst (readOptional os (fl_stderr fl) w2)) (fl_max_rows fl))
           (snd (readOptional os (fl_stderr fl) w2)) = (Ok u, w')"
  using assms
  by (auto simp: report_run_def bind_act_Ok_iff wrap_act_iff lib_act_Ok_iff throw_def Let_def split_beta
      split: if_splits)

subsection \<open>Properties\<close>

text \<open>
  C38. The gate of the workflow: with \<open>-fail-on-scanner-error\<close> the command exits with status 0 only when
  the recorded exit code could be read and the report, with that code, is usable; so a broken
  capture or a failed scanner is never taken for a clean result.
\<close>

theorem report_gate:
  assumes "report_main os fl w = (Ok (0, e), w')" and "fl_fail_on_scanner_error fl"
  shows "\<exists>ec w1 report w2. readExitCode os (fl_exit_file fl) w = (Ok ec, w1) \<and>
    os_Open os (fl_json fl) w1 = (Inr report, w2) \<and>
    \<not> sm_ScannerError (analyze (os_json_err os) (os_order os) report ec)"
  by (rule report_run_OkE [OF conjunct1 [OF assms(1) [unfolded report_main_0]]], drule report_outputs_gate [OF _ assms(2)]) blast

text \<open>An operating system with one file, that writes all output to a log.\<close>

definition demo_os :: "string \<Rightarrow> (string, unit) os_lib" where
  "demo_os content =
     \<lparr>os_ReadFile = (\<lambda>p w. (Inr content, w)), os_Open = (\<lambda>p w. (Inr (content, None), w)),
      os_WriteFile = (\<lambda>p c w. (Inr (), w @ c)), os_OpenAppend = (\<lambda>p w. (Inr (), w)),
      os_WriteString = (\<lambda>f c w. (Inr (), w @ c)), os_Close = (\<lambda>f w. (Inr (), w)),
      os_Print = (\<lambda>s w. w @ s), os_Getenv = (\<lambda>v. []), os_quote = id, os_json_err = fst, os_order = id\<rparr>"

definition demo_flags :: flags where
  "demo_flags =
     \<lparr>fl_json = ''govulncheck.json'', fl_stderr = [], fl_exit_file = [], fl_mode = ''full'', fl_out = [],
      fl_summary = [], fl_max_rows = 50, fl_step_summary = True, fl_github_output = True,
      fl_fail_on_scanner_error = True\<rparr>"

definition demo_stream :: string where
  "demo_stream =
     ''{'' @ [CHR 0x22] @ ''config'' @ [CHR 0x22] @ '':{'' @ [CHR 0x22] @ ''go_version'' @ [CHR 0x22] @ '':'' @
     [CHR 0x22] @ ''go1.27'' @ [CHR 0x22] @ ''}}''"

lemma demo_stream_usable: "\<not> sm_ScannerError (analyze fst id (demo_stream, None) 0)"
  by code_simp

lemma report_gate_witness:
  "\<exists>w'. report_main (demo_os demo_stream) demo_flags [] = (Ok (0, []), w') \<and>
     (\<exists>ec w1 report w2. readExitCode (demo_os demo_stream) [] [] = (Ok ec, w1) \<and>
        os_Open (demo_os demo_stream) (fl_json demo_flags) w1 = (Inr report, w2) \<and>
        \<not> sm_ScannerError (analyze fst id report ec))"
proof -
  have f: "fl_mode demo_flags = modeFull" "fl_exit_file demo_flags = []" "fl_stderr demo_flags = []"
    "fl_out demo_flags = []" "fl_summary demo_flags = []" "fl_step_summary demo_flags" "fl_github_output demo_flags"
    "fl_fail_on_scanner_error demo_flags"
    by (simp_all add: demo_flags_def modeFull_def)
  have o: "os_Open (demo_os c) p w = (Inr (c, None), w)" "os_Getenv (demo_os c) v = []" "os_Print (demo_os c) x w = w @ x"
    "os_json_err (demo_os c) = fst" "os_order (demo_os c) = id" for c p w v x
    by (simp_all add: demo_os_def)
  have "report_outputs (demo_os demo_stream) demo_flags (analyze fst id (demo_stream, None) 0) md w = (Ok (), w @ md)" for md w
    by (simp add: report_outputs_def write_markdown_def when_act_def appendFile_def bind_act_def ret_def f o
        demo_stream_usable)
  then have r: "\<exists>w'. report_run (demo_os demo_stream) demo_flags [] = (Ok (), w')"
    by (simp add: report_run_def readExitCode_def readOptional_def bind_act_def wrap_act_def lib_act_def ret_def f o Let_def)
  then obtain w' where w': "report_main (demo_os demo_stream) demo_flags [] = (Ok (0, []), w')"
    by (auto simp: report_main_0)
  from report_gate [OF w' f(8)] w' show ?thesis by (simp add: f(2) o(4,5))
qed

end
