(* ===== verification/Spec2Isabelle.thy ===== *)
theory Spec2Isabelle
  imports ProgramRun ReportMain
begin

text \<open>
  \<^bold>\<open>harbor-scanner-clair\<close>: an adapter between Harbor and the vulnerability scanner Clair, and the
  command \<open>govulncheck-report\<close> of its build. This library models the Go code under \<open>src/\<close> and
  states what makes it correct.

  \<^bold>\<open>How the program works.\<close> Harbor asks the REST API (\<open>pkg/http/api\<close>) for a scan. The handler checks
  the request, and the enqueuer (\<open>pkg/scanner/enqueuer.go\<close>) writes a pending job to Redis
  (\<open>pkg/persistence/redis\<close>), hands a worker to the work pool (\<open>pkg/work\<close>) and answers with the
  identifier of the job. The worker (\<open>pkg/scanner/worker.go\<close>) marks the job as running, lets the
  adapter (\<open>pkg/scanner/adapter.go\<close>) scan the image, and stores the report and the final status.
  The adapter fetches the manifest from the registry (\<open>pkg/registry\<close>), turns it into Clair's
  layers (\<open>pkg/scanner/transformer.go\<close>), sends them to Clair one after the other
  (\<open>pkg/clair\<close>) and turns Clair's answer for the last one into Harbor's report. Harbor polls the
  report of the job by its identifier. \<open>cmd/harbor-scanner-clair/main.go\<close> builds all this from the
  environment (\<open>pkg/etc\<close>, \<open>pkg/redisx\<close>) and shuts it down on a signal.

  \<^bold>\<open>Conventions.\<close> A Go string is a list of bytes, an \<open>error\<close> its text, since the program looks at
  nothing else of it. A function that can fail or panic gives a \<open>res\<close>: \<open>Ok\<close>, \<open>Err\<close> or \<open>Panic\<close>; one
  with effects is an action \<open>('w, 'a) act\<close> from a world to a result and a world. The world is a
  type variable: what it holds is known through the library functions that the definitions take
  as arguments (\<open>redigo\<close>, \<open>net/http\<close>, \<open>url.Parse\<close> and \<open>url.ParseRequestURI\<close>, \<open>gorilla/mux\<close>, the
  manifest parser of \<open>distribution\<close>, \<open>database/sql\<close> and \<open>dburl\<close>, \<open>env.Parse\<close>, \<open>crypto/x509\<close>,
  \<open>uuid\<close>, \<open>sentinel\<close>, the files and variables that \<open>os\<close> reads, and the texts of the errors of
  \<open>encoding/json\<close>). Go ranges over a map in no fixed order, so a function that does takes the
  order as an argument. Go's standard library is modelled where the outcome depends on it: UTF-8,
  \<open>strings\<close> and \<open>strconv\<close>, JSON, RFC 3339 times, SHA-256. Log messages are left out.

  \<^bold>\<open>Theories.\<close>

  \<^item> \<open>GoPrelude\<close>: results, actions, \<open>bind_act\<close> and how a bound action can end; \<open>returns\<close> (never
    panics) and \<open>keeps\<close> (takes a world to a related one only); sorting and maps as entry lists.
  \<^item> \<open>GoUtf8\<close>, \<open>GoStrings\<close>, \<open>GoTime\<close>, \<open>GoTimeRound\<close>, \<open>GoJson\<close>, \<open>GoDecode\<close>, \<open>GoHttp\<close>, \<open>Sha256\<close>: the
    standard library. The lemmas are round trips: decoding after encoding of runes, parsing after
    printing of numbers, times and JSON values.
  \<^item> \<open>HarborModel\<close> (\<open>pkg/harbor/model.go\<close>), \<open>Job\<close> (\<open>pkg/job/job.go\<close>), \<open>ClairModel\<close>
    (\<open>pkg/clair/model.go\<close>): the data with its JSON form; what is stored decodes to what was stored.
  \<^item> \<open>Etc\<close> (\<open>pkg/etc/config.go\<close>) and \<open>RedisPool\<close> (\<open>pkg/redisx/pool.go\<close>): the configuration, and the
    Redis pool it makes. Durations are nanoseconds, and the seconds of an expiry are those of
    \<open>Duration.Seconds\<close>, a division in \<open>float64\<close> that is written out in units of \<open>2^-90\<close> seconds.
  \<^item> \<open>RedisStore\<close> (\<open>pkg/persistence/store.go\<close>, \<open>pkg/persistence/redis/store.go\<close>): the store of jobs.
    \<open>RedisContract\<close> states the laws of a Redis server (locale \<open>redis_server\<close>), the contract of the
    store (locale \<open>scan_store\<close>: every operation as a change of a map from identifiers to jobs with
    an expiry), and that the code meets it (\<open>redis_store\<close>, a sublocale). \<open>MemRedis\<close> is a server in
    memory on which the laws hold and the code runs.
  \<^item> \<open>RegistryClient\<close> (\<open>pkg/registry/client.go\<close>), \<open>ClairClient\<close> (\<open>pkg/clair/client.go\<close>): the two
    clients, with the status codes they accept and the errors they return.
  \<^item> \<open>Transformer\<close> (\<open>pkg/scanner/transformer.go\<close>), \<open>Adapter\<close> (\<open>pkg/scanner/adapter.go\<close>), \<open>Worker\<close>
    (\<open>pkg/scanner/worker.go\<close>, \<open>pkg/scanner/enqueuer.go\<close>): the scan. The lemmas about a task are
    proved in \<open>scan_store\<close>, once for every store that keeps the contract, by the law of one
    operation at a time (\<open>step_ok\<close>).
  \<^item> \<open>Interleave\<close>: many scans at once. \<open>task_step\<close> is \<open>Task\<close> cut into its commands to Redis and its
    call of the adapter (\<open>read_half\<close> and \<open>write_half\<close> are the two commands of an update), and
    \<open>service_next\<close> lets the tasks, the handlers that enqueue and those that read take turns in any
    order, with crashes and restarts; its invariant \<open>service_ok\<close> is proved by rule induction in
    \<open>redis_store\<close>. \<open>task_steps\<close> shows that the steps of a task left alone are \<open>Task\<close>. The call of
    the adapter is one step, since it touches no job: what two scans ask of the registry and of
    Clair is not interleaved.
  \<^item> \<open>DemoRun\<close> and \<open>ProgramRun\<close>: runs of the code on \<open>MemRedis\<close>, the second of the whole program from
    its configuration to the stored report, with Clair's answer read from its JSON.
  \<^item> \<open>BaseHandler\<close>, \<open>ApiHandler\<close>, \<open>Server\<close> (\<open>pkg/http/api\<close>): responses, the handlers, the routes,
    and the HTTP server.
  \<^item> \<open>WorkPool\<close> (\<open>pkg/work/work.go\<close>), \<open>System\<close> (\<open>main.go\<close>): the pool and the life of the process as
    transition systems, executable (\<open>pool_event\<close>, \<open>life_next\<close>) and as reachability; \<open>process_next\<close>
    adds the ways in which the process ends at once (listening fails, a handler calls \<open>log.Fatal\<close>,
    a task panics); \<open>build\<close> puts the parts together, and \<open>app_leaves_jobs\<close> shows what the properties of tasks ask of an adapter.
  \<^item> \<open>Report\<close>, \<open>Render\<close>, \<open>ReportMain\<close> (\<open>tools/govulncheck-report\<close>): the analysis of govulncheck's
    output, its markdown, and the command.

  \<^bold>\<open>Fuel and termination.\<close> The JSON parser recurses under fuel: \<open>parse_first\<close> gives it one more than
    twice the length of the input, and \<open>parse_value_fuel\<close> shows that more fuel never changes its
    answer. Like Go's it refuses a text that nests more than \<open>max_depth\<close> (10000) levels, and so that
    much fuel is enough for the mutual structs of Clair's model (a feature has vulnerabilities,
    which have the features that fix them). \<open>read_messages\<close> of \<open>Report\<close> ends because each message it
    reads is a part of the input that is not empty.

  \<^bold>\<open>Where a hypothesis stands.\<close> \<open>redis_server\<close> states what Redis documents of \<open>SET\<close> with \<open>NX\<close>,
    \<open>XX\<close>, \<open>EX\<close> and of \<open>GET\<close>, with every command free to fail; \<open>leaves_jobs\<close> says that a scan does not
    itself write to the jobs in Redis, and that the time of its report prints. For the adapter of
    this program the second is proved (\<open>app_leaves_jobs\<close>) from the same fact about the HTTP library
    and the clock. Every property with a hypothesis is followed by a run on \<open>MemRedis\<close> or another
    concrete instance.

  \<^bold>\<open>The pool seen from the enqueuer.\<close> \<open>Pool.Run\<close> blocks until a dispatcher takes the task. In \<open>Enqueue\<close>
    it is an argument, the action \<open>en_run\<close>; in \<open>WorkPool\<close> and \<open>System\<close> it is the event \<open>CallRun\<close>, with
    the caller blocked until \<open>Handoff\<close>. A task that panics ends the process: no event follows
    (\<open>TaskPanics\<close> of \<open>process_next\<close>, and a stage \<open>Crashed\<close> in \<open>Interleave\<close>).

  \<^bold>\<open>Not modelled.\<close> The mocks (\<open>pkg/mock\<close>), the Helm chart, the container image, the workflows and the
    tests; logging; the build variables \<open>version\<close>, \<open>commit\<close>, \<open>date\<close>. The layouts other than RFC 3339
    that Go accepts for a time as a fallback; and a time is read from the text of its JSON string,
    where Go reads it before escapes are undone: the program reads back only the times it printed,
    and these have no escapes and parse at once (\<open>parse_format\<close>). The JSON form of the features of a layer, which the
    program never prints: it is an argument. How \<open>gorilla/mux\<close> matches a path with a route: the
    routes are data, with the variables of the path in the request.
\<close>

subsection \<open>Shared lemmas of the properties\<close>

lemma worker_iface:
  assumes "redis_server (pool s) db clock"
  shows "scan_worker s ad i req =
    \<lparr>wk_store = scan_store.store_iface (Create s) (Get s) (UpdateStatus s) (UpdateReport s),
     wk_adapter = ad, wk_jobID = i, wk_request = req\<rparr>"
  by (simp add: scan_worker_def NewStore_def scan_store.store_iface_def [OF redis_contract [OF assms]])

lemma frame_of_leaves:
  assumes "redis_server (pool s) db clock" and "leaves_jobs db clock ad"
  shows "scan_store.adapter_frame (jobs_of s db) (jobs_ok s db) clock ad"
  unfolding scan_store.adapter_frame_def [OF redis_contract [OF assms(1)]]
  using assms(2) by (simp add: leaves_jobs_def jobs_of_def jobs_ok_def)

lemma all_job_now:
  assumes "redis_server (pool s) db clock"
  shows "scan_store.all_job (jobs_of s db) clock P i w \<longleftrightarrow> (\<forall>j. job_now s db clock w i = Some j \<longrightarrow> P j)"
  by (simp add: scan_store.all_job_def [OF redis_contract [OF assms]] job_now_def
      scan_store.job_at_def [OF redis_contract [OF assms]])

lemma scan_result:
  assumes "redis_server (pool s) db clock" and "leaves_jobs db clock ad" and "jobs_ok s db w"
    and "scan (scan_worker s ad i req) w = (Ok u, w')" and "job_now s db clock w' i = Some j'"
  shows "\<exists>j rep w1 w2. job_now s db clock w i = Some j \<and> ad req w1 = (Ok rep, w2) \<and>
    j' = j\<lparr>job_Status := Finished, job_Report := stored_report rep\<rparr>"
proof -
  note c = redis_contract [OF assms(1)]
  have "scan_store.job_at (jobs_of s db) clock w' i = Some j'"
    using assms(5) by (simp add: scan_store.job_at_def [OF c] job_now_def)
  from scan_store.scan_ok [OF c frame_of_leaves [OF assms(1,2)] assms(3) assms(4) [unfolded worker_iface [OF assms(1)]] this]
  show ?thesis
    by (fastforce simp: scan_store.job_at_def [OF c] job_now_def with_status_def with_report_def)
qed

subsection \<open>Properties of a task\<close>

text \<open>
  C4. A job never claims to be finished without its report. Whatever happens while a task runs
  (commands that fail, an adapter that fails or panics, a job that expires), when the job was
  not finished before and is live and finished after, then its report is one that the adapter
  returned for the request of the task, as the store keeps it.
\<close>

theorem finished_has_report:
  assumes "redis_server (pool s) db clock" and "leaves_jobs db clock ad" and "jobs_ok s db w"
    and "\<And>j. job_now s db clock w i = Some j \<Longrightarrow> job_Status j \<noteq> Finished"
    and "Task (scan_worker s ad i req) w = (r, w')"
    and "job_now s db clock w' i = Some j'" and "job_Status j' = Finished"
  shows "\<exists>rep w1 w2. ad req w1 = (Ok rep, w2) \<and> job_Report j' = stored_report rep"
proof -
  note c = redis_contract [OF assms(1)]
  have start: "scan_store.all_job (jobs_of s db) clock (scan_store.reported ad req) i w"
    using assms(4) by (simp add: all_job_now [OF assms(1)] scan_store.reported_def [OF c])
  have "scan_store.all_job (jobs_of s db) clock (scan_store.reported ad req) i w'"
    using scan_store.task_reported [OF c frame_of_leaves [OF assms(1,2)] assms(3) start
        assms(5) [unfolded worker_iface [OF assms(1)]]] by simp
  with assms(6,7) show ?thesis
    by (auto simp: all_job_now [OF assms(1)] scan_store.reported_def [OF c])
qed

lemma finished_has_report_witness:
  "\<exists>rep w1 w2. demo_scan zero_ScanRequest w1 = (Ok rep, w2) \<and> job_Report demo_finished = stored_report rep"
  by (rule finished_has_report [OF mem_server demo_leaves demo_now(4) _ demo_task_run [unfolded demo_worker_def]])
     (auto simp: Pending_def Finished_def)

text \<open>
  C5. What a scan that succeeds leaves behind: if the job is still live then, it is the job as it
  was before, now finished and with the report that the adapter returned for the request.
\<close>

theorem successful_scan_result:
  assumes "redis_server (pool s) db clock" and "leaves_jobs db clock ad" and "jobs_ok s db w"
    and "scan (scan_worker s ad i req) w = (Ok u, w')" and "job_now s db clock w' i = Some j'"
  shows "\<exists>j rep w1 w2. job_now s db clock w i = Some j \<and> ad req w1 = (Ok rep, w2) \<and>
    j' = j\<lparr>job_Status := Finished, job_Report := stored_report rep\<rparr>"
  by (rule scan_result [OF assms])

lemma successful_scan_result_witness:
  "\<exists>j rep w1 w2. job_now hour_store m_db m_clock (one_job demo_job 0 3600000) ''job-1'' = Some j \<and>
     demo_scan zero_ScanRequest w1 = (Ok rep, w2) \<and>
     demo_finished = j\<lparr>job_Status := Finished, job_Report := stored_report rep\<rparr>"
  by (rule successful_scan_result [OF mem_server demo_leaves demo_now(4) demo_scan_run [unfolded demo_worker_def]]) simp

text \<open>
  C11. What a scan that fails leaves behind: once the task could write it and the job is still
  live, its status is failed and its error is the text of the error of the scan.
\<close>

theorem failed_scan_result:
  assumes "redis_server (pool s) db clock" and "leaves_jobs db clock ad" and "jobs_ok s db w"
    and "scan (scan_worker s ad i req) w = (Err e, w1)"
    and "UpdateStatus s i Failed [e] w1 = (Ok u, w')" and "job_now s db clock w' i = Some j'"
  shows "Task (scan_worker s ad i req) w = (Ok (), w') \<and> job_Status j' = Failed \<and> job_Error j' = sanitise e"
proof -
  note c = redis_contract [OF assms(1)]
  have "scan_store.job_at (jobs_of s db) clock w' i = Some j'"
    using assms(6) by (simp add: scan_store.job_at_def [OF c] job_now_def)
  with scan_store.scan_keeps_ok [OF c frame_of_leaves [OF assms(1,2)] assms(3) assms(4) [unfolded worker_iface [OF assms(1)]]]
  have "job_Status j' = Failed \<and> job_Error j' = sanitise e"
    using scan_store.failed_status [OF c _ assms(5)] by blast
  moreover have "Task (scan_worker s ad i req) w = (Ok (), w')"
    using assms(4,5) by (simp add: Task_def) (simp add: scan_worker_def NewStore_def)
  ultimately show ?thesis by blast
qed

lemma failed_scan_result_witness:
  "Task (scan_worker hour_store refused_scan ''job-1'' zero_ScanRequest) (one_job demo_job 0 3600000) =
     (Ok (), one_job demo_failed 4 3600003) \<and>
   job_Status demo_failed = Failed \<and> job_Error demo_failed = sanitise ''refused''"
  by (rule failed_scan_result [OF mem_server refused_leaves demo_now(4) demo_refused_scan demo_refused_update]) simp

text \<open>
  C8. A task can bring the process down in two ways only: the adapter panics, or the job is not
  in the store any more, where the update dereferences the nil it read; an error of the store,
  the registry or Clair never does.
\<close>

theorem task_panics_only_if:
  assumes "redis_server (pool s) db clock" and "leaves_jobs db clock ad" and "jobs_ok s db w"
    and "Task (scan_worker s ad i req) w = (Panic p, w')"
  shows "(\<exists>w1. ad req w1 = (Panic p, w')) \<or> job_now s db clock w' i = None"
  using scan_store.task_panic [OF redis_contract [OF assms(1)] frame_of_leaves [OF assms(1,2)] assms(3)
      assms(4) [unfolded worker_iface [OF assms(1)]]]
  by (simp add: scan_store.job_at_def [OF redis_contract [OF assms(1)]] job_now_def)

lemma task_panics_only_if_witness:
  "Task demo_worker (one_job demo_job 5 3) = (Panic NilDereference, one_job demo_job 6 3) \<and>
   job_now hour_store m_db m_clock (one_job demo_job 6 3) ''job-1'' = None"
proof -
  have t: "Task demo_worker (one_job demo_job 5 3) = (Panic NilDereference, one_job demo_job 6 3)"
    by (simp add: Task_def scan_def demo_worker_def scan_worker_def NewStore_def bind_act_def demo_late)
  have "\<not> (\<exists>w1. demo_scan zero_ScanRequest w1 = (Panic NilDereference, one_job demo_job 6 3))"
    by (simp add: demo_scan_def)
  with t task_panics_only_if [OF mem_server demo_leaves demo_now(4) t [unfolded demo_worker_def]] show ?thesis by blast
qed

subsection \<open>Properties of a request\<close>

text \<open>
  C6. A finished scan is served. When the scan of a job succeeded and the job is still live when
  its report is asked for, the answer is status 200 with the JSON form of the adapter's report,
  unless reading the store failed, which is answered with 500.
\<close>

theorem report_served_after_scan:
  assumes "redis_server (pool s) db clock" and "leaves_jobs db clock ad" and "jobs_ok s db w"
    and "scan (scan_worker s ad i req) w = (Ok u, w')"
    and "h_store h = NewStore s" and "in_Vars rq pathVarScanRequestID = Some i"
    and "GetScanReport lib h rq (new_response False) w' = (Ok res, w'')" and "job_now s db clock w'' i \<noteq> None"
  shows "(\<exists>e. Get s i w' = (Err e, w'') \<and> status_of res = Some 500) \<or>
    (\<exists>rep w1 w2 j. ad req w1 = (Ok rep, w2) \<and> json_ScanReport (stored_report rep) = Some j \<and>
       status_of res = Some 200 \<and> rw_body res = print_json j @ [CHR 0x0A])"
proof -
  note c = redis_contract [OF assms(1)]
  let ?r0 = "new_response False"
  have r0: "rw_sent ?r0 = None" "rw_body ?r0 = []" "\<not> rw_broken ?r0" by (simp_all add: new_response_def)
  have ok: "jobs_ok s db w'"
    by (rule scan_store.scan_keeps_ok [OF c frame_of_leaves [OF assms(1,2)] assms(3) assms(4) [unfolded worker_iface [OF assms(1)]]])
  obtain x w1 where g: "Get s i w' = (x, w1)" by fastforce
  have g': "Get_of (h_store h) i w' = (x, w1)" using g by (simp add: assms(5) NewStore_def)
  have w1: "w1 = w''"
    using assms(6,7) g' by (cases x) (auto simp: GetScanReport_def split: option.splits)
  have now: "scan_store.job_at (jobs_of s db) clock w1 i \<noteq> None"
    using assms(8) by (simp add: scan_store.job_at_def [OF c] job_now_def w1)
  from scan_store.get_returns [OF c ok g now] show ?thesis
  proof
    assume "\<exists>e. x = Err e"
    with g g' w1 assms(6,7) r0(1) show ?thesis by (auto simp: GetScanReport_def)
  next
    assume x: "x = Ok (scan_store.job_at (jobs_of s db) clock w' i)"
    have "jobs_of s db w1 = jobs_of s db w' \<and> clock w' \<le> clock w1"
      using scan_store.get_law [OF c ok g] by auto
    with assms(8) w1 obtain j' where j': "job_now s db clock w' i = Some j'"
      by (auto simp: job_now_def dest: live_mono)
    from scan_result [OF assms(1-4) j'] obtain j rep v1 v2 where
      rep: "ad req v1 = (Ok rep, v2)" "j' = j\<lparr>job_Status := Finished, job_Report := stored_report rep\<rparr>" by blast
    have "valid_time (rep_GeneratedAt rep)" using assms(2) rep(1) by (auto simp: leaves_jobs_def)
    then have "json_ScanReport (stored_report rep) \<noteq> None"
      by (auto simp: json_ScanReport_def elim: valid_time_json)
    then obtain k where k: "json_ScanReport (stored_report rep) = Some k" by blast
    have "Get_of (h_store h) i w' = (Ok (Some j'), w1)"
      using g' x j' by (simp add: scan_store.job_at_def [OF c] job_now_def)
    then have "res = WriteJSON (al_order lib) (Some k) MimeTypeScanReport 200 ?r0"
      using assms(6,7) rep(2) k by (simp add: GetScanReport_def status_defs)
    then have "status_of res = Some 200 \<and> rw_body res = print_json k @ [CHR 0x0A]"
      using r0 by (simp add: WriteJSON_body)
    with rep(1) k show ?thesis by blast
  qed
qed

lemma report_served_after_scan_witness:
  fixes h :: "mem requestHandler"
  defines "h \<equiv> \<lparr>h_clair = \<lparr>ScanLayer_of = (\<lambda>l. ret ()), GetLayer_of = (\<lambda>n. ret zero_LayerEnvelope),
                GetVulnerabilityDatabaseUpdatedAt_of = ret None\<rparr>,
      h_enqueue = (\<lambda>sr. ret ''job-1''), h_store = NewStore hour_store\<rparr>"
  shows "\<exists>res j. GetScanReport demo_api h (demo_in []) (new_response False) (one_job demo_finished 6 3600005) =
      (Ok res, one_job demo_finished 7 3600005) \<and> json_ScanReport demo_report = Some j \<and>
    status_of res = Some 200 \<and> rw_body res = print_json j @ [CHR 0x0A]"
proof -
  have g: "Get hour_store ''job-1'' (one_job demo_finished 6 3600005) = (Ok (Some demo_finished), one_job demo_finished 7 3600005)"
    using one_job_Get [of demo_finished 6 3600005] by simp
  have v: "in_Vars (demo_in []) pathVarScanRequestID = Some ''job-1''"
    by (simp add: demo_in_def pathVarScanRequestID_def)
  have h: "h_store h = NewStore hour_store" by (simp add: h_def)
  obtain res where a: "GetScanReport demo_api h (demo_in []) (new_response False) (one_job demo_finished 6 3600005) =
      (Ok res, one_job demo_finished 7 3600005)"
    using g v by (simp add: GetScanReport_def h NewStore_def)
  from report_served_after_scan [OF mem_server demo_leaves demo_now(4) demo_scan_run [unfolded demo_worker_def] h v a]
  have "\<exists>rep w1 w2 j. demo_scan zero_ScanRequest w1 = (Ok rep, w2) \<and> json_ScanReport (stored_report rep) = Some j \<and>
       status_of res = Some 200 \<and> rw_body res = print_json j @ [CHR 0x0A]"
    using g by simp
  with a show ?thesis by (auto simp: demo_scan_def)
qed

text \<open>
  C12. A job exists before its task does. When enqueuing succeeds, the worker is handed to the
  pool in a world where the store holds the pending job under the identifier that is returned,
  fresh for the whole expiry, with all other jobs as they were; and the worker has that
  identifier and the request.
\<close>

theorem enqueued_job_is_pending:
  assumes "redis_server (pool s) db clock" and "jobs_ok s db w0"
    and "uuid w = (i, w0)" and "valid_utf8 i" and "jobs_of s db w0 i = None"
    and "Enqueue uuid \<lparr>en_store = NewStore s, en_run = run, en_adapter = ad\<rparr> req w = (Ok i', w')"
  shows "\<exists>w1 t. i' = i \<and> run (scan_worker s ad i req) w1 = (Ok (), w') \<and> jobs_ok s db w1 \<and>
    clock w0 \<le> t \<and> t \<le> clock w1 \<and> jobs_of s db w1 = (jobs_of s db w0)(i \<mapsto> (pending_job i, t + 1000 * ttl_of s))"
proof -
  from assms(6) [unfolded Enqueue_Ok_iff] assms(3) obtain w1 where i: "i' = i"
    and cr: "Create s (pending_job i) w0 = (Ok (), w1)"
    and rn: "run (scan_worker s ad i req) w1 = (Ok (), w')"
    by (auto simp: NewStore_def scan_worker_def)
  have id: "job_ID (pending_job i) = i" by (simp add: pending_job_def)
  have "live t (jobs_of s db w0) i = None" for t using assms(5) by (simp add: live_def)
  with scan_store.create_law [OF redis_contract [OF assms(1)] assms(2) storable_pending _ cr] assms(4) id
  obtain t where "jobs_ok s db w1" "clock w0 \<le> t" "t \<le> clock w1"
    "jobs_of s db w1 = (jobs_of s db w0)(i \<mapsto> (pending_job i, t + 1000 * ttl_of s))"
    by (auto simp: set_effect_def stored_pending)
  with i rn show ?thesis by blast
qed

lemma enqueued_job_is_pending_witness:
  "\<exists>w' t. Enqueue (\<lambda>w. (''job-1'', w)) \<lparr>en_store = NewStore hour_store, en_run = (\<lambda>wk. ret ()), en_adapter = demo_scan\<rparr>
      zero_ScanRequest (mem_world []) = (Ok ''job-1'', w') \<and>
    jobs_of hour_store m_db w' ''job-1'' = Some (pending_job ''job-1'', t + 3600000)"
proof -
  let ?e = "Enqueue (\<lambda>w. (''job-1'', w)) \<lparr>en_store = NewStore hour_store, en_run = (\<lambda>wk. ret ()), en_adapter = demo_scan\<rparr>
      zero_ScanRequest (mem_world [])"
  have e: "?e = (Ok ''job-1'', one_job demo_job 1 3600000)" by (rule demo_submit)
  have n: "jobs_of hour_store m_db (mem_world []) ''job-1'' = None"
    by (simp add: jobs_of_def entry_of_def mem_world_def)
  have ok: "jobs_ok hour_store m_db (mem_world [])" by (simp add: jobs_ok_def)
  from enqueued_job_is_pending [OF mem_server ok refl demo_job(4) n e]
  have "\<exists>t. jobs_of hour_store m_db (one_job demo_job 1 3600000) ''job-1'' = Some (pending_job ''job-1'', t + 3600000)"
    by (auto simp: ret_def)
  with e show ?thesis by blast
qed

subsection \<open>Properties of many scans at once\<close>

lemma service_state:
  assumes "redis_server (pool s) db clock" and "leaves_jobs db clock ad" and "jobs_ok s db w0"
    and "\<And>i. job_now s db clock w0 i = None" and "reachable_service s ad w0 sv"
  shows "jobs_ok s db (se_world sv)"
    and "job_now s db clock (se_world sv) i = Some j \<Longrightarrow> \<exists>req. se_requests sv i = Some req \<and>
      (job_Status j = Finished \<longrightarrow> (\<exists>rep w1 w2. ad req w1 = (Ok rep, w2) \<and> job_Report j = stored_report rep))"
  using redis_store.reachable_jobs [OF _ assms(2-5)] assms(1) by (simp_all add: redis_store_def)

text \<open>
  C3. Scans do not mix. However the commands that many tasks, the handlers that enqueue and those
  that read send to Redis are ordered, also between the read and the write of one update, with
  failing commands, expiring jobs, crashes and restarts of the process: a job that is live was
  requested, and if it is finished, its report is one that the adapter returned for the request
  of that very job.
\<close>

theorem interleaved_reports:
  assumes "redis_server (pool s) db clock" and "leaves_jobs db clock ad" and "jobs_ok s db w0"
    and "\<And>i. job_now s db clock w0 i = None" and "reachable_service s ad w0 sv"
    and "job_now s db clock (se_world sv) i = Some j"
  shows "\<exists>req. se_requests sv i = Some req \<and>
    (job_Status j = Finished \<longrightarrow> (\<exists>rep w1 w2. ad req w1 = (Ok rep, w2) \<and> job_Report j = stored_report rep))"
  by (rule service_state(2) [OF assms(1-5,6)])

lemma interleaved_reports_witness:
  "\<exists>req rep w1 w2. se_requests demo_state ''job-1'' = Some req \<and> demo_scan req w1 = (Ok rep, w2) \<and>
     job_Report demo_finished = stored_report rep"
proof -
  have n: "job_now hour_store m_db m_clock (se_world demo_state) ''job-1'' = Some demo_finished"
    by (simp add: demo_state_def)
  from interleaved_reports [OF mem_server demo_leaves demo_start demo_reachable n] show ?thesis by simp
qed

text \<open>
  C2. What a client is served while all this goes on: an answer with status 200 to a request for
  a report has the JSON form of a report that the adapter returned for the request that was
  made under this identifier.
\<close>

theorem served_report_is_own:
  assumes "redis_server (pool s) db clock" and "leaves_jobs db clock ad" and "jobs_ok s db w0"
    and "\<And>i. job_now s db clock w0 i = None" and "reachable_service s ad w0 sv"
    and "h_store h = NewStore s" and "in_Vars rq pathVarScanRequestID = Some i"
    and "GetScanReport lib h rq (new_response False) (se_world sv) = (Ok res, w')" and "status_of res = Some 200"
  shows "\<exists>req rep w1 w2 k. se_requests sv i = Some req \<and> ad req w1 = (Ok rep, w2) \<and>
    json_ScanReport (stored_report rep) = Some k \<and> rw_body res = print_json k @ [CHR 0x0A]"
proof -
  note c = redis_contract [OF assms(1)]
  note inv = service_state [OF assms(1-5)]
  let ?r0 = "new_response False" and ?w = "se_world sv"
  have r0: "rw_sent ?r0 = None" "rw_body ?r0 = []" "\<not> rw_broken ?r0" by (simp_all add: new_response_def)
  obtain x w1 where g: "Get s i ?w = (x, w1)" by fastforce
  then have g': "Get_of (h_store h) i ?w = (x, w1)" by (simp add: assms(6) NewStore_def)
  from assms(7-9) g' r0 obtain j where x: "x = Ok (Some j)" and fin: "job_Status j = Finished"
    and res: "res = WriteJSON (al_order lib) (json_ScanReport (job_Report j)) MimeTypeScanReport 200 ?r0"
    by (cases x) (auto simp: GetScanReport_def split: option.splits if_splits)
  have "job_now s db clock ?w i = Some j"
    using scan_store.get_job_at(1) [OF c inv(1) g [unfolded x]] by (simp add: scan_store.job_at_def [OF c] job_now_def)
  from inv(2) [OF this] fin obtain req rep v1 v2 where own: "se_requests sv i = Some req" "ad req v1 = (Ok rep, v2)"
    "job_Report j = stored_report rep"
    by blast
  have "valid_time (rep_GeneratedAt rep)" using assms(2) own(2) by (auto simp: leaves_jobs_def)
  then obtain k where k: "json_ScanReport (stored_report rep) = Some k"
    by (auto simp: json_ScanReport_def elim: valid_time_json)
  with own res r0 show ?thesis by (auto simp: WriteJSON_body)
qed

lemma served_report_is_own_witness:
  fixes h :: "mem requestHandler"
  defines "h \<equiv> \<lparr>h_clair = \<lparr>ScanLayer_of = (\<lambda>l. ret ()), GetLayer_of = (\<lambda>n. ret zero_LayerEnvelope),
                GetVulnerabilityDatabaseUpdatedAt_of = ret None\<rparr>,
      h_enqueue = (\<lambda>sr. ret ''job-1''), h_store = NewStore hour_store\<rparr>"
  shows "\<exists>res k. GetScanReport demo_api h (demo_in []) (new_response False) (se_world demo_state) =
      (Ok res, one_job demo_finished 9 3600007) \<and> status_of res = Some 200 \<and>
    json_ScanReport demo_report = Some k \<and> rw_body res = print_json k @ [CHR 0x0A]"
proof -
  have g: "Get hour_store ''job-1'' (se_world demo_state) = (Ok (Some demo_finished), one_job demo_finished 9 3600007)"
    using one_job_Get [of demo_finished 8 3600007] by (simp add: demo_state_def)
  have v: "in_Vars (demo_in []) pathVarScanRequestID = Some ''job-1''"
    by (simp add: demo_in_def pathVarScanRequestID_def)
  have h: "h_store h = NewStore hour_store" by (simp add: h_def)
  obtain res where a: "GetScanReport demo_api h (demo_in []) (new_response False) (se_world demo_state) =
      (Ok res, one_job demo_finished 9 3600007)" and st: "status_of res = Some 200"
    using g v by (simp add: GetScanReport_def h NewStore_def status_defs new_response_def)
  from served_report_is_own [OF mem_server demo_leaves demo_start demo_reachable h v a st] a st
  show ?thesis by (auto simp: demo_scan_def)
qed

text \<open>
  C9. What is in Redis stays well formed. In every state the service can reach, whatever failed or
  crashed on the way, each value under the key of a job decodes to a job that has this
  identifier, and the job is one that storing again does not change.
\<close>

theorem stored_values_decode:
  assumes "redis_server (pool s) db clock" and "leaves_jobs db clock ad" and "jobs_ok s db w0"
    and "\<And>i. job_now s db clock w0 i = None" and "reachable_service s ad w0 sv"
    and "db (se_world sv) (getKeyForScanJob s i) = Some (v, d)"
  shows "\<exists>j. unmarshal_job (errors s) v = Ok j \<and> job_ID j = i \<and> stored_job j = j \<and> storable j"
proof -
  have "store_ok s (db (se_world sv))"
    using service_state(1) [OF assms(1-5)] by (simp add: jobs_ok_def)
  from store_okD [OF this assms(6)] show ?thesis by blast
qed

lemma stored_values_decode_witness:
  "\<exists>j. unmarshal_job (errors hour_store) (job_bytes demo_finished) = Ok j \<and> job_ID j = ''job-1'' \<and>
     stored_job j = j \<and> storable j"
proof -
  have "m_db (se_world demo_state) (getKeyForScanJob hour_store ''job-1'') = Some (job_bytes demo_finished, 3600007)"
    by (simp add: demo_state_def)
  from stored_values_decode [OF mem_server demo_leaves demo_start demo_reachable this] show ?thesis .
qed

text \<open>
  C10. A scan that is too slow ends everything. When the adapter takes as long as jobs are kept, its
  report is never stored: the job has expired, and unless Redis fails to answer the read, the
  update of the report dereferences the nil it was given, which nothing recovers from. The job
  does not come back however the task ends.
\<close>

theorem slow_scan_crashes:
  assumes "redis_server (pool s) db clock" and "leaves_jobs db clock ad" and "jobs_ok s db w"
    and "UpdateStatus s i Running [] w = (Ok u, w1)" and "ad req w1 = (Ok rep, w2)"
    and "clock w1 + 1000 * ttl_of s \<le> clock w2"
    and "Task (scan_worker s ad i req) w = (r, w')"
  shows "job_now s db clock w' i = None \<and> (r = Panic NilDereference \<or> (\<exists>e. fst (Get s i w2) = Err e))"
proof -
  note c = redis_contract [OF assms(1)]
  note now = scan_store.job_at_def [OF c] job_now_def
  note ad = frame_of_leaves [OF assms(1,2)]
  have "job_now s db clock w' i = None"
    using scan_store.late_task [OF c ad assms(3-6) assms(7) [unfolded worker_iface [OF assms(1)]]] by (simp add: now)
  moreover have "r = Panic NilDereference \<or> (\<exists>e. fst (Get s i w2) = Err e)"
  proof -
    note gone = scan_store.late_scan(1,3) [OF c ad assms(3-6)]
    obtain x w3 where x: "Get s i w2 = (x, w3)" by fastforce
    obtain t where t: "clock w2 \<le> t"
      "case x of Ok v \<Rightarrow> live t (jobs_of s db w2) i = v | Err e \<Rightarrow> True | Panic p \<Rightarrow> False"
      using scan_store.get_law [OF c gone(1) x] by blast
    have none: "live t (jobs_of s db w2) i = None"
      using gone(2) t(1) live_gone by (simp add: now)
    show ?thesis
    proof (cases x)
      case (Ok v)
      with t(2) none x have "UpdateReport s i rep w2 = (Panic NilDereference, w3)"
        by (simp add: UpdateReport_def bind_act_def panicking_def)
      with assms(4,5,7) show ?thesis by (simp add: Task_def scan_def scan_worker_def NewStore_def bind_act_def)
    qed (use x t(2) in simp_all)
  qed
  ultimately show ?thesis ..
qed

lemma slow_scan_crashes_witness:
  "job_now hour_store m_db m_clock (one_job demo_running 3600003 3600001) ''job-1'' = None \<and>
     (\<nexists>e. fst (Get hour_store ''job-1'' (one_job demo_running 3600002 3600001)) = Err e)"
proof -
  have u: "UpdateStatus hour_store ''job-1'' Running [] (one_job demo_job 0 3600000) = (Ok (), one_job demo_running 2 3600001)"
    using demo_updates(1) [of 0 3600000] by simp
  show ?thesis
    using slow_scan_crashes [OF mem_server slow_leaves demo_now(4) u slow_scan_run _ slow_task] by (simp add: demo_Get_late)
qed

subsection \<open>The whole program\<close>

text \<open>
  C1. From end to end. In every state that the program as \<open>main\<close> builds it can reach, a job that is
  live and finished has the report of a scan by this program, with its clients, for the request of
  that job, with nothing lost in Redis but bytes that are not UTF-8; when its HTTP library and
  its clock leave the jobs in Redis alone.
\<close>

theorem program_reports_own:
  assumes "build pg = Ok a" and "program_world db clock pg"
    and "redis_server (pg_redis pg (app_pool a)) db clock"
    and "jobs_ok (app_store a) db w0" and "\<And>i. job_now (app_store a) db clock w0 i = None"
    and "reachable_service (app_store a) (Scan (app_adapter a)) w0 sv"
    and "job_now (app_store a) db clock (se_world sv) i = Some j" and "job_Status j = Finished"
  shows "\<exists>req rep w1 w2. se_requests sv i = Some req \<and> Scan (app_adapter a) req w1 = (Ok rep, w2) \<and>
    job_Report j = san_report rep"
proof -
  have "pool (app_store a) = pg_redis pg (app_pool a)" by (rule build_Ok [OF assms(1)]) simp
  with assms(3) have r: "redis_server (pool (app_store a)) db clock" by simp
  from service_state(2) [OF r app_leaves_jobs [OF assms(1,2)] assms(4-7)] assms(8) obtain req rep w1 w2
    where "se_requests sv i = Some req" "Scan (app_adapter a) req w1 = (Ok rep, w2)" "job_Report j = stored_report rep"
    by blast
  with app_Scan_named [OF assms(1,2)] show ?thesis by metis
qed

lemma program_reports_own_witness:
  "\<exists>a rep w1 w2. build demo_program = Ok a \<and> Scan (app_adapter a) zero_ScanRequest w1 = (Ok rep, w2) \<and>
     job_Report demo_finished = san_report rep"
proof -
  obtain a where a: "build demo_program = Ok a" "app_store a = lift_store hour_store" by (rule demo_build)
  obtain sv where sv: "reachable_service (app_store a) (Scan (app_adapter a)) (mem_world [], initial_globals) sv"
    "fst (se_world sv) = one_job demo_finished 8 3600007" "se_requests sv = [''job-1'' \<mapsto> zero_ScanRequest]"
    by (rule demo_program_state [OF a(1)])
  have r: "redis_server (pg_redis demo_program (app_pool a)) (m_db \<circ> fst) (m_clock \<circ> fst)"
    using redis_server_lift [OF mem.redis_server_axioms] by (simp add: demo_program_def)
  have 0: "jobs_ok (app_store a) (m_db \<circ> fst) (mem_world [], initial_globals)"
    "job_now (app_store a) (m_db \<circ> fst) (m_clock \<circ> fst) (mem_world [], initial_globals) i = None" for i
    by (simp_all only: a(2) lift_jobs fst_conv demo_start)
  have "job_now (app_store a) (m_db \<circ> fst) (m_clock \<circ> fst) (se_world sv) ''job-1'' = Some demo_finished"
    by (simp add: a(2) lift_jobs sv(2))
  from program_reports_own [OF a(1) demo_program_world r 0 sv(1) this demo_finished(4)] a(1) sv(3)
  show ?thesis by auto
qed

end
